(* ===== verification/Prelude.thy ===== *)
theory Prelude
  imports Main "HOL-Library.Multiset" "HOL-Library.Word"
begin

text \<open>
  Shared vocabulary of the study.me development: the rule collections the component
  theories fill, the JavaScript value conventions the handlers of
  \<^verbatim>\<open>src/app/index.js\<close> rely on (truthiness of ids, \<open>x || d\<close> defaults), and
  generic lemmas on strictly increasing key lists used by the table model.
\<close>

named_theorems table_simps "equations of the rowid-table operations"
named_theorems db_simps "equations of the database statements and queries"
named_theorems handler_simps "unfolding rules of the event handlers"

type_synonym rowid = int

subsection \<open>JavaScript truthiness\<close>

text \<open>
  A database id travels through the code as a JavaScript number or \<open>null\<close>
  (\<open>currentBoardId\<close>, \<open>subjectId\<close>, \<open>chapterId\<close>). \<open>if (x)\<close> takes the branch
  exactly when \<open>x\<close> is a number other than \<open>0\<close>; \<open>x || null\<close> maps \<open>0\<close> to
  \<open>null\<close>.
\<close>

fun js_truthy_id :: "int option \<Rightarrow> bool" where
  "js_truthy_id None = False"
| "js_truthy_id (Some i) = (i \<noteq> 0)"

definition js_or_null :: "int option \<Rightarrow> int option" where
  "js_or_null x = (if js_truthy_id x then x else None)"

text \<open>
  \<open>parseInt(s) || d\<close>: \<open>NaN\<close> (here \<open>None\<close>) and \<open>0\<close> are falsy and give the
  default \<open>d\<close>.
\<close>

fun js_or_int :: "int option \<Rightarrow> int \<Rightarrow> int" where
  "js_or_int None d = d"
| "js_or_int (Some v) d = (if v = 0 then d else v)"

text \<open>\<open>s || d\<close> on strings (\<open>undefined\<close> is \<open>None\<close>, the empty string is falsy).\<close>

fun js_or_str :: "string option \<Rightarrow> string \<Rightarrow> string" where
  "js_or_str None d = d"
| "js_or_str (Some s) d = (if s = [] then d else s)"

lemma js_or_null_simps [simp]:
  "js_or_null None = None" "js_or_null (Some i) = (if i = 0 then None else Some i)"
  by (simp_all add: js_or_null_def)

lemma js_or_null_Some [simp]:"js_or_null x = Some i \<longleftrightarrow> x = Some i \<and> i \<noteq> 0"
  by (cases x) (auto simp: js_or_null_def)

lemma js_or_null_truthy [simp]: "js_truthy_id (js_or_null x) = js_truthy_id x"
  by (cases x) (auto simp: js_or_null_def)

lemma js_or_int_nonzero: "d \<noteq> 0 \<Longrightarrow> js_or_int x d \<noteq> 0"
  by (cases x) auto

lemma js_or_str_nonempty: "d \<noteq> [] \<Longrightarrow> js_or_str x d \<noteq> []"
  by (cases x) auto

subsection \<open>Strictly increasing key lists\<close>

lemma sorted_wrt_less_append_single [simp]:
  "sorted_wrt (<) (xs @ [y :: int]) \<longleftrightarrow> sorted_wrt (<) xs \<and> (\<forall>x \<in> set xs. x < y)"
  by (auto simp: sorted_wrt_append)

lemma sorted_wrt_less_filter_map:
  "sorted_wrt (<) (map fst t) \<Longrightarrow> sorted_wrt (<) (map fst (filter P t))"
  by (induction t) auto

lemma filter_eq_ConsD: "filter P xs = y # ys \<Longrightarrow> y \<in> set xs \<and> P y"
  by (drule arg_cong [where f = set]) auto

lemma sorted_wrt_less_distinct:
  "sorted_wrt (<) (xs :: int list) \<Longrightarrow> distinct xs"
  by (induction xs) auto

end
