(* ===== verification/Table.thy ===== *)
theory Table
  imports Prelude
begin

text \<open>
  A table of the embedded SQLite database (sql.js) with an \<open>INTEGER PRIMARY KEY\<close>
  column, as the schema of \<^verbatim>\<open>createSchema\<close> declares every table. Such a column is
  the rowid: a table is its rows in rowid order (the order of a table scan, which
  the code's queries without \<^verbatim>\<open>ORDER BY\<close> return), and an \<^verbatim>\<open>INSERT\<close> that
  does not name the id takes one more than the largest rowid in use, or 1 in an
  empty table (no \<^verbatim>\<open>AUTOINCREMENT\<close>, so the id of a deleted last row is reused).
  The operations are the statement forms the code issues: insert, delete where,
  select where, count where.
\<close>

type_synonym 'r table = "(rowid \<times> 'r) list"

subsection \<open>Operations\<close>

fun max_id :: "'r table \<Rightarrow> rowid option" where
  "max_id [] = None"
| "max_id ((i, _) # t) = (case max_id t of None \<Rightarrow> Some i | Some m \<Rightarrow> Some (max i m))"

definition next_rowid :: "'r table \<Rightarrow> rowid" where
  "next_rowid t = (case max_id t of None \<Rightarrow> 1 | Some m \<Rightarrow> m + 1)"

text \<open>\<^verbatim>\<open>INSERT\<close>: the new table and \<^verbatim>\<open>last_insert_rowid()\<close>.\<close>

definition tbl_insert :: "'r \<Rightarrow> 'r table \<Rightarrow> 'r table \<times> rowid" where
  "tbl_insert r t = (let i = next_rowid t in (t @ [(i, r)], i))"

definition tbl_delete :: "(rowid \<Rightarrow> 'r \<Rightarrow> bool) \<Rightarrow> 'r table \<Rightarrow> 'r table" where
  "tbl_delete P t = filter (\<lambda>(i, r). \<not> P i r) t"

definition tbl_select :: "(rowid \<Rightarrow> 'r \<Rightarrow> bool) \<Rightarrow> 'r table \<Rightarrow> 'r table" where
  "tbl_select P t = filter (\<lambda>(i, r). P i r) t"

definition tbl_count :: "(rowid \<Rightarrow> 'r \<Rightarrow> bool) \<Rightarrow> 'r table \<Rightarrow> nat" where
  "tbl_count P t = length (tbl_select P t)"

definition tbl_lookup :: "'r table \<Rightarrow> rowid \<Rightarrow> 'r option" where
  "tbl_lookup t i = map_of t i"

definition tbl_ids :: "'r table \<Rightarrow> rowid set" where
  "tbl_ids t = fst ` set t"

text \<open>Well-formed: rowids positive and strictly increasing along the table, so also
  unique. Rowid allocation starts at 1, so every table the code fills is well-formed.\<close>

definition wf_table :: "'r table \<Rightarrow> bool" where
  "wf_table t \<longleftrightarrow> sorted_wrt (<) (map fst t) \<and> (\<forall>i \<in> tbl_ids t. 0 < i)"

declare tbl_delete_def [table_simps] tbl_select_def [table_simps]
  tbl_count_def [table_simps] tbl_lookup_def [table_simps] tbl_ids_def [table_simps]

subsection \<open>Rowid assignment\<close>

lemma max_id_None [simp]: "max_id t = None \<longleftrightarrow> t = []"
  by (induction t rule: max_id.induct) (auto split: option.splits)

lemma max_id_ge: "(i, r) \<in> set t \<Longrightarrow> max_id t = Some m \<Longrightarrow> i \<le> m"
  by (induction t arbitrary: m rule: max_id.induct) (auto split: option.splits)

lemma next_rowid_fresh: "i \<in> tbl_ids t \<Longrightarrow> i < next_rowid t"
  by (auto simp: next_rowid_def tbl_ids_def dest: max_id_ge split: option.splits)

lemma next_rowid_notin [simp]: "next_rowid t \<notin> tbl_ids t"
  using next_rowid_fresh by blast

lemma next_rowid_Nil [simp]: "next_rowid [] = 1"
  by (simp add: next_rowid_def)

lemma max_id_in: "max_id t = Some m \<Longrightarrow> m \<in> fst ` set t"
  by (induction t arbitrary: m rule: max_id.induct)
     (auto simp: max_def split: option.splits if_splits)

subsection \<open>Insert\<close>

lemma tbl_insert_id [simp]: "snd (tbl_insert r t) = next_rowid t"
  by (simp add: tbl_insert_def Let_def)

lemma tbl_insert_rows [simp]: "fst (tbl_insert r t) = t @ [(next_rowid t, r)]"
  by (simp add: tbl_insert_def Let_def)

lemma next_rowid_pos: "\<forall>i \<in> tbl_ids t. 0 < i \<Longrightarrow> 0 < next_rowid t"
proof (cases "max_id t")
  case (Some m)
  then have "m \<in> tbl_ids t" using max_id_in by (simp add: tbl_ids_def)
  moreover assume "\<forall>i \<in> tbl_ids t. 0 < i"
  ultimately have "0 < m" by blast
  with Some show ?thesis by (simp add: next_rowid_def)
qed (simp add: next_rowid_def)

lemma wf_table_insert [intro]: "wf_table t \<Longrightarrow> wf_table (fst (tbl_insert r t))"
  using next_rowid_fresh next_rowid_pos by (fastforce simp: wf_table_def tbl_ids_def)

lemma wf_table_snoc_next:
  "wf_table t \<Longrightarrow> wf_table (t @ [(next_rowid t, r)]) \<and> 0 < next_rowid t"
  using wf_table_insert [of t r] next_rowid_pos [of t] by (simp add: wf_table_def)

lemma wf_table_pos:"wf_table t \<Longrightarrow> (i, r) \<in> set t \<Longrightarrow> 0 < i"
  by (force simp: wf_table_def tbl_ids_def)

lemma tbl_lookup_insert:
  "tbl_lookup (fst (tbl_insert r t)) i = (if i = next_rowid t then Some r else tbl_lookup t i)"
proof -
  have "map_of t (next_rowid t) = None"
    using next_rowid_notin [of t] by (auto simp: tbl_ids_def map_of_eq_None_iff)
  then show ?thesis by (auto simp: tbl_lookup_def map_of_append map_add_def split: option.splits)
qed

lemma tbl_ids_insert [simp]: "tbl_ids (fst (tbl_insert r t)) = insert (next_rowid t) (tbl_ids t)"
  by (auto simp: tbl_ids_def)

subsection \<open>Delete, select, count\<close>

lemma wf_table_delete [intro]: "wf_table t \<Longrightarrow> wf_table (tbl_delete P t)"
  by (auto simp: wf_table_def tbl_delete_def tbl_ids_def sorted_wrt_less_filter_map)

lemma wf_table_select [intro]: "wf_table t \<Longrightarrow> wf_table (tbl_select P t)"
  by (auto simp: wf_table_def tbl_select_def tbl_ids_def sorted_wrt_less_filter_map)

lemma tbl_select_delete_same [simp]: "tbl_select P (tbl_delete P t) = []"
  by (induction t) (auto simp: tbl_select_def tbl_delete_def)

lemma tbl_count_delete_same [simp]: "tbl_count P (tbl_delete P t) = 0"
  by (simp add: tbl_count_def)

lemma tbl_count_delete_other:
  "(\<And>i r. Q i r \<Longrightarrow> \<not> P i r) \<Longrightarrow> tbl_count Q (tbl_delete P t) = tbl_count Q t"
  by (auto simp: tbl_count_def tbl_select_def tbl_delete_def filter_filter intro!: arg_cong [where f = length] filter_cong)

lemma tbl_delete_length:
  "length (tbl_delete P t) + tbl_count P t = length t"
  by (induction t) (auto simp: tbl_count_def tbl_select_def tbl_delete_def)

lemma tbl_count_insert:
  "tbl_count P (fst (tbl_insert r t)) = tbl_count P t + (if P (next_rowid t) r then 1 else 0)"
  by (simp add: tbl_count_def tbl_select_def)

lemma tbl_count_delete_conj:
  "tbl_count Q (tbl_delete P t) + tbl_count (\<lambda>i r. Q i r \<and> P i r) t = tbl_count Q t"
  by (induction t) (auto simp: tbl_count_def tbl_select_def tbl_delete_def)

lemma tbl_count_cong: "(\<And>i r. P i r = Q i r) \<Longrightarrow> tbl_count P t = tbl_count Q t"
  by (simp add: tbl_count_def tbl_select_def)

lemma tbl_count_pos: "(i, r) \<in> set t \<Longrightarrow> P i r \<Longrightarrow> 0 < tbl_count P t"
  by (auto simp: tbl_count_def tbl_select_def filter_empty_conv)

lemma wf_table_distinct_ids: "wf_table t \<Longrightarrow> distinct (map fst t)"
  by (simp add: wf_table_def sorted_wrt_less_distinct)

lemma max_id_Max: "max_id t = Some m \<Longrightarrow> m = Max (tbl_ids t)"
proof (induction t arbitrary: m rule: max_id.induct)
  case (2 i r t)
  show ?case
  proof (cases "max_id t")
    case (Some m')
    then have "t \<noteq> []" by auto
    with 2 Some show ?thesis by (auto simp: tbl_ids_def Max_insert)
  qed (use 2 in \<open>auto simp: tbl_ids_def\<close>)
qed simp

text \<open>The rowid an insert takes is the one SQLite documents for a table
  without \<^verbatim>\<open>AUTOINCREMENT\<close>: one more than the largest rowid in use, or 1 in an
  empty table.\<close>

lemma next_rowid_max:
  "next_rowid t = (if t = [] then 1 else Max (tbl_ids t) + 1)"
  by (cases "max_id t") (auto simp: next_rowid_def dest: max_id_Max)

end
