(* ===== verification/Store.thy ===== *)
theory Store
  imports Table
begin

text \<open>
  The embedded database of \<^verbatim>\<open>src/app/index.js\<close>: the six tables of
  \<^verbatim>\<open>createSchema\<close> (lines 19--29), the statements the handlers run with
  \<^verbatim>\<open>db.run\<close> (which throw when a table is missing) and the queries they run through
  \<^verbatim>\<open>runQuery\<close> (lines 37--45, which swallow the error and return no rows).
  A database may lack tables: \<^verbatim>\<open>new SQL.Database()\<close> starts empty, and a database
  loaded from the durable slot or imported from a file holds whatever tables it was
  saved with. The set \<open>schema\<close> records which tables exist.
  sql.js returns the rows of a \<^verbatim>\<open>SELECT\<close> as \<^verbatim>\<open>[{columns, values}]\<close>, and
  \<^verbatim>\<open>[]\<close> when there are no rows; both are a row list here, so the code's test
  \<^verbatim>\<open>res.length\<close> is the test that the list is not empty.
\<close>

datatype tname = Boards | Subjects | Chapters | Questions | Playlists | PlaylistItems

datatype sql_error = NoSuchTable tname

text \<open>Rows, one record per table, named after the columns of \<^verbatim>\<open>createSchema\<close>; the
  \<^verbatim>\<open>id\<close> column is the table's rowid. \<^verbatim>\<open>boards\<close> and \<^verbatim>\<open>playlists\<close> have only a
  \<^verbatim>\<open>name\<close>. Nullable columns the code writes \<^verbatim>\<open>null\<close> into are options.\<close>

record subject_row =
  s_board :: int
  s_name :: string

record chapter_row =
  c_subject :: int
  c_name :: string

record question_row =
  q_board :: "int option"
  q_subject :: "int option"
  q_chapter :: "int option"
  q_marks :: int
  q_year :: "int option"
  q_text :: string
  q_tags :: "string option"

record item_row =
  pi_playlist :: int
  pi_question :: int

record db =
  schema :: "tname set"
  boards :: "string table"
  subjects :: "subject_row table"
  chapters :: "chapter_row table"
  questions :: "question_row table"
  playlists :: "string table"
  playlist_items :: "item_row table"

definition all_tables :: "tname set" where
  "all_tables = {Boards, Subjects, Chapters, Questions, Playlists, PlaylistItems}"

text \<open>\<^verbatim>\<open>new SQL.Database()\<close>: no tables.\<close>

definition empty_db :: db where
  "empty_db = \<lparr>schema = {}, boards = [], subjects = [], chapters = [], questions = [],
     playlists = [], playlist_items = []\<rparr>"

text \<open>\<^verbatim>\<open>createSchema\<close>: six \<^verbatim>\<open>CREATE TABLE IF NOT EXISTS\<close>; existing tables are kept.\<close>

definition create_schema :: "db \<Rightarrow> db" where
  "create_schema d = d\<lparr>schema := schema d \<union> all_tables\<rparr>"

subsection \<open>Statements and queries\<close>

text \<open>A statement or query runs only when every table it names exists; the first
  missing one (in the order the statement names them) is the error.\<close>

definition need :: "tname list \<Rightarrow> db \<Rightarrow> (db \<Rightarrow> 'a) \<Rightarrow> sql_error + 'a" where
  "need ns d f = (case filter (\<lambda>n. n \<notin> schema d) ns of [] \<Rightarrow> Inr (f d) | n # _ \<Rightarrow> Inl (NoSuchTable n))"

text \<open>\<^verbatim>\<open>runQuery\<close>: an error is logged and becomes the empty result.\<close>

fun run_query :: "sql_error + 'a list \<Rightarrow> 'a list" where
  "run_query (Inl e) = []"
| "run_query (Inr rows) = rows"

text \<open>\<^verbatim>\<open>INSERT INTO boards(name) VALUES(?)\<close> (\<^verbatim>\<open>createBoard\<close>, line 48).\<close>

definition ins_board :: "string \<Rightarrow> db \<Rightarrow> sql_error + db \<times> rowid" where
  "ins_board n d = need [Boards] d (\<lambda>d. let (t, i) = tbl_insert n (boards d) in (d\<lparr>boards := t\<rparr>, i))"

text \<open>\<^verbatim>\<open>INSERT INTO playlists(name) VALUES(?)\<close> (\<^verbatim>\<open>createPlaylist\<close>, line 265).\<close>

definition ins_playlist :: "string \<Rightarrow> db \<Rightarrow> sql_error + db \<times> rowid" where
  "ins_playlist n d = need [Playlists] d (\<lambda>d. let (t, i) = tbl_insert n (playlists d) in (d\<lparr>playlists := t\<rparr>, i))"

text \<open>\<^verbatim>\<open>INSERT INTO playlist_items(playlist_id, question_id) VALUES(?,?)\<close> (line 199).\<close>

definition ins_item :: "int \<Rightarrow> int \<Rightarrow> db \<Rightarrow> sql_error + db \<times> rowid" where
  "ins_item p q d = need [PlaylistItems] d (\<lambda>d.
     let (t, i) = tbl_insert \<lparr>pi_playlist = p, pi_question = q\<rparr> (playlist_items d)
     in (d\<lparr>playlist_items := t\<rparr>, i))"

text \<open>\<^verbatim>\<open>INSERT INTO subjects(board_id,name) VALUES(?,?)\<close> and the chapter insert
  (lines 228 and 234), each followed by \<^verbatim>\<open>SELECT last_insert_rowid()\<close>.\<close>

definition ins_subject :: "int \<Rightarrow> string \<Rightarrow> db \<Rightarrow> sql_error + db \<times> rowid" where
  "ins_subject b n d = need [Subjects] d (\<lambda>d.
     let (t, i) = tbl_insert \<lparr>s_board = b, s_name = n\<rparr> (subjects d) in (d\<lparr>subjects := t\<rparr>, i))"

definition ins_chapter :: "int \<Rightarrow> string \<Rightarrow> db \<Rightarrow> sql_error + db \<times> rowid" where
  "ins_chapter s n d = need [Chapters] d (\<lambda>d.
     let (t, i) = tbl_insert \<lparr>c_subject = s, c_name = n\<rparr> (chapters d) in (d\<lparr>chapters := t\<rparr>, i))"

text \<open>\<^verbatim>\<open>INSERT INTO questions(...)\<close>: the quick-add form names six columns (line 236),
  the document form three (line 258); the columns not named are \<^verbatim>\<open>NULL\<close>.\<close>

definition ins_question :: "question_row \<Rightarrow> db \<Rightarrow> sql_error + db \<times> rowid" where
  "ins_question q d = need [Questions] d (\<lambda>d.
     let (t, i) = tbl_insert q (questions d) in (d\<lparr>questions := t\<rparr>, i))"

text \<open>\<^verbatim>\<open>DELETE FROM playlist_items WHERE playlist_id=?\<close> (line 317),
  \<^verbatim>\<open>DELETE FROM playlists WHERE id=?\<close> (line 318) and
  \<^verbatim>\<open>DELETE FROM playlist_items WHERE playlist_id=? AND question_id=?\<close> (line 345).\<close>

definition del_items_of :: "int \<Rightarrow> db \<Rightarrow> sql_error + db" where
  "del_items_of p d = need [PlaylistItems] d (\<lambda>d.
     d\<lparr>playlist_items := tbl_delete (\<lambda>_ it. pi_playlist it = p) (playlist_items d)\<rparr>)"

definition del_playlist :: "int \<Rightarrow> db \<Rightarrow> sql_error + db" where
  "del_playlist p d = need [Playlists] d (\<lambda>d.
     d\<lparr>playlists := tbl_delete (\<lambda>i _. i = p) (playlists d)\<rparr>)"

definition del_item_pair :: "int \<Rightarrow> int \<Rightarrow> db \<Rightarrow> sql_error + db" where
  "del_item_pair p q d = need [PlaylistItems] d (\<lambda>d.
     d\<lparr>playlist_items := tbl_delete (\<lambda>_ it. pi_playlist it = p \<and> pi_question it = q) (playlist_items d)\<rparr>)"

subsection \<open>Queries\<close>

text \<open>\<^verbatim>\<open>SELECT id, name FROM boards ORDER BY id DESC\<close> (lines 56 and 86) and the
  playlist list (lines 192 and 273; the dashboard adds \<^verbatim>\<open>LIMIT 8\<close>, line 103).\<close>

definition sel_boards :: "db \<Rightarrow> sql_error + (rowid \<times> string) list" where
  "sel_boards d = need [Boards] d (\<lambda>d. rev (boards d))"

definition sel_playlists :: "db \<Rightarrow> sql_error + (rowid \<times> string) list" where
  "sel_playlists d = need [Playlists] d (\<lambda>d. rev (playlists d))"

text \<open>\<^verbatim>\<open>SELECT id FROM subjects WHERE board_id=? AND name=?\<close> (line 226) and
  \<^verbatim>\<open>SELECT id FROM chapters WHERE subject_id=? AND name=?\<close> (line 232).\<close>

definition sel_subject_id :: "int \<Rightarrow> string \<Rightarrow> db \<Rightarrow> sql_error + rowid list" where
  "sel_subject_id b n d = need [Subjects] d (\<lambda>d.
     map fst (tbl_select (\<lambda>_ s. s_board s = b \<and> s_name s = n) (subjects d)))"

definition sel_chapter_id :: "int \<Rightarrow> string \<Rightarrow> db \<Rightarrow> sql_error + rowid list" where
  "sel_chapter_id s n d = need [Chapters] d (\<lambda>d.
     map fst (tbl_select (\<lambda>_ c. c_subject c = s \<and> c_name c = n) (chapters d)))"

text \<open>\<^verbatim>\<open>SELECT COUNT(*) FROM questions WHERE text = ?\<close> (line 166) and
  \<^verbatim>\<open>SELECT COUNT(*) FROM playlist_items WHERE playlist_id=?\<close> (line 278): one row.\<close>

definition sel_text_count :: "string \<Rightarrow> db \<Rightarrow> sql_error + nat list" where
  "sel_text_count x d = need [Questions] d (\<lambda>d. [tbl_count (\<lambda>_ q. q_text q = x) (questions d)])"

definition sel_item_count :: "int \<Rightarrow> db \<Rightarrow> sql_error + nat list" where
  "sel_item_count p d = need [PlaylistItems] d (\<lambda>d.
     [tbl_count (\<lambda>_ it. pi_playlist it = p) (playlist_items d)])"

text \<open>The question list of \<^verbatim>\<open>renderQuestions\<close> (lines 151--158): three
  \<^verbatim>\<open>LEFT JOIN\<close>s on ids, an optional \<^verbatim>\<open>WHERE q.board_id=?\<close>, \<^verbatim>\<open>ORDER BY q.id DESC\<close>.\<close>

record qview =
  v_id :: rowid
  v_text :: string
  v_marks :: int
  v_year :: "int option"
  v_board :: "string option"
  v_subject :: "string option"
  v_chapter :: "string option"

definition left_join :: "'r table \<Rightarrow> int option \<Rightarrow> 'r option" where
  "left_join t k = (case k of None \<Rightarrow> None | Some i \<Rightarrow> tbl_lookup t i)"

definition sel_question_list :: "int option \<Rightarrow> db \<Rightarrow> sql_error + qview list" where
  "sel_question_list cur d = need [Questions, Boards, Subjects, Chapters] d (\<lambda>d.
     map (\<lambda>(i, q). \<lparr>v_id = i, v_text = q_text q, v_marks = q_marks q, v_year = q_year q,
                    v_board = left_join (boards d) (q_board q),
                    v_subject = map_option s_name (left_join (subjects d) (q_subject q)),
                    v_chapter = map_option c_name (left_join (chapters d) (q_chapter q))\<rparr>)
       (rev (if js_truthy_id cur then tbl_select (\<lambda>_ q. q_board q = cur) (questions d)
             else questions d)))"

text \<open>\<^verbatim>\<open>showPlaylistContents\<close> (line 329): an inner join of the playlist's items
  with the questions, newest item first.\<close>

definition sel_playlist_contents :: "int \<Rightarrow> db \<Rightarrow> sql_error + (rowid \<times> string \<times> int) list" where
  "sel_playlist_contents p d = need [Questions, PlaylistItems] d (\<lambda>d.
     [(k, q_text q, q_marks q). (j, it) \<leftarrow> rev (playlist_items d), pi_playlist it = p,
                                (k, q) \<leftarrow> questions d, k = pi_question it])"

text \<open>The pool of \<^verbatim>\<open>generateMTP\<close> (lines 354--357):
  \<^verbatim>\<open>SELECT id, text, marks FROM questions\<close>, with \<^verbatim>\<open>WHERE board_id=?\<close> when a
  board is selected; rowid order.\<close>

definition sel_pool :: "int option \<Rightarrow> db \<Rightarrow> sql_error + (rowid \<times> string \<times> int) list" where
  "sel_pool cur d = need [Questions] d (\<lambda>d.
     map (\<lambda>(i, q). (i, q_text q, q_marks q))
       (if js_truthy_id cur then tbl_select (\<lambda>_ q. q_board q = cur) (questions d) else questions d))"

declare ins_board_def [db_simps] ins_playlist_def [db_simps] ins_item_def [db_simps]
  ins_subject_def [db_simps] ins_chapter_def [db_simps] ins_question_def [db_simps]
  del_items_of_def [db_simps] del_playlist_def [db_simps] del_item_pair_def [db_simps]

subsection \<open>Well-formed databases\<close>

text \<open>Every table keeps its rows in strictly increasing rowid order.\<close>

definition wf_db :: "db \<Rightarrow> bool" where
  "wf_db d \<longleftrightarrow> wf_table (boards d) \<and> wf_table (subjects d) \<and> wf_table (chapters d) \<and>
     wf_table (questions d) \<and> wf_table (playlists d) \<and> wf_table (playlist_items d)"

definition init_db :: db where
  "init_db = create_schema empty_db"

lemma need_ok [simp]: "set ns \<subseteq> schema d \<Longrightarrow> need ns d f = Inr (f d)"
proof -
  assume "set ns \<subseteq> schema d"
  then have "filter (\<lambda>n. n \<notin> schema d) ns = []" by (auto simp: filter_empty_conv)
  then show ?thesis by (simp add: need_def)
qed

lemma need_single: "need [n] d f = (if n \<in> schema d then Inr (f d) else Inl (NoSuchTable n))"
  by (simp add: need_def)

lemma need_Inr:"need ns d f = Inr x \<longleftrightarrow> set ns \<subseteq> schema d \<and> x = f d"
  by (auto simp: need_def filter_empty_conv split: list.splits dest!: filter_eq_ConsD)

lemma need_Inl: "need ns d f = Inl e \<Longrightarrow> \<exists>n \<in> set ns. n \<notin> schema d \<and> e = NoSuchTable n"
  by (auto simp: need_def split: list.splits dest!: filter_eq_ConsD)

lemma schema_all [simp]: "all_tables \<subseteq> schema d \<Longrightarrow> n \<in> schema d"
  by (cases n) (auto simp: all_tables_def)

lemma wf_init_db: "wf_db init_db"
  by (simp add: wf_db_def init_db_def create_schema_def empty_db_def wf_table_def tbl_ids_def)

lemma init_db_schema [simp]: "schema init_db = all_tables"
  by (simp add: init_db_def create_schema_def empty_db_def)

lemma create_schema_complete [simp]: "all_tables \<subseteq> schema (create_schema d)"
  by (simp add: create_schema_def)

end
