(* ===== verification/App.thy ===== *)
theory App
  imports Store
begin

text \<open>
  The page's state and the handlers of \<^verbatim>\<open>src/app/index.js\<close> that create, select and
  delete boards, playlists and playlist items. The live database \<^verbatim>\<open>db\<close>, the global
  \<^verbatim>\<open>currentBoardId\<close>, the durable slot \<^verbatim>\<open>localStorage['studyme_db']\<close> (as the
  database image it holds; its byte and base64 encoding is the theory \<open>Persist\<close>) and
  the rows shown in the \<^verbatim>\<open>#generated\<close> container form one record.
  A handler ends either normally or with an uncaught exception. The exception does not
  undo the statements that ran before it: the live database keeps them, but
  \<^verbatim>\<open>saveDBToLocalStorage\<close> is not reached, so \<open>Threw\<close> carries the state as the
  exception left it. Rendering reads the database only through \<^verbatim>\<open>runQuery\<close>; the data
  each render function computes is a view function here.
\<close>

datatype js_error = SqlError sql_error | TypeError

type_synonym mtp_row = "rowid \<times> string \<times> int"

record app =
  db :: db
  current_board :: "int option"
  saved :: "db option"
  generated :: "mtp_row list"

datatype 'a outcome = Done 'a | Threw js_error 'a

fun result :: "'a outcome \<Rightarrow> 'a" where
  "result (Done s) = s"
| "result (Threw _ s) = s"

text \<open>\<^verbatim>\<open>initDB\<close> (lines 4--17): the saved image, or a fresh database with the schema.\<close>

fun boot :: "db option \<Rightarrow> db" where
  "boot None = init_db"
| "boot (Some d) = d"

definition init_app :: "db option \<Rightarrow> app" where
  "init_app slot = \<lparr>db = boot slot, current_board = None, saved = slot, generated = []\<rparr>"

text \<open>\<^verbatim>\<open>saveDBToLocalStorage\<close> (lines 31--35): the slot gets the whole live database.\<close>

definition save :: "app \<Rightarrow> app" where
  "save s = s\<lparr>saved := Some (db s)\<rparr>"

text \<open>Running one \<^verbatim>\<open>db.run\<close> statement from a handler: an error propagates as an
  exception, leaving the state as it is.\<close>

definition stmt :: "(db \<Rightarrow> sql_error + db \<times> 'a) \<Rightarrow> app \<Rightarrow> (js_error \<times> app) + ('a \<times> app)" where
  "stmt f s = (case f (db s) of Inl e \<Rightarrow> Inl (SqlError e, s) | Inr (d, x) \<Rightarrow> Inr (x, s\<lparr>db := d\<rparr>))"

definition stmt_u :: "(db \<Rightarrow> sql_error + db) \<Rightarrow> app \<Rightarrow> (js_error \<times> app) + app" where
  "stmt_u f s = (case f (db s) of Inl e \<Rightarrow> Inl (SqlError e, s) | Inr d \<Rightarrow> Inr (s\<lparr>db := d\<rparr>))"

text \<open>The statements of a handler run then the state is saved.\<close>

fun finish :: "(js_error \<times> app) + app \<Rightarrow> app outcome" where
  "finish (Inl (e, s)) = Threw e s"
| "finish (Inr s) = Done (save s)"

subsection \<open>Handlers\<close>

text \<open>\<^verbatim>\<open>createBoard\<close> (lines 47--51) and \<^verbatim>\<open>createPlaylist\<close> (lines 264--268).\<close>

definition createBoard :: "string \<Rightarrow> app \<Rightarrow> app outcome" where
  "createBoard name s = finish (map_sum id snd (stmt (ins_board name) s))"

definition createPlaylist :: "string \<Rightarrow> app \<Rightarrow> app outcome" where
  "createPlaylist name s = finish (map_sum id snd (stmt (ins_playlist name) s))"

text \<open>\<^verbatim>\<open>renderBoardPage\<close> (lines 128--146), reached from a board button or card, and
  \<^verbatim>\<open>selectBoard\<close> (lines 74--77): only \<^verbatim>\<open>currentBoardId\<close> changes.\<close>

definition renderBoardPage :: "int \<Rightarrow> app \<Rightarrow> app outcome" where
  "renderBoardPage b s = Done (s\<lparr>current_board := Some b\<rparr>)"

text \<open>The playlist picker's button (line 199): one more item row, duplicates allowed.\<close>

definition addToPlaylist :: "int \<Rightarrow> int \<Rightarrow> app \<Rightarrow> app outcome" where
  "addToPlaylist p q s = finish (map_sum id snd (stmt (ins_item p q) s))"

text \<open>The delete button of a playlist card (lines 315--321): after \<^verbatim>\<open>confirm\<close>, the
  playlist's items, then the playlist.\<close>

definition deletePlaylist :: "bool \<Rightarrow> int \<Rightarrow> app \<Rightarrow> app outcome" where
  "deletePlaylist confirmed p s =
     (if \<not> confirmed then Done s
      else finish (case stmt_u (del_items_of p) s of
                     Inl err \<Rightarrow> Inl err
                   | Inr s1 \<Rightarrow> stmt_u (del_playlist p) s1))"

text \<open>The remove button of a playlist entry (line 345).\<close>

definition removeFromPlaylist :: "int \<Rightarrow> int \<Rightarrow> app \<Rightarrow> app outcome" where
  "removeFromPlaylist p q s = finish (stmt_u (del_item_pair p q) s)"

text \<open>\<^verbatim>\<open>importDbFile\<close> (lines 396--405): the live database is replaced by the file's
  database and saved at once.\<close>

definition importDb :: "db \<Rightarrow> app \<Rightarrow> app outcome" where
  "importDb d s = Done (save (s\<lparr>db := d\<rparr>))"

declare createBoard_def [handler_simps] createPlaylist_def [handler_simps]
  renderBoardPage_def [handler_simps] addToPlaylist_def [handler_simps]
  deletePlaylist_def [handler_simps] removeFromPlaylist_def [handler_simps]
  importDb_def [handler_simps]

subsection \<open>Views\<close>

text \<open>\<^verbatim>\<open>renderBoards\<close> (lines 53--70): the boards, newest first.\<close>

definition board_list :: "app \<Rightarrow> (rowid \<times> string) list" where
  "board_list s = run_query (sel_boards (db s))"

text \<open>A \<^verbatim>\<open>COUNT(*)\<close> result read as \<^verbatim>\<open>(res.length && res[0].values[0][0]) || d\<close>.\<close>

fun count_or :: "nat list \<Rightarrow> nat \<Rightarrow> nat" where
  "count_or [] d = d"
| "count_or (c # _) d = (if c = 0 then d else c)"

text \<open>\<^verbatim>\<open>renderPlaylists\<close> (lines 270--279): each playlist with its item count.\<close>

definition playlist_cards :: "app \<Rightarrow> (rowid \<times> string \<times> nat) list" where
  "playlist_cards s = map (\<lambda>(p, n). (p, n, count_or (run_query (sel_item_count p (db s))) 0))
                         (run_query (sel_playlists (db s)))"

text \<open>\<^verbatim>\<open>renderQuestions\<close> (lines 148--184): each listed question with its occurrence
  badge, the number of stored questions with the same text (line 167).\<close>

definition question_cards :: "app \<Rightarrow> (qview \<times> nat) list" where
  "question_cards s = map (\<lambda>v. (v, count_or (run_query (sel_text_count (v_text v) (db s))) 1))
                         (run_query (sel_question_list (current_board s) (db s)))"

text \<open>\<^verbatim>\<open>showPlaylistContents\<close> (lines 327--351): the rows shown, newest item first.\<close>

definition playlist_contents :: "int \<Rightarrow> app \<Rightarrow> mtp_row list" where
  "playlist_contents p s = run_query (sel_playlist_contents p (db s))"

text \<open>The slot reproduces the live database: reloading the page (\<open>boot\<close>) gives back
  what the user sees now.\<close>

definition durable :: "app \<Rightarrow> bool" where
  "durable s \<longleftrightarrow> boot (saved s) = db s"

definition wf_app :: "app \<Rightarrow> bool" where
  "wf_app s \<longleftrightarrow> wf_db (db s)"

text \<open>A property of the database that a statement keeps whenever it succeeds.\<close>

definition stmt_keeps :: "(db \<Rightarrow> bool) \<Rightarrow> (db \<Rightarrow> sql_error + db \<times> 'a) \<Rightarrow> bool" where
  "stmt_keeps P f \<longleftrightarrow> (\<forall>d d' x. P d \<longrightarrow> f d = Inr (d', x) \<longrightarrow> P d')"

subsection \<open>Example states\<close>

text \<open>A page loaded from a slot that holds one playlist with the same question twice,
  and a second question with the same text.\<close>

definition ex_question :: "string \<Rightarrow> question_row" where
  "ex_question x = \<lparr>q_board = None, q_subject = None, q_chapter = None, q_marks = 3,
     q_year = None, q_text = x, q_tags = None\<rparr>"

definition ex_db :: db where
  "ex_db = init_db\<lparr>boards := [(1, ''CBSE'')], playlists := [(1, ''Revision'')],
     questions := [(1, ex_question ''Define velocity.''), (2, ex_question ''Define velocity.'')],
     playlist_items := [(1, \<lparr>pi_playlist = 1, pi_question = 1\<rparr>),
                        (2, \<lparr>pi_playlist = 1, pi_question = 1\<rparr>)]\<rparr>"

definition ex_app :: app where
  "ex_app = init_app (Some ex_db)"

abbreviation items_of :: "int \<Rightarrow> rowid \<Rightarrow> item_row \<Rightarrow> bool" where
  "items_of p \<equiv> \<lambda>_ it. pi_playlist it = p"

abbreviation pair_items :: "int \<Rightarrow> int \<Rightarrow> rowid \<Rightarrow> item_row \<Rightarrow> bool" where
  "pair_items p q \<equiv> \<lambda>_ it. pi_playlist it = p \<and> pi_question it = q"

subsection \<open>Invariants\<close>

lemma durable_save [simp]: "durable (save s)"
  by (simp add: durable_def save_def)

lemma save_db [simp]: "db (save s) = db s" and save_board [simp]: "current_board (save s) = current_board s"
  and save_generated [simp]: "generated (save s) = generated s"
  by (simp_all add: save_def)

lemma durable_init: "durable (init_app slot)"
  by (simp add: durable_def init_app_def)

lemma finish_Done_durable: "finish r = Done s' \<Longrightarrow> durable s'"
  by (cases r rule: finish.cases) auto

lemma stmt_Inr: "stmt f s = Inr (x, s') \<longleftrightarrow> (\<exists>d. f (db s) = Inr (d, x) \<and> s' = s\<lparr>db := d\<rparr>)"
  by (auto simp: stmt_def split: sum.splits)

lemma stmt_Inl: "stmt f s = Inl (e, s') \<longleftrightarrow> (\<exists>err. f (db s) = Inl err \<and> e = SqlError err \<and> s' = s)"
  by (auto simp: stmt_def split: sum.splits)

lemma stmt_u_Inr: "stmt_u f s = Inr s' \<longleftrightarrow> (\<exists>d. f (db s) = Inr d \<and> s' = s\<lparr>db := d\<rparr>)"
  by (auto simp: stmt_u_def split: sum.splits)

lemma stmt_u_Inl: "stmt_u f s = Inl (e, s') \<longleftrightarrow> (\<exists>err. f (db s) = Inl err \<and> e = SqlError err \<and> s' = s)"
  by (auto simp: stmt_u_def split: sum.splits)

lemmas stmt_simps = stmt_Inr stmt_Inl stmt_u_Inr stmt_u_Inl
lemma map_sum_stmt:
  "map_sum id g (stmt f s) = Inl (e, s') \<longleftrightarrow> stmt f s = Inl (e, s')"
  "map_sum id snd (stmt f s) = Inr s' \<longleftrightarrow> (\<exists>x. stmt f s = Inr (x, s'))"
  "map_sum id (\<lambda>(i, s'). (Some i, s')) (stmt f s) = Inr (y, s') \<longleftrightarrow>
     (\<exists>i. y = Some i \<and> stmt f s = Inr (i, s'))"
  by (cases "stmt f s"; auto)+


subsection \<open>Well-formedness of statements and handlers\<close>

lemma wf_db_ins:
  "wf_db d \<Longrightarrow> ins_board n d = Inr (d', i) \<Longrightarrow> wf_db d'"
  "wf_db d \<Longrightarrow> ins_playlist n d = Inr (d', i) \<Longrightarrow> wf_db d'"
  "wf_db d \<Longrightarrow> ins_item p q d = Inr (d', i) \<Longrightarrow> wf_db d'"
  "wf_db d \<Longrightarrow> ins_subject b n d = Inr (d', i) \<Longrightarrow> wf_db d'"
  "wf_db d \<Longrightarrow> ins_chapter c n d = Inr (d', i) \<Longrightarrow> wf_db d'"
  "wf_db d \<Longrightarrow> ins_question r d = Inr (d', i) \<Longrightarrow> wf_db d'"
  by (auto simp: db_simps wf_db_def need_single tbl_insert_def Let_def wf_table_snoc_next split: if_splits)

lemma wf_db_del:
  "wf_db d \<Longrightarrow> del_items_of p d = Inr d' \<Longrightarrow> wf_db d'"
  "wf_db d \<Longrightarrow> del_playlist p d = Inr d' \<Longrightarrow> wf_db d'"
  "wf_db d \<Longrightarrow> del_item_pair p q d = Inr d' \<Longrightarrow> wf_db d'"
  by (auto simp: db_simps wf_db_def need_single split: if_splits)

lemma wf_stmt:
  assumes "\<And>d d' x. wf_db d \<Longrightarrow> f d = Inr (d', x) \<Longrightarrow> wf_db d'" and "wf_app s"
  shows "stmt f s = Inl (e, s') \<Longrightarrow> wf_app s'" and "stmt f s = Inr (x, s') \<Longrightarrow> wf_app s'"
  using assms by (auto simp: stmt_def wf_app_def split: sum.splits)

lemma keeps_stmt:
  "stmt_keeps P f \<Longrightarrow> P (db s) \<Longrightarrow> stmt f s = Inl (e, s') \<Longrightarrow> P (db s')"
  "stmt_keeps P f \<Longrightarrow> P (db s) \<Longrightarrow> stmt f s = Inr (x, s') \<Longrightarrow> P (db s')"
  by (auto simp: stmt_keeps_def stmt_def split: sum.splits)

lemma wf_stmt_u:
  assumes "\<And>d d'. wf_db d \<Longrightarrow> f d = Inr d' \<Longrightarrow> wf_db d'" and "wf_app s"
  shows "stmt_u f s = Inl (e, s') \<Longrightarrow> wf_app s'" and "stmt_u f s = Inr s' \<Longrightarrow> wf_app s'"
  using assms by (auto simp: stmt_u_def wf_app_def split: sum.splits)

lemma wf_result_finish:
  "(\<And>e s'. r = Inl (e, s') \<Longrightarrow> wf_app s') \<Longrightarrow> (\<And>s'. r = Inr s' \<Longrightarrow> wf_app s') \<Longrightarrow>
   wf_app (result (finish r))"
  by (cases r rule: finish.cases) (auto simp: wf_app_def)


lemma wf_finish_stmt:
  assumes pres: "\<And>d d' x. wf_db d \<Longrightarrow> f d = Inr (d', x) \<Longrightarrow> wf_db d'" and wf: "wf_app s"
  shows "wf_app (result (finish (map_sum id snd (stmt f s))))"
proof (cases "stmt f s")
  case (Inl a)
  then obtain e s' where a: "stmt f s = Inl (e, s')" by (cases a) auto
  with wf_stmt(1) [OF pres wf a] show ?thesis by simp
next
  case (Inr b)
  then obtain x s' where b: "stmt f s = Inr (x, s')" by (cases b) auto
  with wf_stmt(2) [OF pres wf b] show ?thesis by (simp add: wf_app_def)
qed

lemma wf_finish_stmt_u:
  assumes pres: "\<And>d d'. wf_db d \<Longrightarrow> f d = Inr d' \<Longrightarrow> wf_db d'" and wf: "wf_app s"
  shows "wf_app (result (finish (stmt_u f s)))"
proof (cases "stmt_u f s")
  case (Inl a)
  then obtain e s' where a: "stmt_u f s = Inl (e, s')" by (cases a) auto
  with wf_stmt_u(1) [OF pres wf a] show ?thesis by simp
next
  case (Inr s')
  with wf_stmt_u(2) [OF pres wf Inr] show ?thesis by (simp add: wf_app_def)
qed

lemma wf_app_handlers:
  assumes "wf_app s"
  shows "wf_app (result (createBoard n s))" and "wf_app (result (createPlaylist n s))"
    and "wf_app (result (addToPlaylist p q s))" and "wf_app (result (removeFromPlaylist p q s))"
    and "wf_app (result (deletePlaylist c p s))" and "wf_app (result (renderBoardPage b s))"
    and "wf_db d \<Longrightarrow> wf_app (result (importDb d s))"
proof -
  show "wf_app (result (createBoard n s))" unfolding createBoard_def
    by (rule wf_finish_stmt [OF wf_db_ins(1) assms])
  show "wf_app (result (createPlaylist n s))" unfolding createPlaylist_def
    by (rule wf_finish_stmt [OF wf_db_ins(2) assms])
  show "wf_app (result (addToPlaylist p q s))" unfolding addToPlaylist_def
    by (rule wf_finish_stmt [OF wf_db_ins(3) assms])
  show "wf_app (result (removeFromPlaylist p q s))" unfolding removeFromPlaylist_def
    by (rule wf_finish_stmt_u [OF wf_db_del(3) assms])
  show "wf_app (result (renderBoardPage b s))"
    using assms by (simp add: renderBoardPage_def wf_app_def)
  show "wf_db d \<Longrightarrow> wf_app (result (importDb d s))"
    by (simp add: importDb_def wf_app_def)
  show "wf_app (result (deletePlaylist c p s))"
  proof (cases c)
    case False
    with assms show ?thesis by (simp add: deletePlaylist_def)
  next
    case True
    show ?thesis
    proof (cases "stmt_u (del_items_of p) s")
      case (Inl a)
      then obtain e s' where l: "stmt_u (del_items_of p) s = Inl (e, s')" by (cases a) auto
      from wf_stmt_u(1) [OF wf_db_del(1) assms l] True l show ?thesis
        by (simp add: deletePlaylist_def)
    next
      case (Inr s1)
      have "wf_app s1" by (rule wf_stmt_u(2) [OF wf_db_del(1) assms Inr])
      from wf_finish_stmt_u [OF wf_db_del(2) this] True Inr show ?thesis
        by (simp add: deletePlaylist_def)
    qed
  qed
qed

lemma result_finish_db: "db (result (finish r)) = (case r of Inl (e, s) \<Rightarrow> db s | Inr s \<Rightarrow> db s)"
  by (cases r rule: finish.cases) auto

subsection \<open>Playlists\<close>

lemma deletePlaylist_Done:
  assumes "all_tables \<subseteq> schema (db s)"
  shows "deletePlaylist True p s = Done (save (s\<lparr>db := db s\<lparr>
            playlist_items := tbl_delete (items_of p) (playlist_items (db s)),
            playlists := tbl_delete (\<lambda>i _. i = p) (playlists (db s))\<rparr>\<rparr>))"
  using assms by (simp add: deletePlaylist_def stmt_u_def db_simps)

lemma deletePlaylist_cases:
  "deletePlaylist True p s = Done s' \<Longrightarrow>
     db s' = db s\<lparr>playlist_items := tbl_delete (items_of p) (playlist_items (db s)),
                 playlists := tbl_delete (\<lambda>i _. i = p) (playlists (db s))\<rparr> \<and>
     {PlaylistItems, Playlists} \<subseteq> schema (db s)"
  by (auto simp: deletePlaylist_def stmt_u_def db_simps need_Inr split: sum.splits
           elim!: finish.elims)

lemma ex_app_schema: "all_tables \<subseteq> schema (db ex_app)"
  by (simp add: ex_app_def init_app_def ex_db_def)

lemmas ex_simps = ex_app_def init_app_def ex_db_def all_tables_def ex_question_def
  init_db_def create_schema_def empty_db_def

lemma ex_db_wf: "wf_db ex_db"
  by (simp add: wf_db_def ex_simps wf_table_def tbl_ids_def)

lemma sel_question_list_text:
  "sel_question_list cur d = Inr vs \<Longrightarrow> v \<in> set vs \<Longrightarrow>
     \<exists>i q. (i, q) \<in> set (questions d) \<and> v_text v = q_text q"
  by (force simp: sel_question_list_def need_Inr tbl_select_def split: if_splits)

lemma playlist_contents_no_items:
  "tbl_select (items_of p) (playlist_items (db s)) = [] \<Longrightarrow> playlist_contents p s = []"
  by (auto simp: playlist_contents_def sel_playlist_contents_def need_def tbl_select_def
                 filter_empty_conv split: list.splits)

text \<open>Claim C5. Deleting a confirmed playlist removes it and all its item rows:
  afterwards its item count is 0, its contents are empty and its id is gone.\<close>

theorem deletePlaylist_cascade:
  assumes "deletePlaylist True p s = Done s'"
  shows "run_query (sel_item_count p (db s')) = [0] \<and> playlist_contents p s' = [] \<and>
         p \<notin> tbl_ids (playlists (db s'))"
proof -
  from deletePlaylist_cases [OF assms]
  have d: "db s' = db s\<lparr>playlist_items := tbl_delete (items_of p) (playlist_items (db s)),
                 playlists := tbl_delete (\<lambda>i _. i = p) (playlists (db s))\<rparr>"
    and sch: "{PlaylistItems, Playlists} \<subseteq> schema (db s)" by blast+
  have "tbl_select (items_of p) (playlist_items (db s')) = []" by (simp add: d)
  then show ?thesis using sch
    by (auto simp: d sel_item_count_def tbl_count_def playlist_contents_no_items tbl_ids_def
                   tbl_delete_def)
qed

theorem deletePlaylist_cascade_witness:
  "\<exists>s'. deletePlaylist True 1 ex_app = Done s' \<and> run_query (sel_item_count 1 (db s')) = [0] \<and>
        playlist_contents 1 s' = [] \<and> 1 \<notin> tbl_ids (playlists (db s'))"
  using deletePlaylist_cascade [OF deletePlaylist_Done [OF ex_app_schema]]
        deletePlaylist_Done [OF ex_app_schema] by blast

text \<open>Claim C8. With the schema in place, the occurrence badge of every listed
  question is the number of stored questions with exactly its text, and at least 1.\<close>

theorem question_cards_occurrences:
  assumes "all_tables \<subseteq> schema (db s)" and "(v, n) \<in> set (question_cards s)"
  shows "n = tbl_count (\<lambda>_ q. q_text q = v_text v) (questions (db s)) \<and> 0 < n"
proof -
  obtain vs where vs: "sel_question_list (current_board s) (db s) = Inr vs"
    using assms(1) by (simp add: sel_question_list_def)
  with assms(2) have v: "v \<in> set vs"
    and n: "n = count_or (run_query (sel_text_count (v_text v) (db s))) 1"
    by (auto simp: question_cards_def)
  from sel_question_list_text [OF vs v] obtain i q
    where "(i, q) \<in> set (questions (db s))" "v_text v = q_text q"
    by blast
  then have "0 < tbl_count (\<lambda>_ q. q_text q = v_text v) (questions (db s))"
    by (auto intro: tbl_count_pos)
  with n assms(1) show ?thesis by (simp add: sel_text_count_def)
qed

theorem question_cards_occurrences_witness:
  "\<exists>v. (v, 2) \<in> set (question_cards ex_app) \<and>
       2 = tbl_count (\<lambda>_ q. q_text q = v_text v) (questions (db ex_app)) \<and> (0::nat) < 2"
proof -
  let ?v = "\<lparr>v_id = 2, v_text = ''Define velocity.'', v_marks = 3, v_year = None,
             v_board = None, v_subject = None, v_chapter = None\<rparr>"
  have "(?v, 2) \<in> set (question_cards ex_app)"
    by (simp add: question_cards_def ex_simps sel_question_list_def sel_text_count_def
                  left_join_def tbl_count_def tbl_select_def)
  with question_cards_occurrences [OF ex_app_schema this] show ?thesis by blast
qed

text \<open>Adding a question to a playlist always adds a row, also when the
  pair is already there: duplicates are kept.\<close>

lemma addToPlaylist_duplicate:
  assumes "addToPlaylist p q s = Done s'"
  shows "tbl_count (pair_items p q) (playlist_items (db s')) =
         Suc (tbl_count (pair_items p q) (playlist_items (db s)))"
  using assms
  by (auto simp: addToPlaylist_def stmt_def ins_item_def need_Inr tbl_insert_def Let_def
                 tbl_count_def tbl_select_def split: sum.splits prod.splits elim!: finish.elims)

lemma addToPlaylist_duplicate_example:
  "\<exists>s'. addToPlaylist 1 1 ex_app = Done s' \<and>
        tbl_count (pair_items 1 1) (playlist_items (db s')) = 3"
proof -
  obtain s' where s': "addToPlaylist 1 1 ex_app = Done s'"
    by (simp add: addToPlaylist_def stmt_def ins_item_def ex_simps tbl_insert_def Let_def)
  have "tbl_count (pair_items 1 1) (playlist_items (db ex_app)) = 2"
    by (simp add: ex_simps tbl_count_def tbl_select_def)
  with addToPlaylist_duplicate [OF s'] s' show ?thesis by auto
qed

text \<open>Claim C13. The remove button of one entry deletes every row of that
  question in that playlist: all duplicates go at once, and the playlist's count drops by
  their number.\<close>

theorem removeFromPlaylist_all_copies:
  assumes "removeFromPlaylist p q s = Done s'"
  shows "tbl_count (pair_items p q) (playlist_items (db s')) = 0 \<and>
         tbl_count (items_of p) (playlist_items (db s')) +
           tbl_count (pair_items p q) (playlist_items (db s)) =
         tbl_count (items_of p) (playlist_items (db s))"
proof -
  let ?t = "playlist_items (db s)"
  from assms have t': "playlist_items (db s') = tbl_delete (pair_items p q) ?t"
    by (auto simp: removeFromPlaylist_def stmt_u_def del_item_pair_def need_Inr
             split: sum.splits elim!: finish.elims)
  have "tbl_count (\<lambda>i r. items_of p i r \<and> pair_items p q i r) ?t = tbl_count (pair_items p q) ?t"
    by (rule tbl_count_cong) auto
  with tbl_count_delete_conj [of "items_of p" "pair_items p q" ?t] show ?thesis
    by (simp add: t')
qed

theorem removeFromPlaylist_all_copies_witness:
  "\<exists>s'. removeFromPlaylist 1 1 ex_app = Done s' \<and>
        tbl_count (pair_items 1 1) (playlist_items (db s')) = 0 \<and>
        tbl_count (items_of 1) (playlist_items (db s')) + 2 = 2"
proof -
  obtain s' where s': "removeFromPlaylist 1 1 ex_app = Done s'"
    by (simp add: removeFromPlaylist_def stmt_u_def del_item_pair_def ex_simps)
  have "tbl_count (pair_items 1 1) (playlist_items (db ex_app)) = 2"
    and "tbl_count (items_of 1) (playlist_items (db ex_app)) = 2"
    by (simp_all add: ex_simps tbl_count_def tbl_select_def)
  with removeFromPlaylist_all_copies [OF s'] s' show ?thesis by auto
qed

text \<open>Claim C19. After a board is created, the board list shows it first, with the
  next rowid, followed by the boards listed before.\<close>

theorem createBoard_newest_first:
  assumes "createBoard n s = Done s'"
  shows "board_list s' = (next_rowid (boards (db s)), n) # board_list s"
  using assms
  by (auto simp: createBoard_def stmt_def ins_board_def need_Inr board_list_def sel_boards_def
                 tbl_insert_def Let_def split: sum.splits prod.splits elim!: finish.elims)

theorem createBoard_newest_first_witness:
  "createBoard ''ICSE'' ex_app = Done (result (createBoard ''ICSE'' ex_app)) \<and>
   board_list (result (createBoard ''ICSE'' ex_app)) = [(2, ''ICSE''), (1, ''CBSE'')]"
proof -
  have d: "createBoard ''ICSE'' ex_app = Done (result (createBoard ''ICSE'' ex_app))"
    by (simp add: createBoard_def stmt_def ins_board_def need_single ex_simps tbl_insert_def Let_def)
  have "board_list ex_app = [(1, ''CBSE'')]" "next_rowid (boards (db ex_app)) = 2"
    by (simp_all add: board_list_def sel_boards_def need_single ex_simps next_rowid_def)
  then show ?thesis using createBoard_newest_first [OF d] d by simp
qed

text \<open>Claim C20. When the live database has no boards table (an imported file without
  it), creating a board throws and changes nothing: no row, no save.\<close>

theorem createBoard_missing_table:
  assumes "Boards \<notin> schema (db s)"
  shows "createBoard n s = Threw (SqlError (NoSuchTable Boards)) s"
  using assms by (simp add: createBoard_def stmt_def ins_board_def need_def)

theorem createBoard_missing_table_witness:
  "Boards \<notin> schema (db (ex_app\<lparr>db := (db ex_app)\<lparr>schema := {Questions}\<rparr>\<rparr>)) \<and>
   createBoard ''ICSE'' (ex_app\<lparr>db := (db ex_app)\<lparr>schema := {Questions}\<rparr>\<rparr>) =
     Threw (SqlError (NoSuchTable Boards)) (ex_app\<lparr>db := (db ex_app)\<lparr>schema := {Questions}\<rparr>\<rparr>)"
  using createBoard_missing_table [of "ex_app\<lparr>db := (db ex_app)\<lparr>schema := {Questions}\<rparr>\<rparr>"] by simp

text \<open>Claim C21. When the playlists table is missing but the items table exists, the
  delete button removes the playlist's items in memory and then throws: the playlist
  stays, its items are gone until the page reloads, and nothing is saved.\<close>

theorem deletePlaylist_partial_write:
  assumes "PlaylistItems \<in> schema (db s)" and "Playlists \<notin> schema (db s)"
  shows "deletePlaylist True p s =
           Threw (SqlError (NoSuchTable Playlists))
             (s\<lparr>db := db s\<lparr>playlist_items := tbl_delete (\<lambda>_ it. pi_playlist it = p) (playlist_items (db s))\<rparr>\<rparr>)"
  using assms by (simp add: deletePlaylist_def stmt_u_def del_items_of_def del_playlist_def need_def)

theorem deletePlaylist_partial_write_witness:
  "PlaylistItems \<in> schema (db (ex_app\<lparr>db := (db ex_app)\<lparr>schema := {PlaylistItems}\<rparr>\<rparr>)) \<and>
   Playlists \<notin> schema (db (ex_app\<lparr>db := (db ex_app)\<lparr>schema := {PlaylistItems}\<rparr>\<rparr>)) \<and>
   playlist_items (db (result (deletePlaylist True 1 (ex_app\<lparr>db := (db ex_app)\<lparr>schema := {PlaylistItems}\<rparr>\<rparr>)))) = [] \<and>
   \<not> durable (result (deletePlaylist True 1 (ex_app\<lparr>db := (db ex_app)\<lparr>schema := {PlaylistItems}\<rparr>\<rparr>)))"
  using deletePlaylist_partial_write [of "ex_app\<lparr>db := (db ex_app)\<lparr>schema := {PlaylistItems}\<rparr>\<rparr>" 1]
  by (simp add: ex_simps durable_def tbl_delete_def)

text \<open>Claim C24. With a board selected, the question list shows exactly the questions
  stored on that board, newest first.\<close>

theorem question_cards_board:
  assumes "all_tables \<subseteq> schema (db s)" and "js_or_null (current_board s) = Some b"
  shows "map (v_id \<circ> fst) (question_cards s) =
           rev (map fst (filter (\<lambda>(i, q). q_board q = Some b) (questions (db s))))"
proof -
  have "current_board s = Some b" "b \<noteq> 0" using assms(2) by auto
  with assms(1) show ?thesis
    by (simp add: question_cards_def sel_question_list_def need_single rev_map tbl_select_def
          comp_def case_prod_beta)
qed

theorem question_cards_board_witness:
  "all_tables \<subseteq> schema (db (ex_app\<lparr>current_board := Some 1, db := (db ex_app)\<lparr>questions :=
      [(1, (ex_question ''A'')\<lparr>q_board := Some 1\<rparr>), (2, ex_question ''B''),
       (3, (ex_question ''C'')\<lparr>q_board := Some 1\<rparr>)]\<rparr>\<rparr>)) \<and>
   js_or_null (current_board (ex_app\<lparr>current_board := Some 1, db := (db ex_app)\<lparr>questions :=
      [(1, (ex_question ''A'')\<lparr>q_board := Some 1\<rparr>), (2, ex_question ''B''),
       (3, (ex_question ''C'')\<lparr>q_board := Some 1\<rparr>)]\<rparr>\<rparr>)) = Some 1 \<and>
   map (v_id \<circ> fst) (question_cards (ex_app\<lparr>current_board := Some 1, db := (db ex_app)\<lparr>questions :=
      [(1, (ex_question ''A'')\<lparr>q_board := Some 1\<rparr>), (2, ex_question ''B''),
       (3, (ex_question ''C'')\<lparr>q_board := Some 1\<rparr>)]\<rparr>\<rparr>)) = [3, 1]"
proof -
  let ?s = "ex_app\<lparr>current_board := Some 1, db := (db ex_app)\<lparr>questions :=
      [(1, (ex_question ''A'')\<lparr>q_board := Some 1\<rparr>), (2, ex_question ''B''),
       (3, (ex_question ''C'')\<lparr>q_board := Some 1\<rparr>)]\<rparr>\<rparr>"
  have h: "all_tables \<subseteq> schema (db ?s)" "js_or_null (current_board ?s) = Some 1"
    by (simp_all add: ex_simps)
  show ?thesis using h question_cards_board [OF h] by (simp add: ex_question_def)
qed

text \<open>Claim C25. Every playlist card shows the number of item rows of its playlist
  (duplicates counted), the newest playlist first.\<close>

theorem playlist_cards_count:
  assumes "{Playlists, PlaylistItems} \<subseteq> schema (db s)"
  shows "map (\<lambda>(p, n, c). (p, c)) (playlist_cards s) =
           map (\<lambda>(p, n). (p, tbl_count (\<lambda>_ it. pi_playlist it = p) (playlist_items (db s))))
             (rev (playlists (db s)))"
  using assms
  by (auto simp: playlist_cards_def sel_playlists_def sel_item_count_def need_single)

theorem playlist_cards_count_witness:
  "{Playlists, PlaylistItems} \<subseteq> schema (db ex_app) \<and>
   map (\<lambda>(p, n, c). (p, c)) (playlist_cards ex_app) = [(1, 2)]"
proof -
  have h: "{Playlists, PlaylistItems} \<subseteq> schema (db ex_app)" by (simp add: ex_simps)
  show ?thesis using h playlist_cards_count [OF h] by (simp add: ex_simps tbl_count_def tbl_select_def)
qed

end
