(* ===== verification/JS_String.thy ===== *)
theory JS_String
  imports Prelude
begin

text \<open>
  The JavaScript string builtins that \<^verbatim>\<open>src/app/index.js\<close> relies on, modelled from
  the ECMAScript specification (they are not code of the repository): whitespace and
  \<^verbatim>\<open>String.prototype.trim\<close>, \<^verbatim>\<open>split\<close> on a one-character separator,
  \<^verbatim>\<open>Array.prototype.join\<close>, \<^verbatim>\<open>parseInt\<close> without a radix and \<^verbatim>\<open>String(n)\<close> for an
  integer \<open>n\<close>. A string is a list of UTF-16 code units; the model covers the units
  below 256 that a HOL \<open>char\<close> holds, so the whitespace beyond Latin-1 (U+2028, U+FEFF
  and the other space separators) is outside it. \<^verbatim>\<open>parseInt\<close> returns \<open>None\<close> for
  \<^verbatim>\<open>NaN\<close>, and \<open>0\<close> for both zeros; its value is the exact integer (a JavaScript
  number loses precision beyond 2 to the 53rd, which the model does not round).
\<close>

text \<open>WhiteSpace and LineTerminator code units below 256: TAB, LF, VT, FF, CR, SP, NBSP.\<close>

definition js_ws :: "char \<Rightarrow> bool" where
  "js_ws c \<longleftrightarrow> of_char c \<in> {9, 10, 11, 12, 13, 32, 160 :: nat}"

definition trim :: "string \<Rightarrow> string" where
  "trim s = rev (dropWhile js_ws (rev (dropWhile js_ws s)))"

text \<open>\<^verbatim>\<open>s.split(c)\<close>: the pieces between the separators, \<^verbatim>\<open>[""]\<close> for the empty string.\<close>

fun split_on :: "char \<Rightarrow> string \<Rightarrow> string list" where
  "split_on c [] = [[]]"
| "split_on c (x # xs) =
     (if x = c then [] # split_on c xs
      else (case split_on c xs of w # ws \<Rightarrow> (x # w) # ws | [] \<Rightarrow> [[x]]))"

text \<open>\<^verbatim>\<open>xs.join(sep)\<close>.\<close>

fun join :: "string \<Rightarrow> string list \<Rightarrow> string" where
  "join sep [] = []"
| "join sep [x] = x"
| "join sep (x # xs) = x @ sep @ join sep xs"

subsection \<open>parseInt\<close>

definition dec_digit :: "char \<Rightarrow> nat option" where
  "dec_digit c = (let n = of_char c in if 48 \<le> n \<and> n \<le> 57 then Some (n - 48) else None)"

definition hex_digit :: "char \<Rightarrow> nat option" where
  "hex_digit c =
     (let n = of_char c in
      if 48 \<le> n \<and> n \<le> 57 then Some (n - 48)
      else if 97 \<le> n \<and> n \<le> 102 then Some (n - 87)
      else if 65 \<le> n \<and> n \<le> 70 then Some (n - 55)
      else None)"

fun digit_prefix :: "(char \<Rightarrow> nat option) \<Rightarrow> string \<Rightarrow> nat list" where
  "digit_prefix f [] = []"
| "digit_prefix f (c # cs) = (case f c of None \<Rightarrow> [] | Some d \<Rightarrow> d # digit_prefix f cs)"

definition digits_value :: "nat \<Rightarrow> nat list \<Rightarrow> nat" where
  "digits_value r ds = foldl (\<lambda>a d. a * r + d) 0 ds"

text \<open>ECMAScript \<^verbatim>\<open>parseInt(string, undefined)\<close>: leading whitespace, a sign, a
  \<^verbatim>\<open>0x\<close>/\<^verbatim>\<open>0X\<close> prefix selecting radix 16, then the longest run of digits.\<close>

definition parse_sign :: "string \<Rightarrow> int \<times> string" where
  "parse_sign s =
     (if s \<noteq> [] \<and> hd s = CHR ''-'' then (-1, tl s)
      else if s \<noteq> [] \<and> hd s = CHR ''+'' then (1, tl s)
      else (1, s))"

definition parse_radix :: "string \<Rightarrow> (char \<Rightarrow> nat option) \<times> nat \<times> string" where
  "parse_radix s =
     (if 2 \<le> length s \<and> s ! 0 = CHR ''0'' \<and> (s ! 1 = CHR ''x'' \<or> s ! 1 = CHR ''X'')
      then (hex_digit, 16, drop 2 s) else (dec_digit, 10, s))"

definition parse_int :: "string \<Rightarrow> int option" where
  "parse_int str =
     (let (sign, s1) = parse_sign (dropWhile js_ws str);
          (f, r, s2) = parse_radix s1;
          ds = digit_prefix f s2
      in if ds = [] then None else Some (sign * int (digits_value r ds)))"

subsection \<open>String(n)\<close>

fun digits_of_nat :: "nat \<Rightarrow> string" where
  "digits_of_nat n =
     (if n < 10 then [''0123456789'' ! n]
      else digits_of_nat (n div 10) @ [''0123456789'' ! (n mod 10)])"

definition string_of_int :: "int \<Rightarrow> string" where
  "string_of_int i = (if i < 0 then CHR ''-'' # digits_of_nat (nat (- i)) else digits_of_nat (nat i))"

declare digits_of_nat.simps [simp del]

subsection \<open>Lemmas\<close>

lemma of_char_digit: "d < 10 \<Longrightarrow> of_char (''0123456789'' ! d) = (48 + d :: nat)"
  by (auto simp: less_Suc_eq numeral_eq_Suc nth_Cons')

lemma dec_digit_digit [simp]: "d < 10 \<Longrightarrow> dec_digit (''0123456789'' ! d) = Some d"
  by (simp add: dec_digit_def of_char_digit)

lemma digit_not_ws [simp]: "d < 10 \<Longrightarrow> \<not> js_ws (''0123456789'' ! d)"
  by (simp add: js_ws_def of_char_digit)

lemma digit_prefix_append:
  "(\<forall>c \<in> set xs. f c \<noteq> None) \<Longrightarrow> digit_prefix f (xs @ ys) = digit_prefix f xs @ digit_prefix f ys"
  by (induction xs) auto

lemma digits_value_snoc [simp]: "digits_value r (ds @ [d]) = digits_value r ds * r + d"
  by (simp add: digits_value_def)

lemma digits_of_nat_digits: "c \<in> set (digits_of_nat n) \<Longrightarrow> \<exists>d < 10. c = ''0123456789'' ! d"
proof (induction n rule: digits_of_nat.induct)
  case (1 n)
  then show ?case
    by (subst (asm) digits_of_nat.simps) (force split: if_splits)
qed

lemma digits_of_nat_value:
  "digits_value 10 (digit_prefix dec_digit (digits_of_nat n)) = n \<and> digits_of_nat n \<noteq> []"
proof (induction n rule: digits_of_nat.induct)
  case (1 n)
  show ?case
  proof (cases "n < 10")
    case True
    then show ?thesis by (simp add: digits_of_nat.simps [of n] digits_value_def)
  next
    case False
    have all: "\<forall>c \<in> set (digits_of_nat (n div 10)). dec_digit c \<noteq> None"
      using digits_of_nat_digits by fastforce
    from False "1" have "digits_value 10 (digit_prefix dec_digit (digits_of_nat (n div 10))) = n div 10"
      by simp
    with False all show ?thesis
      by (subst (1 2) digits_of_nat.simps) (simp add: digit_prefix_append)
  qed
qed

lemma digits_of_nat_no_prefix:
  "parse_radix (digits_of_nat n) = (dec_digit, 10, digits_of_nat n)"
proof -
  have "2 \<le> length (digits_of_nat n) \<Longrightarrow> digits_of_nat n ! 1 \<in> set (digits_of_nat n)"
    by simp
  then have "2 \<le> length (digits_of_nat n) \<Longrightarrow> digits_of_nat n ! 1 \<noteq> CHR ''x'' \<and> digits_of_nat n ! 1 \<noteq> CHR ''X''"
    using digits_of_nat_digits by (fastforce simp: less_Suc_eq numeral_eq_Suc nth_Cons')
  then show ?thesis by (auto simp: parse_radix_def)
qed

lemma digits_of_nat_hd: "\<not> js_ws (hd (digits_of_nat n)) \<and> hd (digits_of_nat n) \<noteq> CHR ''-'' \<and>
                         hd (digits_of_nat n) \<noteq> CHR ''+''"
proof -
  have "hd (digits_of_nat n) \<in> set (digits_of_nat n)"
    using digits_of_nat_value [of n] by simp
  then obtain d where "d < 10" "hd (digits_of_nat n) = ''0123456789'' ! d"
    using digits_of_nat_digits by blast
  then show ?thesis by (auto simp: less_Suc_eq numeral_eq_Suc nth_Cons' js_ws_def)
qed

lemma digits_of_nat_prefix_ne: "digit_prefix dec_digit (digits_of_nat n) \<noteq> []"
proof -
  obtain c cs where cs: "digits_of_nat n = c # cs"
    using digits_of_nat_value [of n] by (cases "digits_of_nat n") auto
  then obtain d where "d < 10" "c = ''0123456789'' ! d"
    using digits_of_nat_digits [of c n] by auto
  with cs show ?thesis by simp
qed

lemma parse_int_digits:
  assumes "parse_sign (dropWhile js_ws s) = (sg, digits_of_nat n)"
  shows "parse_int s = Some (sg * int n)"
  using assms digits_of_nat_value [of n] digits_of_nat_prefix_ne [of n]
  by (simp add: parse_int_def digits_of_nat_no_prefix Let_def)

lemma string_of_int_ne: "string_of_int i \<noteq> []"
  using digits_of_nat_value by (simp add: string_of_int_def)

lemma string_of_int_hd: "\<not> js_ws (hd (string_of_int i))"
  using digits_of_nat_hd by (simp add: string_of_int_def js_ws_def)

text \<open>\<^verbatim>\<open>parseInt(String(i)) = i\<close> for every integer.\<close>

lemma parse_int_string_of_int: "parse_int (string_of_int i) = Some i"
proof (cases "i < 0")
  case True
  have "parse_sign (dropWhile js_ws (string_of_int i)) = (-1, digits_of_nat (nat (- i)))"
    using True by (simp add: string_of_int_def js_ws_def parse_sign_def)
  from parse_int_digits [OF this] True show ?thesis by simp
next
  case False
  have ne: "digits_of_nat (nat i) \<noteq> []" using digits_of_nat_value by blast
  then have "dropWhile js_ws (digits_of_nat (nat i)) = digits_of_nat (nat i)"
    using digits_of_nat_hd [of "nat i"] by (cases "digits_of_nat (nat i)") auto
  then have "parse_sign (dropWhile js_ws (string_of_int i)) = (1, digits_of_nat (nat i))"
    using False ne digits_of_nat_hd [of "nat i"] by (simp add: string_of_int_def parse_sign_def)
  from parse_int_digits [OF this] False show ?thesis by simp
qed

subsection \<open>split, join and trim\<close>

lemma split_on_no_sep: "c \<notin> set xs \<Longrightarrow> split_on c xs = [xs]"
  by (induction xs) auto

lemma split_on_append_sep:
  "c \<notin> set xs \<Longrightarrow> split_on c (xs @ c # ys) = xs # split_on c ys"
proof (induction xs)
  case Nil
  then show ?case by simp
next
  case (Cons x xs)
  then show ?case by (cases "split_on c (xs @ c # ys)") auto
qed

lemma split_on_ne [simp]: "split_on c xs \<noteq> []"
  by (induction xs) (auto split: list.splits)

lemma trim_no_ws:
  "xs = [] \<or> (\<not> js_ws (hd xs) \<and> \<not> js_ws (last xs)) \<Longrightarrow> trim xs = xs"
proof (cases xs rule: rev_cases)
  case (snoc ys y)
  assume h: "xs = [] \<or> (\<not> js_ws (hd xs) \<and> \<not> js_ws (last xs))"
  with snoc have "dropWhile js_ws xs = xs" by (simp add: dropWhile_eq_self_iff)
  moreover from h snoc have "dropWhile js_ws (rev xs) = rev xs" by simp
  ultimately show ?thesis by (simp add: trim_def)
qed (simp add: trim_def)

lemma trim_hd:
  assumes "trim t = t" and "t \<noteq> []"
  shows "\<not> js_ws (hd t)"
proof
  assume ws: "js_ws (hd t)"
  from assms(2) obtain c u where t: "t = c # u" by (cases t) auto
  have "length (dropWhile js_ws (rev (dropWhile js_ws t))) \<le> length (rev (dropWhile js_ws t))"
    by (rule length_dropWhile_le)
  then have "length (trim t) \<le> length (dropWhile js_ws t)" by (simp add: trim_def)
  also have "\<dots> < length t" using ws t by (simp add: le_imp_less_Suc length_dropWhile_le)
  finally show False using assms(1) by simp
qed

end
