(* ===== verification/Sampler.thy ===== *)
theory Sampler
  imports App JS_String
begin

text \<open>
  The mock-test-paper generator \<^verbatim>\<open>generateMTP\<close> (\<^verbatim>\<open>src/app/index.js\<close> lines
  353--385). The pool is the question table (restricted to the current board); with
  preferred marks, every question whose \<^verbatim>\<open>String(marks)\<close> is preferred is pushed three
  times. The loop draws \<^verbatim>\<open>Math.floor(Math.random()*available.length)\<close>, removes that
  entry with \<^verbatim>\<open>splice\<close> and keeps it unless a picked question has the same id.
  \<^verbatim>\<open>Math.random()\<close> is the \<open>c\<close>-th value \<open>rnd c / 2^53\<close> of a random source
  \<open>rnd\<close>: a double in [0, 1) with 53 random bits; the index is the floor of the exact
  product (floating-point rounding of the product can move an index by one, never out
  of range). An index out of range would make \<^verbatim>\<open>splice\<close> return nothing and the next
  \<^verbatim>\<open>item.id\<close> or \<^verbatim>\<open>p.marks\<close> throw a TypeError; with every draw below 2^53 it does
  not happen.
\<close>

definition random_scale :: nat where
  "random_scale = 2 ^ 53"

definition rand_index :: "nat \<Rightarrow> nat \<Rightarrow> nat" where
  "rand_index k n = k * n div random_scale"

text \<open>Lines 359--368: the pool rows as \<open>(id, text, marks)\<close>, boosted by duplication.\<close>

definition mtp_pool :: "app \<Rightarrow> mtp_row list" where
  "mtp_pool s = run_query (sel_pool (current_board s) (db s))"

definition preferred :: "string list \<Rightarrow> mtp_row \<Rightarrow> bool" where
  "preferred prefs q \<longleftrightarrow> string_of_int (snd (snd q)) \<in> set prefs"

definition boost :: "string list \<Rightarrow> mtp_row list \<Rightarrow> mtp_row list" where
  "boost prefs pool = concat (map (\<lambda>q. if preferred prefs q then [q, q, q] else [q]) pool)"

text \<open>The \<^verbatim>\<open>while\<close> loop of lines 370--376; \<open>c\<close> counts the calls of \<^verbatim>\<open>Math.random\<close>.\<close>

function mtp_loop :: "(nat \<Rightarrow> nat) \<Rightarrow> nat \<Rightarrow> int \<Rightarrow> mtp_row list \<Rightarrow> mtp_row list \<Rightarrow> js_error + mtp_row list" where
  "mtp_loop rnd c cnt picked avail =
     (if int (length picked) < cnt \<and> avail \<noteq> [] then
        (let idx = rand_index (rnd c) (length avail) in
         if idx < length avail then
           (let item = avail ! idx in
            mtp_loop rnd (Suc c) cnt
              (if find (\<lambda>p. fst p = fst item) picked = None then picked @ [item] else picked)
              (take idx avail @ drop (Suc idx) avail))
         else Inl TypeError)
      else Inr picked)"
  by pat_completeness auto
termination
  by (relation "measure (\<lambda>(rnd, c, cnt, picked, avail). length avail)") auto

declare mtp_loop.simps [simp del]

text \<open>The handler: no pool rows, and it returns before touching \<^verbatim>\<open>#generated\<close>;
  otherwise the picked rows replace the container's contents.\<close>

definition generateMTP :: "(nat \<Rightarrow> nat) \<Rightarrow> int \<Rightarrow> string list \<Rightarrow> app \<Rightarrow> app outcome" where
  "generateMTP rnd cnt prefs s =
     (let pool = mtp_pool s in
      if pool = [] then Done s
      else (case mtp_loop rnd 0 cnt [] (if prefs \<noteq> [] then boost prefs pool else pool) of
              Inl e \<Rightarrow> Threw e s
            | Inr picked \<Rightarrow> Done (s\<lparr>generated := picked\<rparr>)))"

text \<open>What a run of the loop from \<open>picked\<close> over \<open>avail\<close> returns: the picked rows
  followed by rows of \<open>avail\<close>, ids distinct, stopping at \<open>cnt\<close> rows or when every id
  of \<open>avail\<close> is taken.\<close>

definition loop_post :: "int \<Rightarrow> mtp_row list \<Rightarrow> mtp_row list \<Rightarrow> mtp_row list \<Rightarrow> bool" where
  "loop_post cnt picked avail res \<longleftrightarrow>
     (\<exists>new. res = picked @ new \<and> set new \<subseteq> set avail) \<and> distinct (map fst res) \<and>
     (cnt \<le> int (length picked) \<longrightarrow> res = picked) \<and>
     (int (length picked) < cnt \<longrightarrow> int (length res) \<le> cnt) \<and>
     (int (length res) < cnt \<longrightarrow> fst ` set avail \<subseteq> fst ` set res)"

subsection \<open>The random index\<close>

lemma rand_index_bound: "k < random_scale \<Longrightarrow> 0 < n \<Longrightarrow> rand_index k n < n"
proof -
  assume k: "k < random_scale" and n: "0 < n"
  have "k * n < random_scale * n" using k n by simp
  then show ?thesis by (simp add: rand_index_def less_mult_imp_div_less mult.commute)
qed

subsection \<open>The loop\<close>

lemma set_remove_nth:
  "i < length xs \<Longrightarrow> set xs = insert (xs ! i) (set (take i xs @ drop (Suc i) xs))"
  by (metis Un_insert_right append_Cons id_take_nth_drop set_append set_simps(2))

lemma set_remove_nth_subset: "set (take i xs @ drop (Suc i) xs) \<subseteq> set xs"
  by (auto dest: in_set_takeD in_set_dropD)

lemma find_None_ids: "find (\<lambda>p. fst p = a) xs = None \<longleftrightarrow> a \<notin> fst ` set xs"
  by (force simp: find_None_iff)

lemma mtp_loop_post:
  "(\<forall>i. rnd i < random_scale) \<Longrightarrow> distinct (map fst picked) \<Longrightarrow>
   \<exists>res. mtp_loop rnd c cnt picked avail = Inr res \<and> loop_post cnt picked avail res"
proof (induction rnd c cnt picked avail rule: mtp_loop.induct)
  case (1 rnd c cnt picked avail)
  show ?case
  proof (cases "int (length picked) < cnt \<and> avail \<noteq> []")
    case False
    with "1.prems"(2) show ?thesis
      by (auto simp: mtp_loop.simps [of rnd c cnt picked avail] loop_post_def)
  next
    case True
    define idx where "idx = rand_index (rnd c) (length avail)"
    define item where "item = avail ! idx"
    define picked' where "picked' = (if find (\<lambda>p. fst p = fst item) picked = None then picked @ [item] else picked)"
    define avail' where "avail' = take idx avail @ drop (Suc idx) avail"
    have idx: "idx < length avail"
      using True "1.prems"(1) rand_index_bound by (simp add: idx_def)
    have eq: "mtp_loop rnd c cnt picked avail = mtp_loop rnd (Suc c) cnt picked' avail'"
      using True idx by (simp add: mtp_loop.simps [of rnd c cnt picked avail] Let_def
                                   idx_def item_def picked'_def avail'_def)
    have dist': "distinct (map fst picked')"
      using "1.prems"(2) by (auto simp: picked'_def find_None_ids)
    obtain res where res: "mtp_loop rnd (Suc c) cnt picked' avail' = Inr res"
      and post: "loop_post cnt picked' avail' res"
      using "1.IH" [OF True idx_def idx item_def] "1.prems"(1) dist'
      unfolding picked'_def avail'_def by blast
    have set_avail: "set avail = insert item (set avail')"
      using idx by (simp add: item_def avail'_def set_remove_nth)
    have item_in: "fst item \<in> fst ` set picked'"
      by (auto simp: picked'_def find_None_ids)
    have grow: "length picked' \<le> Suc (length picked)" and pre: "\<exists>m. picked' = picked @ m \<and> set m \<subseteq> set avail"
      using set_avail by (auto simp: picked'_def)
    have "loop_post cnt picked avail res"
      unfolding loop_post_def
    proof (intro conjI impI)
      from post pre set_avail show "\<exists>new. res = picked @ new \<and> set new \<subseteq> set avail"
        by (auto simp: loop_post_def)
      from post show "distinct (map fst res)" by (simp add: loop_post_def)
      show "cnt \<le> int (length picked) \<Longrightarrow> res = picked" using True by simp
      show "int (length res) \<le> cnt"
      proof (cases "int (length picked') < cnt")
        case True
        with post show ?thesis by (simp add: loop_post_def)
      next
        case False
        with post have "res = picked'" by (simp add: loop_post_def)
        with grow True show ?thesis by simp
      qed
      assume short: "int (length res) < cnt"
      from post have "res = picked' \<or> int (length picked') < cnt"
        by (auto simp: loop_post_def)
      with post short have "fst ` set avail' \<subseteq> fst ` set res"
        by (auto simp: loop_post_def)
      moreover from post item_in have "fst item \<in> fst ` set res"
        by (auto simp: loop_post_def)
      ultimately show "fst ` set avail \<subseteq> fst ` set res"
        using set_avail by auto
    qed
    with eq res show ?thesis by simp
  qed
qed

subsection \<open>The pool\<close>

lemma boost_set [simp]: "set (boost prefs pool) = set pool"
  by (auto simp: boost_def)

lemma mtp_pool_distinct: "wf_app s \<Longrightarrow> distinct (map fst (mtp_pool s))"
proof -
  assume "wf_app s"
  then have "wf_table (questions (db s))" by (simp add: wf_app_def wf_db_def)
  then have "wf_table (tbl_select (\<lambda>_ q. q_board q = current_board s) (questions (db s)))"
    by blast
  with \<open>wf_table (questions (db s))\<close> show ?thesis
    by (auto simp: mtp_pool_def sel_pool_def need_def wf_table_distinct_ids comp_def case_prod_beta
             split: list.splits)
qed

lemma distinct_ids_length:
  "distinct (map fst xs) \<Longrightarrow> card (fst ` set xs) = length xs"
  by (metis distinct_card length_map set_map)

lemma distinct_ids_le:
  assumes "distinct (map fst xs)" "distinct (map fst ys)" "set xs \<subseteq> set ys"
  shows "length xs \<le> length ys"
  using card_mono [OF finite_imageI [OF finite_set] image_mono [OF assms(3), of fst]]
  by (simp add: distinct_ids_length [OF assms(1)] distinct_ids_length [OF assms(2)])

lemma mtp_loop_from_empty:
  assumes "\<forall>i. rnd i < random_scale"
  shows "\<exists>res. mtp_loop rnd 0 cnt [] avail = Inr res \<and> loop_post cnt [] avail res"
  using mtp_loop_post [OF assms] by simp

text \<open>Claim C3. With random draws in range and a non-empty pool from a well-formed
  database, the generator ends normally and shows a paper of distinct questions from the
  pool, as many as requested or the whole pool when it is smaller.\<close>

theorem generateMTP_paper:
  assumes rnd: "\<forall>i. rnd i < random_scale" and wf: "wf_app s" and ne: "mtp_pool s \<noteq> []"
  shows "\<exists>picked. generateMTP rnd cnt prefs s = Done (s\<lparr>generated := picked\<rparr>) \<and>
           distinct (map fst picked) \<and> set picked \<subseteq> set (mtp_pool s) \<and>
           length picked = min (nat cnt) (length (mtp_pool s))"
proof -
  let ?P = "mtp_pool s"
  let ?B = "if prefs \<noteq> [] then boost prefs ?P else ?P"
  have setB: "set ?B = set ?P" by simp
  obtain res where res: "mtp_loop rnd 0 cnt [] ?B = Inr res" and post: "loop_post cnt [] ?B res"
    using mtp_loop_from_empty [OF rnd] by blast
  have dres: "distinct (map fst res)" and sub: "set res \<subseteq> set ?P"
    using post setB by (auto simp: loop_post_def)
  have dP: "distinct (map fst ?P)" using mtp_pool_distinct [OF wf] .
  have le: "length res \<le> length ?P" by (rule distinct_ids_le [OF dres dP sub])
  have len: "length res = min (nat cnt) (length ?P)"
  proof (cases "int (length res) < cnt")
    case True
    with post setB have "fst ` set ?P \<subseteq> fst ` set res" by (simp add: loop_post_def)
    then have "length ?P \<le> length res"
      using card_mono [OF finite_imageI [OF finite_set]]
      by (metis distinct_ids_length [OF dres] distinct_ids_length [OF dP])
    with le True show ?thesis by simp
  next
    case False
    show ?thesis
    proof (cases "0 < cnt")
      case True
      with post have "int (length res) \<le> cnt" by (simp add: loop_post_def)
      with False le show ?thesis by simp
    next
      case False
      with post have "res = []" by (simp add: loop_post_def)
      with False show ?thesis by simp
    qed
  qed
  from ne res have "generateMTP rnd cnt prefs s = Done (s\<lparr>generated := res\<rparr>)"
    by (simp add: generateMTP_def Let_def)
  with dres sub len show ?thesis by blast
qed

text \<open>Asking for zero (or a negative number of) questions from a non-empty
  pool shows an empty paper, whatever the random source.\<close>

lemma generateMTP_zero:
  assumes "cnt \<le> 0" and "mtp_pool s \<noteq> []"
  shows "generateMTP rnd cnt prefs s = Done (s\<lparr>generated := []\<rparr>)"
  using assms by (simp add: generateMTP_def Let_def mtp_loop.simps)

text \<open>Claim C16. With no question in the pool (none stored, none on the selected board,
  or the questions table missing) the generator returns before it clears the
  \<^verbatim>\<open>#generated\<close> container: the page keeps showing the previous paper.\<close>

theorem generateMTP_empty_pool_stale:
  assumes "mtp_pool s = []"
  shows "generateMTP rnd cnt prefs s = Done s"
  using assms by (simp add: generateMTP_def)

text \<open>Claim C10. Boosting puts every preferred question three times into the sampling
  pool and every other question once.\<close>

theorem boost_count:
  "count (mset (boost prefs pool)) q = (if preferred prefs q then 3 else 1) * count (mset pool) q"
  by (induction pool) (auto simp: boost_def)

text \<open>Asking for at least as many questions as the pool holds shows exactly
  the questions of the pool, each once.\<close>

lemma generateMTP_full_pool:
  assumes "\<forall>i. rnd i < random_scale" and "wf_app s" and "mtp_pool s \<noteq> []"
    and "length (mtp_pool s) \<le> nat cnt"
  shows "\<exists>picked. generateMTP rnd cnt prefs s = Done (s\<lparr>generated := picked\<rparr>) \<and>
           set picked = set (mtp_pool s) \<and> distinct (map fst picked)"
proof -
  obtain picked where gen: "generateMTP rnd cnt prefs s = Done (s\<lparr>generated := picked\<rparr>)"
    and d: "distinct (map fst picked)" and sub: "set picked \<subseteq> set (mtp_pool s)"
    and len: "length picked = min (nat cnt) (length (mtp_pool s))"
    using generateMTP_paper [OF assms(1-3)] by blast
  have "card (set picked) = card (set (mtp_pool s))"
    using len assms(4) distinct_map [of fst picked] d mtp_pool_distinct [OF assms(2)]
    by (simp add: distinct_card distinct_map)
  then have "set picked = set (mtp_pool s)"
    using sub by (simp add: card_subset_eq)
  with gen d show ?thesis by blast
qed

lemma length_boost: "length (boost prefs pool) = length pool + 2 * length (filter (preferred prefs) pool)"
  by (induction pool) (auto simp: boost_def)

lemma count_ids_boost:
  "distinct (map fst pool) \<Longrightarrow> q \<in> set pool \<Longrightarrow>
   count (mset (map fst (boost prefs pool))) (fst q) = (if preferred prefs q then 3 else 1)"
proof (induction pool)
  case Nil
  then show ?case by simp
next
  case (Cons r pool)
  show ?case
  proof (cases "r = q")
    case True
    with Cons.prems have "fst q \<notin> fst ` set pool" by auto
    then have "count (mset (map fst (boost prefs pool))) (fst q) = 0"
      by (auto simp: count_eq_zero_iff boost_def)
    with True show ?thesis by (simp add: boost_def)
  next
    case False
    with Cons.prems have "fst r \<noteq> fst q" by auto
    with False Cons show ?thesis by (simp add: boost_def)
  qed
qed

text \<open>Claim C11. A preferred question takes three of the sampling pool's slots, so
  when some question of the pool is not preferred its chance \<open>3 / length B\<close> to be the
  first pick exceeds the uniform chance \<open>1 / length pool\<close>.\<close>

theorem boost_first_draw_bias:
  assumes "distinct (map fst pool)" and "q \<in> set pool" and "preferred prefs q"
    and "\<exists>r \<in> set pool. \<not> preferred prefs r"
  shows "length (boost prefs pool) < length pool * count (mset (map fst (boost prefs pool))) (fst q)"
proof -
  from assms(4) have "length (filter (preferred prefs) pool) < length pool"
    by (metis filter_True length_filter_less)
  then show ?thesis
    using count_ids_boost [OF assms(1,2), of prefs] assms(3) by (simp add: length_boost)
qed

text \<open>Claim C4. With every draw of \<^verbatim>\<open>Math.random\<close> below 1, the sampling loop
  ends and ends normally: every index is inside the non-empty available list, so no
  \<^verbatim>\<open>splice\<close> comes back empty and no TypeError is thrown.\<close>

theorem mtp_loop_total:
  assumes "\<forall>i. rnd i < random_scale"
  shows "\<exists>res. mtp_loop rnd c cnt picked avail = Inr res"
  using assms
proof (induction rnd c cnt picked avail rule: mtp_loop.induct)
  case (1 rnd c cnt picked avail)
  show ?case
  proof (cases "int (length picked) < cnt \<and> avail \<noteq> []")
    case True
    then have "rand_index (rnd c) (length avail) < length avail"
      using "1.prems" rand_index_bound by simp
    with True "1.IH" [OF True refl this refl "1.prems"] show ?thesis
      by (simp add: mtp_loop.simps [of rnd c cnt picked avail] Let_def)
  next
    case False
    then show ?thesis by (simp add: mtp_loop.simps [of rnd c cnt picked avail])
  qed
qed

theorem mtp_loop_total_witness:
  "(\<forall>i. (\<lambda>_. 0::nat) i < random_scale) \<and>
   (\<exists>res. mtp_loop (\<lambda>_. 0) 0 2 [] [(1, ''a'', 3), (2, ''b'', 5)] = Inr res)"
proof -
  have r: "\<forall>i. (\<lambda>_. 0::nat) i < random_scale" by (simp add: random_scale_def)
  show ?thesis using r mtp_loop_total [OF r] by blast
qed

lemma generateMTP_db: "db (result (generateMTP rnd c prefs s)) = db s"
  by (auto simp: generateMTP_def Let_def split: sum.splits)

subsection \<open>Witnesses\<close>

lemma ex_app_pool: "mtp_pool ex_app = [(1, ''Define velocity.'', 3), (2, ''Define velocity.'', 3)]"
  by (simp add: mtp_pool_def sel_pool_def ex_simps)

lemma ex_app_wf: "wf_app ex_app"
  by (simp add: wf_app_def ex_app_def init_app_def ex_db_wf)

lemma zero_draws: "\<forall>i. (\<lambda>_. 0::nat) i < random_scale"
  by (simp add: random_scale_def)

theorem generateMTP_paper_witness:
  "\<exists>picked. generateMTP (\<lambda>_. 0) 1 [''3''] ex_app = Done (ex_app\<lparr>generated := picked\<rparr>) \<and>
     distinct (map fst picked) \<and> set picked \<subseteq> set (mtp_pool ex_app) \<and>
     length picked = min (nat 1) (length (mtp_pool ex_app))"
  using generateMTP_paper [OF zero_draws ex_app_wf, where cnt = 1 and prefs = "[''3'']"] ex_app_pool
  by simp

lemma generateMTP_full_pool_example:
  "\<exists>picked. generateMTP (\<lambda>_. 0) 5 [] ex_app = Done (ex_app\<lparr>generated := picked\<rparr>) \<and>
     set picked = set (mtp_pool ex_app) \<and> distinct (map fst picked)"
  using generateMTP_full_pool [OF zero_draws ex_app_wf, where cnt = 5 and prefs = "[]"] ex_app_pool
  by simp

lemma generateMTP_zero_example:
  "(0::int) \<le> 0 \<and> mtp_pool ex_app \<noteq> [] \<and>
   generateMTP (\<lambda>_. 0) 0 [] ex_app = Done (ex_app\<lparr>generated := []\<rparr>)"
  using generateMTP_zero [of 0 ex_app] ex_app_pool by simp

theorem generateMTP_empty_pool_stale_witness:
  "mtp_pool (ex_app\<lparr>current_board := Some 7\<rparr>) = [] \<and>
   generateMTP (\<lambda>_. 0) 10 [] (ex_app\<lparr>current_board := Some 7\<rparr>) = Done (ex_app\<lparr>current_board := Some 7\<rparr>)"
proof -
  have "mtp_pool (ex_app\<lparr>current_board := Some 7\<rparr>) = []"
    by (simp add: mtp_pool_def sel_pool_def ex_simps tbl_select_def)
  with generateMTP_empty_pool_stale [OF this] show ?thesis by simp
qed

theorem boost_first_draw_bias_witness:
  "length (boost [''5''] [(1, ''a'', 5), (2, ''b'', 3)]) <
   length [(1::int, ''a'', 5::int), (2, ''b'', 3)] * count (mset (map fst (boost [''5''] [(1, ''a'', 5), (2, ''b'', 3)]))) 1"
proof -
  have p: "preferred [''5''] (1, ''a'', 5)" and np: "\<not> preferred [''5''] (2, ''b'', 3)"
    by (simp_all add: preferred_def string_of_int_def digits_of_nat.simps)
  show ?thesis
    using boost_first_draw_bias [of "[(1, ''a'', 5), (2, ''b'', 3)]" "(1, ''a'', 5)" "[''5'']"] p np by simp
qed

subsection \<open>Every question can be drawn\<close>

lemma ceil_index:
  assumes n: "0 < n" "n \<le> random_scale" and i: "i < n"
  shows "(i * random_scale + n - 1) div n < random_scale \<and>
         rand_index ((i * random_scale + n - 1) div n) n = i"
proof -
  let ?a = "i * random_scale + n - 1" let ?k = "?a div n"
  have up: "?k * n \<le> ?a" by (rule div_times_less_eq_dividend)
  have lo: "i * random_scale \<le> ?k * n"
  proof -
    have "?a < ?k * n + n" using n(1) by (metis add.commute mod_less_divisor div_mult_mod_eq add_less_cancel_left)
    then show ?thesis using n(1) by linarith
  qed
  have "?a < n * random_scale"
  proof -
    have "i * random_scale \<le> (n - 1) * random_scale" using i by (intro mult_le_mono1) arith
    moreover have "(n - 1) * random_scale = n * random_scale - random_scale" by (simp add: diff_mult_distrib)
    moreover have "random_scale \<le> n * random_scale" using n by simp
    ultimately show ?thesis using n by linarith
  qed
  with up have "?k * n < n * random_scale" by linarith
  then have "?k * n < random_scale * n" by (metis mult.commute)
  then have "?k < random_scale" by (simp only: mult_less_cancel2)
  moreover have "?k * n div random_scale = i"
  proof (rule div_nat_eqI)
    show "random_scale * i \<le> ?k * n" using lo by (simp add: mult.commute)
    have "?a < random_scale * Suc i" using n by (simp add: mult.commute)
    then show "?k * n < random_scale * Suc i" using up by linarith
  qed
  ultimately show ?thesis by (simp add: rand_index_def)
qed

lemma mtp_loop_first_pick:
  assumes "i < length B" and "1 \<le> cnt" and "rand_index (rnd 0) (length B) = i"
  shows "mtp_loop rnd 0 cnt [] B = mtp_loop rnd 1 cnt [B ! i] (take i B @ drop (Suc i) B)"
proof -
  have "B \<noteq> []" using assms(1) by auto
  then show ?thesis using assms by (simp add: mtp_loop.simps [of rnd 0])
qed

text \<open>Claim C29. No question of the pool is starved: for every pool question there is a
  run of \<^verbatim>\<open>Math.random\<close> (all draws below 1) on which a paper of at least one
  question shows it, as long as the sampling pool has at most 2^53 entries.\<close>

theorem generateMTP_can_pick:
  assumes q: "q \<in> set (mtp_pool s)" and c: "1 \<le> cnt"
    and len: "length (if prefs \<noteq> [] then boost prefs (mtp_pool s) else mtp_pool s) \<le> random_scale"
  shows "\<exists>rnd picked. (\<forall>i. rnd i < random_scale) \<and>
           generateMTP rnd cnt prefs s = Done (s\<lparr>generated := picked\<rparr>) \<and> q \<in> set picked"
proof -
  let ?B = "if prefs \<noteq> [] then boost prefs (mtp_pool s) else mtp_pool s"
  have "q \<in> set ?B" using q by simp
  then obtain i where i: "i < length ?B" "?B ! i = q" by (auto simp: in_set_conv_nth)
  have n: "0 < length ?B" by (rule le_less_trans [OF le0 i(1)])
  define k where "k = (i * random_scale + length ?B - 1) div length ?B"
  from ceil_index [OF n len i(1)] have k: "k < random_scale" "rand_index k (length ?B) = i"
    by (simp_all add: k_def)
  define rnd :: "nat \<Rightarrow> nat" where "rnd = (\<lambda>c. if c = 0 then k else 0)"
  have r: "\<forall>c. rnd c < random_scale" using k by (simp add: rnd_def random_scale_def)
  obtain res where res: "mtp_loop rnd 1 cnt [q] (take i ?B @ drop (Suc i) ?B) = Inr res"
    and lp: "loop_post cnt [q] (take i ?B @ drop (Suc i) ?B) res"
    using mtp_loop_post [OF r, of "[q]" 1 cnt] by auto
  have "rand_index (rnd 0) (length ?B) = i" using k by (simp add: rnd_def)
  from mtp_loop_first_pick [where B = ?B and rnd = rnd, OF i(1) c this] i(2)
  have "mtp_loop rnd 0 cnt [] ?B = mtp_loop rnd 1 cnt [q] (take i ?B @ drop (Suc i) ?B)" by simp
  then have loop: "mtp_loop rnd 0 cnt [] ?B = Inr res" using res by simp
  have "q \<in> set res" using lp by (auto simp: loop_post_def)
  moreover have "mtp_pool s \<noteq> []" using q by auto
  ultimately show ?thesis using r loop
    by (intro exI [of _ rnd] exI [of _ res]) (simp add: generateMTP_def Let_def)
qed

theorem generateMTP_can_pick_witness:
  "\<exists>rnd picked. (\<forall>i. rnd i < random_scale) \<and>
     generateMTP rnd 1 [] ex_app = Done (ex_app\<lparr>generated := picked\<rparr>) \<and>
     (2, ''Define velocity.'', 3) \<in> set picked"
proof -
  have h: "(2, ''Define velocity.'', 3) \<in> set (mtp_pool ex_app)" "(1::int) \<le> 1"
    "length (if [] \<noteq> [] then boost [] (mtp_pool ex_app) else mtp_pool ex_app) \<le> random_scale"
    by (simp_all add: ex_app_pool random_scale_def)
  show ?thesis using generateMTP_can_pick [OF h] .
qed

end
