(* ===== verification/QuickAdd.thy ===== *)
theory QuickAdd
  imports App JS_String
begin

text \<open>
  Quick-add, \<^verbatim>\<open>addQuickQuestions\<close> (\<^verbatim>\<open>src/app/index.js\<close> lines 213--241): the
  textarea is split into trimmed non-empty lines; each line is split at \<^verbatim>\<open>|\<close> into
  trimmed fields \<^verbatim>\<open>marks|subject|chapter|year|text\<close> with JavaScript's fallbacks, its
  subject and chapter are found or created under the selected board, and one question
  row is inserted. The statements run one after the other on the live database; the
  state is saved once, after the last line. The lemmas also show that quick-add keeps
  the catalogue consistent: names stay unique per board and per subject, and every
  question's subject and chapter belong to its board and subject.
\<close>

record qa_line =
  ql_marks :: int
  ql_subject :: string
  ql_chapter :: string
  ql_year :: "int option"
  ql_text :: string

text \<open>\<^verbatim>\<open>parts[i]\<close>: \<^verbatim>\<open>undefined\<close> past the end.\<close>

definition part :: "string list \<Rightarrow> nat \<Rightarrow> string option" where
  "part ps i = (if i < length ps then Some (ps ! i) else None)"

text \<open>\<^verbatim>\<open>parseInt(x)\<close> of an array element: \<^verbatim>\<open>undefined\<close> is converted to the string
  \<^verbatim>\<open>"undefined"\<close> first.\<close>

definition parse_int_part :: "string option \<Rightarrow> int option" where
  "parse_int_part x = parse_int (case x of None \<Rightarrow> ''undefined'' | Some s \<Rightarrow> s)"

text \<open>Lines 217--222.\<close>

definition parse_line :: "string \<Rightarrow> qa_line" where
  "parse_line line =
     (let parts = map trim (split_on CHR ''|'' line) in
      \<lparr>ql_marks = js_or_int (parse_int_part (part parts 0)) 3,
       ql_subject = js_or_str (part parts 1) ''General'',
       ql_chapter = js_or_str (part parts 2) ''General'',
       ql_year = js_or_null (parse_int_part (part parts 3)),
       ql_text = js_or_str (Some (join '' | '' (drop 4 parts)))
                   (js_or_str (Some (last parts)) line)\<rparr>)"

text \<open>Line 214: \<^verbatim>\<open>text.split('\n').map(l=>l.trim()).filter(Boolean)\<close>.\<close>

definition quick_lines :: "string \<Rightarrow> string list" where
  "quick_lines text = filter (\<lambda>l. l \<noteq> []) (map trim (split_on (CHR 0x0A) text))"

text \<open>Lines 224--229 and 230--235: find the subject (chapter) by parent and name, the
  first row in rowid order, or insert it and read \<^verbatim>\<open>last_insert_rowid()\<close>. The branch
  is taken only for a truthy parent id.\<close>

definition resolve_subject :: "int option \<Rightarrow> string \<Rightarrow> app \<Rightarrow> (js_error \<times> app) + (int option \<times> app)" where
  "resolve_subject boardId name s =
     (case js_or_null boardId of
        None \<Rightarrow> Inr (None, s)
      | Some b \<Rightarrow>
          (case run_query (sel_subject_id b name (db s)) of
             i # _ \<Rightarrow> Inr (Some i, s)
           | [] \<Rightarrow> map_sum id (\<lambda>(i, s'). (Some i, s')) (stmt (ins_subject b name) s)))"

definition resolve_chapter :: "int option \<Rightarrow> string \<Rightarrow> app \<Rightarrow> (js_error \<times> app) + (int option \<times> app)" where
  "resolve_chapter subjectId name s =
     (case js_or_null subjectId of
        None \<Rightarrow> Inr (None, s)
      | Some sid \<Rightarrow>
          (case run_query (sel_chapter_id sid name (db s)) of
             i # _ \<Rightarrow> Inr (Some i, s)
           | [] \<Rightarrow> map_sum id (\<lambda>(i, s'). (Some i, s')) (stmt (ins_chapter sid name) s)))"

text \<open>The row of the \<^verbatim>\<open>INSERT INTO questions\<close> of line 236.\<close>

definition question_of :: "int option \<Rightarrow> int option \<Rightarrow> int option \<Rightarrow> qa_line \<Rightarrow> question_row" where
  "question_of boardId subjectId chapterId l =
     \<lparr>q_board = boardId, q_subject = subjectId, q_chapter = chapterId,
      q_marks = ql_marks l, q_year = ql_year l, q_text = ql_text l, q_tags = None\<rparr>"

text \<open>One iteration of the loop (lines 216--236).\<close>

definition add_line :: "string \<Rightarrow> app \<Rightarrow> (js_error \<times> app) + app" where
  "add_line line s =
     (let l = parse_line line; boardId = js_or_null (current_board s) in
      case resolve_subject boardId (ql_subject l) s of
        Inl err \<Rightarrow> Inl err
      | Inr (subjectId, s1) \<Rightarrow>
          (case resolve_chapter subjectId (ql_chapter l) s1 of
             Inl err \<Rightarrow> Inl err
           | Inr (chapterId, s2) \<Rightarrow>
               map_sum id snd (stmt (ins_question (question_of boardId subjectId chapterId l)) s2)))"

fun add_lines :: "string list \<Rightarrow> app \<Rightarrow> (js_error \<times> app) + app" where
  "add_lines [] s = Inr s"
| "add_lines (l # ls) s = (case add_line l s of Inl err \<Rightarrow> Inl err | Inr s' \<Rightarrow> add_lines ls s')"

definition addQuickQuestions :: "string \<Rightarrow> app \<Rightarrow> app outcome" where
  "addQuickQuestions text s = finish (add_lines (quick_lines text) s)"

text \<open>A database property every statement of quick-add keeps.\<close>

definition quick_keeps :: "(db \<Rightarrow> bool) \<Rightarrow> bool" where
  "quick_keeps P \<longleftrightarrow> (\<forall>b n. stmt_keeps P (ins_subject b n)) \<and> (\<forall>c n. stmt_keeps P (ins_chapter c n)) \<and>
     (\<forall>r. stmt_keeps P (ins_question r))"

text \<open>Example: a page whose saved database predates the \<^verbatim>\<open>questions\<close> table.\<close>

definition ex_legacy_db :: db where
  "ex_legacy_db = ex_db\<lparr>schema := all_tables - {Questions}\<rparr>"

definition ex_legacy_app :: app where
  "ex_legacy_app = (init_app (Some ex_legacy_db))\<lparr>current_board := Some 1\<rparr>"

abbreviation same_subject :: "int \<Rightarrow> string \<Rightarrow> rowid \<Rightarrow> subject_row \<Rightarrow> bool" where
  "same_subject b n \<equiv> \<lambda>_ r. s_board r = b \<and> s_name r = n"

abbreviation same_chapter :: "int \<Rightarrow> string \<Rightarrow> rowid \<Rightarrow> chapter_row \<Rightarrow> bool" where
  "same_chapter sid n \<equiv> \<lambda>_ r. c_subject r = sid \<and> c_name r = n"

abbreviation ex_line :: string where
  "ex_line \<equiv> ''5|Physics|Motion|2021|What is velocity?''"

subsection \<open>The catalogue\<close>

text \<open>Quick-add files questions under subjects and chapters it finds or creates by name
  (lines 224--235). No two subjects of a board, and no two chapters of a subject, share
  a name.\<close>

definition names_unique :: "db \<Rightarrow> bool" where
  "names_unique d \<longleftrightarrow> (\<forall>b n. tbl_count (same_subject b n) (subjects d) \<le> 1) \<and>
                      (\<forall>c n. tbl_count (same_chapter c n) (chapters d) \<le> 1)"

text \<open>A question row's subject is a subject of the row's board, and its chapter a chapter
  of the row's subject.\<close>

definition row_linked :: "db \<Rightarrow> question_row \<Rightarrow> bool" where
  "row_linked d q \<longleftrightarrow>
     (\<forall>i. q_subject q = Some i \<longrightarrow> (\<exists>r. (i, r) \<in> set (subjects d) \<and> q_board q = Some (s_board r))) \<and>
     (\<forall>j. q_chapter q = Some j \<longrightarrow> (\<exists>r. (j, r) \<in> set (chapters d) \<and> q_subject q = Some (c_subject r)))"

definition questions_linked :: "db \<Rightarrow> bool" where
  "questions_linked d \<longleftrightarrow> (\<forall>(k, q) \<in> set (questions d). row_linked d q)"

subsection \<open>Parsing\<close>

lemma parse_line_spec_example:
  "parse_line ''5|Physics|Motion|2021|What is velocity?'' =
     \<lparr>ql_marks = 5, ql_subject = ''Physics'', ql_chapter = ''Motion'', ql_year = Some 2021,
      ql_text = ''What is velocity?''\<rparr>"
  by (simp add: parse_line_def part_def parse_int_part_def parse_int_def parse_sign_def
                parse_radix_def trim_def js_ws_def dec_digit_def digits_value_def)

lemma parse_line_fallback:
  "parse_line ''abc|  |  | |Just text'' =
     \<lparr>ql_marks = 3, ql_subject = ''General'', ql_chapter = ''General'', ql_year = None,
      ql_text = ''Just text''\<rparr>"
  by (simp add: parse_line_def part_def parse_int_part_def parse_int_def parse_sign_def
                parse_radix_def trim_def js_ws_def dec_digit_def digits_value_def)

lemma parse_line_pipes:
  "ql_text (parse_line ''2|Maths|Sets|2020|A|B'') = ''A | B''"
  by (simp add: parse_line_def part_def trim_def js_ws_def)

lemma parse_line_zero:
  "ql_marks (parse_line ''0|Maths|Sets|0|Q'') = 3 \<and> ql_year (parse_line ''0|Maths|Sets|0|Q'') = None"
  by (simp add: parse_line_def part_def parse_int_part_def parse_int_def parse_sign_def
                parse_radix_def trim_def js_ws_def dec_digit_def digits_value_def js_or_null_def)

lemma parse_line_short:
  "parse_line ''5|Physics'' =
     \<lparr>ql_marks = 5, ql_subject = ''Physics'', ql_chapter = ''General'', ql_year = None,
      ql_text = ''Physics''\<rparr>"
  by (simp add: parse_line_def part_def parse_int_part_def parse_int_def parse_sign_def
                parse_radix_def trim_def js_ws_def dec_digit_def digits_value_def)

subsection \<open>Find or create\<close>

lemma subject_row_self [simp]: "\<lparr>s_board = s_board r, s_name = s_name r\<rparr> = r"
  by (cases r) simp

lemma chapter_row_self [simp]: "\<lparr>c_subject = c_subject r, c_name = c_name r\<rparr> = r"
  by (cases r) simp

lemma run_query_sel_subject:
  assumes "run_query (sel_subject_id b n d) = i # is"
  shows "(i, \<lparr>s_board = b, s_name = n\<rparr>) \<in> set (subjects d)"
proof -
  obtain r zs where "tbl_select (same_subject b n) (subjects d) = (i, r) # zs"
    using assms by (cases "Subjects \<in> schema d") (auto simp: sel_subject_id_def need_single)
  from filter_eq_ConsD [OF this [unfolded tbl_select_def]]
  have "(i, r) \<in> set (subjects d)" and "s_board r = b \<and> s_name r = n" by auto
  then show ?thesis by auto
qed

lemma run_query_sel_chapter:
  assumes "run_query (sel_chapter_id sid n d) = i # is"
  shows "(i, \<lparr>c_subject = sid, c_name = n\<rparr>) \<in> set (chapters d)"
proof -
  obtain r zs where "tbl_select (same_chapter sid n) (chapters d) = (i, r) # zs"
    using assms by (cases "Chapters \<in> schema d") (auto simp: sel_chapter_id_def need_single)
  from filter_eq_ConsD [OF this [unfolded tbl_select_def]]
  have "(i, r) \<in> set (chapters d)" and "c_subject r = sid \<and> c_name r = n" by auto
  then show ?thesis by auto
qed

lemma resolve_subject_spec:
  assumes "resolve_subject (Some b) n s = Inr (sid, s')" and "b \<noteq> 0"
  shows "\<exists>i t. sid = Some i \<and> s' = s\<lparr>db := (db s)\<lparr>subjects := t\<rparr>\<rparr> \<and> (i, \<lparr>s_board = b, s_name = n\<rparr>) \<in> set t \<and>
             tbl_count (same_subject b n) t = max 1 (tbl_count (same_subject b n) (subjects (db s))) \<and>
             (wf_table (subjects (db s)) \<longrightarrow> wf_table t \<and> 0 < i)"
proof (cases "run_query (sel_subject_id b n (db s))")
  case (Cons i rest)
  with assms have eq: "sid = Some i" "s' = s"
    by (auto simp: resolve_subject_def)
  from run_query_sel_subject [OF Cons] have mem: "(i, \<lparr>s_board = b, s_name = n\<rparr>) \<in> set (subjects (db s))" .
  then have "0 < tbl_count (same_subject b n) (subjects (db s))"
    by (rule tbl_count_pos) simp
  with mem eq show ?thesis
    by (intro exI [of _ i] exI [of _ "subjects (db s)"]) (auto dest: wf_table_pos)
next
  case Nil
  with assms have sch: "Subjects \<in> schema (db s)"
    and s': "s' = s\<lparr>db := (db s)\<lparr>subjects := fst (tbl_insert \<lparr>s_board = b, s_name = n\<rparr> (subjects (db s)))\<rparr>\<rparr>"
    and sid: "sid = Some (next_rowid (subjects (db s)))"
    by (auto simp: resolve_subject_def stmt_def ins_subject_def need_single tbl_insert_def Let_def
             split: if_splits)
  from Nil sch have "tbl_count (same_subject b n) (subjects (db s)) = 0"
    by (simp add: sel_subject_id_def need_single tbl_count_def)
  with s' sid wf_table_snoc_next [of "subjects (db s)" "\<lparr>s_board = b, s_name = n\<rparr>"] show ?thesis
    by (auto simp: tbl_count_def tbl_select_def)
qed

lemma resolve_chapter_spec:
  assumes "resolve_chapter (Some b) n s = Inr (sid, s')" and "b \<noteq> 0"
  shows "\<exists>i t. sid = Some i \<and> s' = s\<lparr>db := (db s)\<lparr>chapters := t\<rparr>\<rparr> \<and> (i, \<lparr>c_subject = b, c_name = n\<rparr>) \<in> set t \<and>
             tbl_count (same_chapter b n) t = max 1 (tbl_count (same_chapter b n) (chapters (db s))) \<and>
             (wf_table (chapters (db s)) \<longrightarrow> wf_table t \<and> 0 < i)"
proof (cases "run_query (sel_chapter_id b n (db s))")
  case (Cons i rest)
  with assms have eq: "sid = Some i" "s' = s"
    by (auto simp: resolve_chapter_def)
  from run_query_sel_chapter [OF Cons] have mem: "(i, \<lparr>c_subject = b, c_name = n\<rparr>) \<in> set (chapters (db s))" .
  then have "0 < tbl_count (same_chapter b n) (chapters (db s))"
    by (rule tbl_count_pos) simp
  with mem eq show ?thesis
    by (intro exI [of _ i] exI [of _ "chapters (db s)"]) (auto dest: wf_table_pos)
next
  case Nil
  with assms have sch: "Chapters \<in> schema (db s)"
    and s': "s' = s\<lparr>db := (db s)\<lparr>chapters := fst (tbl_insert \<lparr>c_subject = b, c_name = n\<rparr> (chapters (db s)))\<rparr>\<rparr>"
    and sid: "sid = Some (next_rowid (chapters (db s)))"
    by (auto simp: resolve_chapter_def stmt_def ins_chapter_def need_single tbl_insert_def Let_def
             split: if_splits)
  from Nil sch have "tbl_count (same_chapter b n) (chapters (db s)) = 0"
    by (simp add: sel_chapter_id_def need_single tbl_count_def)
  with s' sid wf_table_snoc_next [of "chapters (db s)" "\<lparr>c_subject = b, c_name = n\<rparr>"] show ?thesis
    by (auto simp: tbl_count_def tbl_select_def)
qed

lemma resolve_subject_ok: "Subjects \<in> schema (db s) \<Longrightarrow> \<exists>r. resolve_subject bo n s = Inr r"
  by (auto simp: resolve_subject_def stmt_def ins_subject_def need_single
           split: option.splits list.splits prod.splits)

lemma resolve_chapter_ok: "Chapters \<in> schema (db s) \<Longrightarrow> \<exists>r. resolve_chapter so n s = Inr r"
  by (auto simp: resolve_chapter_def stmt_def ins_chapter_def need_single
           split: option.splits list.splits prod.splits)

lemma resolve_subject_None: "js_or_null bo = None \<Longrightarrow> resolve_subject bo n s = Inr (None, s)"
  by (simp add: resolve_subject_def)

lemma resolve_chapter_None: "js_or_null so = None \<Longrightarrow> resolve_chapter so n s = Inr (None, s)"
  by (simp add: resolve_chapter_def)

lemma ins_question_stmt:
  "Questions \<in> schema (db s) \<Longrightarrow>
   map_sum id snd (stmt (ins_question q) s) =
     Inr (s\<lparr>db := (db s)\<lparr>questions := questions (db s) @ [(next_rowid (questions (db s)), q)]\<rparr>\<rparr>)"
  by (simp add: stmt_def ins_question_def need_single tbl_insert_def Let_def)

subsection \<open>One line\<close>

text \<open>With a board selected, a line finds or creates its subject and chapter under it
  and appends one question row that refers to both.\<close>

lemma add_line_board:
  fixes line :: string
  assumes sch: "all_tables \<subseteq> schema (db s)" and wf: "wf_db (db s)"
    and b: "js_or_null (current_board s) = Some b"
  defines "l \<equiv> parse_line line"
  shows "\<exists>sid cid s'. add_line line s = Inr s' \<and>
     (sid, \<lparr>s_board = b, s_name = ql_subject l\<rparr>) \<in> set (subjects (db s')) \<and>
     (cid, \<lparr>c_subject = sid, c_name = ql_chapter l\<rparr>) \<in> set (chapters (db s')) \<and>
     questions (db s') = questions (db s) @
       [(next_rowid (questions (db s)), question_of (Some b) (Some sid) (Some cid) l)] \<and>
     tbl_count (same_subject b (ql_subject l)) (subjects (db s')) =
       max 1 (tbl_count (same_subject b (ql_subject l)) (subjects (db s))) \<and>
     wf_db (db s') \<and> schema (db s') = schema (db s) \<and> s' = s\<lparr>db := db s'\<rparr>"
proof -
  have b0: "b \<noteq> 0" using b by simp
  obtain sid s1 where r1: "resolve_subject (Some b) (ql_subject l) s = Inr (sid, s1)"
    using resolve_subject_ok [of s "Some b" "ql_subject l"] sch by auto
  from resolve_subject_spec [OF r1 b0] wf obtain i t1 where i: "sid = Some i"
    and s1: "s1 = s\<lparr>db := (db s)\<lparr>subjects := t1\<rparr>\<rparr>"
    and mem1: "(i, \<lparr>s_board = b, s_name = ql_subject l\<rparr>) \<in> set t1"
    and wf1: "wf_table t1" and i0: "0 < i"
    and cnt1: "tbl_count (same_subject b (ql_subject l)) t1 =
                 max 1 (tbl_count (same_subject b (ql_subject l)) (subjects (db s)))"
    by (auto simp: wf_db_def)
  have sch1: "Chapters \<in> schema (db s1)" using sch s1 by simp
  obtain cid s2 where r2: "resolve_chapter (Some i) (ql_chapter l) s1 = Inr (cid, s2)"
    using resolve_chapter_ok [OF sch1, of "Some i" "ql_chapter l"] by auto
  from resolve_chapter_spec [OF r2] i0 wf s1 obtain j t2 where j: "cid = Some j"
    and s2: "s2 = s1\<lparr>db := (db s1)\<lparr>chapters := t2\<rparr>\<rparr>"
    and mem2: "(j, \<lparr>c_subject = i, c_name = ql_chapter l\<rparr>) \<in> set t2"
    and wf2: "wf_table t2"
    by (auto simp: wf_db_def)
  have sch2: "Questions \<in> schema (db s2)" using sch s1 s2 by simp
  let ?s' = "s2\<lparr>db := (db s2)\<lparr>questions := questions (db s2) @
               [(next_rowid (questions (db s2)), question_of (Some b) (Some i) (Some j) l)]\<rparr>\<rparr>"
  have run: "add_line line s = Inr ?s'"
    using r1 r2 i j b ins_question_stmt [OF sch2] by (simp add: add_line_def l_def [symmetric] Let_def)
  have "wf_db (db ?s')"
    using wf wf1 wf2 s1 s2 wf_table_snoc_next [of "questions (db s)"] by (simp add: wf_db_def)
  with run mem1 mem2 i j s1 s2 cnt1 show ?thesis by auto
qed

text \<open>With no board selected, the subject and chapter fields of the line are ignored: no
  lookup, no insert, and the question row has neither.\<close>

lemma add_line_no_board:
  assumes "Questions \<in> schema (db s)" and "js_or_null (current_board s) = None"
  shows "add_line line s = Inr (s\<lparr>db := (db s)\<lparr>questions := questions (db s) @
           [(next_rowid (questions (db s)), question_of None None None (parse_line line))]\<rparr>\<rparr>)"
  using assms ins_question_stmt [OF assms(1)]
  by (simp add: add_line_def Let_def resolve_subject_None resolve_chapter_None)

lemma add_lines_no_board:
  assumes "Questions \<in> schema (db s)" and "js_or_null (current_board s) = None"
  shows "\<exists>s'. add_lines ls s = Inr s' \<and> subjects (db s') = subjects (db s) \<and>
           chapters (db s') = chapters (db s) \<and> schema (db s') = schema (db s) \<and>
           map snd (questions (db s')) =
             map snd (questions (db s)) @ map (\<lambda>x. question_of None None None (parse_line x)) ls"
  using assms
proof (induction ls arbitrary: s)
  case Nil
  then show ?case by simp
next
  case (Cons x ls)
  let ?s1 = "s\<lparr>db := (db s)\<lparr>questions := questions (db s) @
           [(next_rowid (questions (db s)), question_of None None None (parse_line x))]\<rparr>\<rparr>"
  from Cons.prems have "Questions \<in> schema (db ?s1)" and "js_or_null (current_board ?s1) = None"
    by simp_all
  from Cons.IH [OF this] add_line_no_board [OF Cons.prems, of x] show ?case by auto
qed

subsection \<open>Properties kept by quick-add\<close>

lemma resolve_subject_keeps:
  assumes "quick_keeps P" and "P (db s)"
  shows "resolve_subject bo n s = Inl (e, s') \<Longrightarrow> P (db s')"
    and "resolve_subject bo n s = Inr (x, s') \<Longrightarrow> P (db s')"
proof -
  have k: "stmt_keeps P (ins_subject c m)" for c m using assms(1) by (simp add: quick_keeps_def)
  show "resolve_subject bo n s = Inl (e, s') \<Longrightarrow> P (db s')"
    and "resolve_subject bo n s = Inr (x, s') \<Longrightarrow> P (db s')"
    using assms(2)
    by (auto simp: resolve_subject_def map_sum_stmt split: option.splits list.splits sum.splits prod.splits
             intro: keeps_stmt [OF k])
qed

lemma resolve_chapter_keeps:
  assumes "quick_keeps P" and "P (db s)"
  shows "resolve_chapter so n s = Inl (e, s') \<Longrightarrow> P (db s')"
    and "resolve_chapter so n s = Inr (x, s') \<Longrightarrow> P (db s')"
proof -
  have k: "stmt_keeps P (ins_chapter c m)" for c m using assms(1) by (simp add: quick_keeps_def)
  show "resolve_chapter so n s = Inl (e, s') \<Longrightarrow> P (db s')"
    and "resolve_chapter so n s = Inr (x, s') \<Longrightarrow> P (db s')"
    using assms(2)
    by (auto simp: resolve_chapter_def map_sum_stmt split: option.splits list.splits sum.splits prod.splits
             intro: keeps_stmt [OF k])
qed

lemma add_line_keeps:
  assumes qk: "quick_keeps P" and p: "P (db s)"
  shows "add_line line s = Inl (e, s') \<Longrightarrow> P (db s')" and "add_line line s = Inr s' \<Longrightarrow> P (db s')"
proof -
  let ?l = "parse_line line" and ?b = "js_or_null (current_board s)"
  have "(\<exists>e1. add_line line s = Inl (e1, s')) \<or> add_line line s = Inr s' \<Longrightarrow> P (db s')"
  proof (cases "resolve_subject ?b (ql_subject ?l) s")
    case (Inl a)
    then obtain e1 t1 where r1: "resolve_subject ?b (ql_subject ?l) s = Inl (e1, t1)" by (cases a) auto
    moreover assume "(\<exists>e1. add_line line s = Inl (e1, s')) \<or> add_line line s = Inr s'"
    ultimately show ?thesis using resolve_subject_keeps(1) [OF qk p r1]
      by (auto simp: add_line_def Let_def map_sum_stmt)
  next
    case (Inr a)
    then obtain sid t1 where r1: "resolve_subject ?b (ql_subject ?l) s = Inr (sid, t1)" by (cases a) auto
    have p1: "P (db t1)" by (rule resolve_subject_keeps(2) [OF qk p r1])
    assume h: "(\<exists>e1. add_line line s = Inl (e1, s')) \<or> add_line line s = Inr s'"
    show ?thesis
    proof (cases "resolve_chapter sid (ql_chapter ?l) t1")
      case (Inl b)
      then obtain e2 t2 where r2: "resolve_chapter sid (ql_chapter ?l) t1 = Inl (e2, t2)" by (cases b) auto
      with h r1 resolve_chapter_keeps(1) [OF qk p1 r2] show ?thesis
        by (auto simp: add_line_def Let_def map_sum_stmt)
    next
      case (Inr b)
      then obtain cid t2 where r2: "resolve_chapter sid (ql_chapter ?l) t1 = Inr (cid, t2)" by (cases b) auto
      have p2: "P (db t2)" by (rule resolve_chapter_keeps(2) [OF qk p1 r2])
      from qk have "stmt_keeps P (ins_question r)" for r by (simp add: quick_keeps_def)
      with h r1 r2 p2 show ?thesis
        by (auto simp: add_line_def Let_def map_sum_stmt intro: keeps_stmt)
    qed
  qed
  then show "add_line line s = Inl (e, s') \<Longrightarrow> P (db s')" and "add_line line s = Inr s' \<Longrightarrow> P (db s')"
    by blast+
qed

lemma add_lines_keeps:
  "quick_keeps P \<Longrightarrow> P (db s) \<Longrightarrow> add_lines ls s = Inl (e, s') \<Longrightarrow> P (db s')"
  "quick_keeps P \<Longrightarrow> P (db s) \<Longrightarrow> add_lines ls s = Inr s' \<Longrightarrow> P (db s')"
  by (induction ls arbitrary: s) (auto split: sum.splits dest: add_line_keeps)

lemma quick_keeps_wf: "quick_keeps wf_db"
  by (auto simp: quick_keeps_def stmt_keeps_def intro: wf_db_ins(4-6))

lemma addQuickQuestions_wf: "wf_app s \<Longrightarrow> wf_app (result (addQuickQuestions text s))"
  unfolding addQuickQuestions_def
  by (rule wf_result_finish) (auto simp: wf_app_def dest: add_lines_keeps [OF quick_keeps_wf])


subsection \<open>The catalogue kept by quick-add\<close>

lemma resolve_subject_Inl: "resolve_subject bo n s = Inl (e, s') \<Longrightarrow> s' = s"
  by (auto simp: resolve_subject_def map_sum_stmt stmt_Inl split: option.splits list.splits)

lemma resolve_chapter_Inl: "resolve_chapter so n s = Inl (e, s') \<Longrightarrow> s' = s"
  by (auto simp: resolve_chapter_def map_sum_stmt stmt_Inl split: option.splits list.splits)

text \<open>A lookup either finds the row, or finds none and inserts it.\<close>

lemma resolve_subject_Inr:
  assumes "resolve_subject bo n s = Inr (x, s')"
  shows "(x = None \<and> s' = s) \<or>
         (\<exists>b i. js_or_null bo = Some b \<and> x = Some i \<and> s' = s \<and>
                (i, \<lparr>s_board = b, s_name = n\<rparr>) \<in> set (subjects (db s))) \<or>
         (\<exists>b. js_or_null bo = Some b \<and> tbl_count (same_subject b n) (subjects (db s)) = 0 \<and>
              x = Some (next_rowid (subjects (db s))) \<and>
              s' = s\<lparr>db := (db s)\<lparr>subjects := subjects (db s) @
                     [(next_rowid (subjects (db s)), \<lparr>s_board = b, s_name = n\<rparr>)]\<rparr>\<rparr>)"
proof (cases "js_or_null bo")
  case None
  with assms show ?thesis by (simp add: resolve_subject_def)
next
  case (Some b)
  show ?thesis
  proof (cases "run_query (sel_subject_id b n (db s))")
    case (Cons i rest)
    with assms Some run_query_sel_subject [OF Cons] show ?thesis by (auto simp: resolve_subject_def)
  next
    case Nil
    with assms Some have sch: "Subjects \<in> schema (db s)"
      by (auto simp: resolve_subject_def stmt_def ins_subject_def need_single split: if_splits)
    with assms Some Nil have "x = Some (next_rowid (subjects (db s))) \<and>
        s' = s\<lparr>db := (db s)\<lparr>subjects := subjects (db s) @
               [(next_rowid (subjects (db s)), \<lparr>s_board = b, s_name = n\<rparr>)]\<rparr>\<rparr>"
      by (auto simp: resolve_subject_def stmt_def ins_subject_def need_single tbl_insert_def Let_def)
    moreover from Nil sch have "tbl_count (same_subject b n) (subjects (db s)) = 0"
      by (simp add: sel_subject_id_def need_single tbl_count_def)
    ultimately show ?thesis using Some by blast
  qed
qed

lemma resolve_chapter_Inr:
  assumes "resolve_chapter so n s = Inr (x, s')"
  shows "(x = None \<and> s' = s) \<or>
         (\<exists>c j. js_or_null so = Some c \<and> x = Some j \<and> s' = s \<and>
                (j, \<lparr>c_subject = c, c_name = n\<rparr>) \<in> set (chapters (db s))) \<or>
         (\<exists>c. js_or_null so = Some c \<and> tbl_count (same_chapter c n) (chapters (db s)) = 0 \<and>
              x = Some (next_rowid (chapters (db s))) \<and>
              s' = s\<lparr>db := (db s)\<lparr>chapters := chapters (db s) @
                     [(next_rowid (chapters (db s)), \<lparr>c_subject = c, c_name = n\<rparr>)]\<rparr>\<rparr>)"
proof (cases "js_or_null so")
  case None
  with assms show ?thesis by (simp add: resolve_chapter_def)
next
  case (Some c)
  show ?thesis
  proof (cases "run_query (sel_chapter_id c n (db s))")
    case (Cons j rest)
    with assms Some run_query_sel_chapter [OF Cons] show ?thesis by (auto simp: resolve_chapter_def)
  next
    case Nil
    with assms Some have sch: "Chapters \<in> schema (db s)"
      by (auto simp: resolve_chapter_def stmt_def ins_chapter_def need_single split: if_splits)
    with assms Some Nil have "x = Some (next_rowid (chapters (db s))) \<and>
        s' = s\<lparr>db := (db s)\<lparr>chapters := chapters (db s) @
               [(next_rowid (chapters (db s)), \<lparr>c_subject = c, c_name = n\<rparr>)]\<rparr>\<rparr>"
      by (auto simp: resolve_chapter_def stmt_def ins_chapter_def need_single tbl_insert_def Let_def)
    moreover from Nil sch have "tbl_count (same_chapter c n) (chapters (db s)) = 0"
      by (simp add: sel_chapter_id_def need_single tbl_count_def)
    ultimately show ?thesis using Some by blast
  qed
qed

lemma tbl_count_snoc: "tbl_count P (t @ [(i, r)]) = tbl_count P t + (if P i r then 1 else 0)"
  by (simp add: tbl_count_def tbl_select_def)

lemma names_unique_subject:
  "names_unique d \<Longrightarrow> tbl_count (same_subject b n) (subjects d) = 0 \<Longrightarrow>
   names_unique (d\<lparr>subjects := subjects d @ [(i, \<lparr>s_board = b, s_name = n\<rparr>)]\<rparr>)"
  by (auto simp: names_unique_def tbl_count_snoc)

lemma names_unique_chapter:
  "names_unique d \<Longrightarrow> tbl_count (same_chapter c n) (chapters d) = 0 \<Longrightarrow>
   names_unique (d\<lparr>chapters := chapters d @ [(j, \<lparr>c_subject = c, c_name = n\<rparr>)]\<rparr>)"
  by (auto simp: names_unique_def tbl_count_snoc)

lemma resolve_subject_unique:
  "names_unique (db s) \<Longrightarrow> resolve_subject bo n s = Inr (x, s') \<Longrightarrow> names_unique (db s')"
  by (drule resolve_subject_Inr) (auto intro: names_unique_subject)

lemma resolve_chapter_unique:
  "names_unique (db s) \<Longrightarrow> resolve_chapter so n s = Inr (x, s') \<Longrightarrow> names_unique (db s')"
  by (drule resolve_chapter_Inr) (auto intro: names_unique_chapter)

lemma names_unique_questions [simp]: "names_unique (d\<lparr>questions := t\<rparr>) = names_unique d"
  by (simp add: names_unique_def)

lemma ins_question_Inr:
  "stmt (ins_question q) s = Inr (x, s') \<Longrightarrow>
   s' = s\<lparr>db := (db s)\<lparr>questions := questions (db s) @ [(next_rowid (questions (db s)), q)]\<rparr>\<rparr>"
  by (auto simp: stmt_Inr ins_question_def need_single tbl_insert_def Let_def split: if_splits)

text \<open>One line of quick-add from the results of its two lookups and its insert.\<close>

lemma add_line_parts:
  assumes "add_line line s = Inl (e, s') \<or> add_line line s = Inr s'"
  obtains (subject_fails) "resolve_subject (js_or_null (current_board s)) (ql_subject (parse_line line)) s = Inl (e, s)"
      and "s' = s"
    | (chapter_fails) sid s1 where
      "resolve_subject (js_or_null (current_board s)) (ql_subject (parse_line line)) s = Inr (sid, s1)"
      "resolve_chapter sid (ql_chapter (parse_line line)) s1 = Inl (e, s1)" "s' = s1"
    | (insert_fails) sid s1 cid s2 where
      "resolve_subject (js_or_null (current_board s)) (ql_subject (parse_line line)) s = Inr (sid, s1)"
      "resolve_chapter sid (ql_chapter (parse_line line)) s1 = Inr (cid, s2)" "s' = s2"
    | (inserted) sid s1 cid s2 where
      "resolve_subject (js_or_null (current_board s)) (ql_subject (parse_line line)) s = Inr (sid, s1)"
      "resolve_chapter sid (ql_chapter (parse_line line)) s1 = Inr (cid, s2)"
      "s' = s2\<lparr>db := (db s2)\<lparr>questions := questions (db s2) @
              [(next_rowid (questions (db s2)),
                question_of (js_or_null (current_board s)) sid cid (parse_line line))]\<rparr>\<rparr>"
proof -
  let ?b = "js_or_null (current_board s)" and ?l = "parse_line line"
  show thesis
  proof (cases "resolve_subject ?b (ql_subject ?l) s")
    case (Inl a)
    then obtain e1 t1 where r1: "resolve_subject ?b (ql_subject ?l) s = Inl (e1, t1)" by (cases a) auto
    from assms r1 have "e = e1" "s' = t1" by (auto simp: add_line_def Let_def)
    with r1 resolve_subject_Inl [OF r1] show thesis by (intro subject_fails) simp_all
  next
    case (Inr a)
    then obtain sid t1 where r1: "resolve_subject ?b (ql_subject ?l) s = Inr (sid, t1)" by (cases a) auto
    show thesis
    proof (cases "resolve_chapter sid (ql_chapter ?l) t1")
      case (Inl a2)
      then obtain e2 t2 where r2: "resolve_chapter sid (ql_chapter ?l) t1 = Inl (e2, t2)" by (cases a2) auto
      from assms r1 r2 have "e = e2" "s' = t2" by (auto simp: add_line_def Let_def)
      with r1 r2 resolve_chapter_Inl [OF r2] show thesis by (intro chapter_fails) simp_all
    next
      case (Inr a2)
      then obtain cid t2 where r2: "resolve_chapter sid (ql_chapter ?l) t1 = Inr (cid, t2)" by (cases a2) auto
      let ?q = "question_of ?b sid cid ?l"
      show thesis
      proof (cases "stmt (ins_question ?q) t2")
        case (Inl a3)
        then obtain e3 t3 where r3: "stmt (ins_question ?q) t2 = Inl (e3, t3)" by (cases a3) auto
        from assms r1 r2 r3 have "s' = t3" by (auto simp: add_line_def Let_def)
        moreover from r3 have "t3 = t2" by (auto simp: stmt_Inl)
        ultimately show thesis using r1 r2 by (intro insert_fails) simp_all
      next
        case (Inr a3)
        then obtain x t3 where r3: "stmt (ins_question ?q) t2 = Inr (x, t3)" by (cases a3) auto
        from assms r1 r2 r3 have "s' = t3" by (auto simp: add_line_def Let_def)
        with r1 r2 ins_question_Inr [OF r3] show thesis by (intro inserted) simp_all
      qed
    qed
  qed
qed

lemma add_line_unique:
  assumes u: "names_unique (db s)" and r: "add_line line s = Inl (e, s') \<or> add_line line s = Inr s'"
  shows "names_unique (db s')"
  using r
proof (cases rule: add_line_parts)
  case subject_fails
  with u show ?thesis by simp
next
  case (chapter_fails sid s1)
  with u show ?thesis by (blast dest: resolve_subject_unique)
next
  case (insert_fails sid s1 cid s2)
  with u show ?thesis by (blast dest: resolve_subject_unique resolve_chapter_unique)
next
  case (inserted sid s1 cid s2)
  then have "names_unique (db s2)" using u by (blast dest: resolve_subject_unique resolve_chapter_unique)
  with inserted(3) show ?thesis by simp
qed

lemma row_linked_mono:
  "row_linked d q \<Longrightarrow> set (subjects d) \<subseteq> set (subjects d') \<Longrightarrow> set (chapters d) \<subseteq> set (chapters d') \<Longrightarrow>
   row_linked d' q"
  unfolding row_linked_def by blast

lemma questions_linked_mono:
  "questions_linked d \<Longrightarrow> set (subjects d) \<subseteq> set (subjects d') \<Longrightarrow> set (chapters d) \<subseteq> set (chapters d') \<Longrightarrow>
   questions d' = questions d \<Longrightarrow> questions_linked d'"
  unfolding questions_linked_def by (fastforce intro: row_linked_mono)

lemma questions_linked_snoc:
  "questions_linked d \<Longrightarrow> row_linked d q \<Longrightarrow> questions_linked (d\<lparr>questions := questions d @ [(k, q)]\<rparr>)"
  by (auto simp: questions_linked_def row_linked_def)

lemma resolve_subject_linked:
  assumes "questions_linked (db s)" and "resolve_subject bo n s = Inr (x, s')"
  shows "questions_linked (db s') \<and> chapters (db s') = chapters (db s) \<and>
         set (subjects (db s)) \<subseteq> set (subjects (db s')) \<and>
         (\<forall>i. x = Some i \<longrightarrow> (\<exists>b. js_or_null bo = Some b \<and> (i, \<lparr>s_board = b, s_name = n\<rparr>) \<in> set (subjects (db s'))))"
  using resolve_subject_Inr [OF assms(2)] assms(1)
  by (elim disjE exE conjE) (auto intro: questions_linked_mono)

lemma resolve_chapter_linked:
  assumes "questions_linked (db s)" and "resolve_chapter so n s = Inr (x, s')"
  shows "questions_linked (db s') \<and> subjects (db s') = subjects (db s) \<and>
         set (chapters (db s)) \<subseteq> set (chapters (db s')) \<and>
         (\<forall>j. x = Some j \<longrightarrow> (\<exists>c. js_or_null so = Some c \<and> (j, \<lparr>c_subject = c, c_name = n\<rparr>) \<in> set (chapters (db s'))))"
  using resolve_chapter_Inr [OF assms(2)] assms(1)
  by (elim disjE exE conjE) (auto intro: questions_linked_mono)

text \<open>The row a line inserts refers to the subject found or created under its board and
  to the chapter found or created under that subject.\<close>

lemma question_of_linked:
  assumes "\<forall>i. sid = Some i \<longrightarrow> (\<exists>b. js_or_null bo = Some b \<and> (i, \<lparr>s_board = b, s_name = n\<rparr>) \<in> set (subjects d))"
    and "\<forall>j. cid = Some j \<longrightarrow> (\<exists>c. js_or_null sid = Some c \<and> (j, \<lparr>c_subject = c, c_name = m\<rparr>) \<in> set (chapters d))"
  shows "row_linked d (question_of (js_or_null bo) sid cid l)"
  unfolding row_linked_def question_of_def
proof (intro conjI allI impI)
  fix i assume "q_subject \<lparr>q_board = js_or_null bo, q_subject = sid, q_chapter = cid, q_marks = ql_marks l,
      q_year = ql_year l, q_text = ql_text l, q_tags = None\<rparr> = Some i"
  with assms(1) obtain b where "js_or_null bo = Some b" "(i, \<lparr>s_board = b, s_name = n\<rparr>) \<in> set (subjects d)"
    by auto
  then show "\<exists>r. (i, r) \<in> set (subjects d) \<and> q_board \<lparr>q_board = js_or_null bo, q_subject = sid,
      q_chapter = cid, q_marks = ql_marks l, q_year = ql_year l, q_text = ql_text l, q_tags = None\<rparr> =
      Some (s_board r)" by force
next
  fix j assume "q_chapter \<lparr>q_board = js_or_null bo, q_subject = sid, q_chapter = cid, q_marks = ql_marks l,
      q_year = ql_year l, q_text = ql_text l, q_tags = None\<rparr> = Some j"
  with assms(2) obtain c where "js_or_null sid = Some c" "(j, \<lparr>c_subject = c, c_name = m\<rparr>) \<in> set (chapters d)"
    by auto
  then show "\<exists>r. (j, r) \<in> set (chapters d) \<and> q_subject \<lparr>q_board = js_or_null bo, q_subject = sid,
      q_chapter = cid, q_marks = ql_marks l, q_year = ql_year l, q_text = ql_text l, q_tags = None\<rparr> =
      Some (c_subject r)" by force
qed

lemma js_or_null_idem [simp]: "js_or_null (js_or_null x) = js_or_null x"
  by (cases x) simp_all

lemma add_line_linked:
  assumes k: "questions_linked (db s)" and r: "add_line line s = Inl (e, s') \<or> add_line line s = Inr s'"
  shows "questions_linked (db s')"
  using r
proof (cases rule: add_line_parts)
  case subject_fails
  with k show ?thesis by simp
next
  case (chapter_fails sid s1)
  with k show ?thesis by (blast dest: resolve_subject_linked)
next
  case (insert_fails sid s1 cid s2)
  with k show ?thesis by (blast dest: resolve_subject_linked resolve_chapter_linked)
next
  case (inserted sid s1 cid s2)
  note c1 = resolve_subject_linked [OF k inserted(1)]
  note c2 = resolve_chapter_linked [OF conjunct1 [OF c1] inserted(2)]
  have "row_linked (db s2) (question_of (js_or_null (js_or_null (current_board s))) sid cid (parse_line line))"
    by (rule question_of_linked) (use c1 c2 in auto)
  with c2 inserted(3) show ?thesis by (simp add: questions_linked_snoc)
qed

text \<open>A database property that every line keeps, whether it is inserted or throws, is
  kept by the whole handler.\<close>

lemma add_lines_keep:
  assumes "\<And>t l e t'. P (db t) \<Longrightarrow> add_line l t = Inl (e, t') \<or> add_line l t = Inr t' \<Longrightarrow> P (db t')"
  shows "P (db s) \<Longrightarrow> add_lines ls s = Inl (e, s') \<or> add_lines ls s = Inr s' \<Longrightarrow> P (db s')"
proof (induction ls arbitrary: s)
  case Nil
  then show ?case by auto
next
  case (Cons l ls)
  show ?case
  proof (cases "add_line l s")
    case (Inl a)
    with Cons.prems assms [of s l "fst a" "snd a"] show ?thesis by (cases a) auto
  next
    case (Inr t)
    with Cons.prems assms [of s l _ t] Cons.IH [of t] show ?thesis by auto
  qed
qed

lemma addQuickQuestions_keep:
  assumes "\<And>t l e t'. P (db t) \<Longrightarrow> add_line l t = Inl (e, t') \<or> add_line l t = Inr t' \<Longrightarrow> P (db t')"
    and "P (db s)"
  shows "P (db (result (addQuickQuestions text s)))"
proof -
  have h: "add_lines (quick_lines text) s = Inl (e, s') \<or> add_lines (quick_lines text) s = Inr s' \<Longrightarrow>
           P (db s')" for e s'
    by (rule add_lines_keep [where P = P, OF assms(1) assms(2)]) (auto intro: assms(1))
  show ?thesis
    by (cases "add_lines (quick_lines text) s") (auto simp: addQuickQuestions_def result_finish_db intro: h)
qed

lemma addQuickQuestions_linked:
  "questions_linked (db s) \<Longrightarrow> questions_linked (db (result (addQuickQuestions text s)))"
  by (rule addQuickQuestions_keep [where P = questions_linked]) (auto intro: add_line_linked)

text \<open>Claim C7. Quick-add never files a second subject of the same name under a board, nor
  a second chapter of the same name under a subject: whatever the text and however many
  of its lines name the same subject or chapter, the names stay unique, also when the
  handler throws part-way.\<close>

theorem addQuickQuestions_names_unique:
  assumes "names_unique (db s)"
  shows "names_unique (db (result (addQuickQuestions text s)))"
  by (rule addQuickQuestions_keep [where P = names_unique, OF _ assms]) (auto intro: add_line_unique)

subsection \<open>The handler\<close>

lemma addQuickQuestions_one:
  "quick_lines text = [line] \<Longrightarrow> add_line line s = Inr s1 \<Longrightarrow> addQuickQuestions text s = Done (save s1)"
  by (simp add: addQuickQuestions_def)

text \<open>Claim C6. With a board selected and every table in place, a one-line
  quick-add finds or creates the line's subject under the board and its chapter under that
  subject, appends one question row that refers to the board, the subject and the chapter
  with the parsed marks, year and text, and saves the database.\<close>

theorem addQuickQuestions_line:
  assumes "all_tables \<subseteq> schema (db s)" and "wf_db (db s)"
    and "js_or_null (current_board s) = Some b" and "quick_lines text = [line]"
  shows "\<exists>sid cid s'. addQuickQuestions text s = Done s' \<and>
     (sid, \<lparr>s_board = b, s_name = ql_subject (parse_line line)\<rparr>) \<in> set (subjects (db s')) \<and>
     (cid, \<lparr>c_subject = sid, c_name = ql_chapter (parse_line line)\<rparr>) \<in> set (chapters (db s')) \<and>
     questions (db s') = questions (db s) @
       [(next_rowid (questions (db s)),
         \<lparr>q_board = Some b, q_subject = Some sid, q_chapter = Some cid,
          q_marks = ql_marks (parse_line line), q_year = ql_year (parse_line line),
          q_text = ql_text (parse_line line), q_tags = None\<rparr>)] \<and>
     saved s' = Some (db s')"
proof -
  from add_line_board [OF assms(1-3), of line] obtain sid cid s1
    where "add_line line s = Inr s1"
      and "(sid, \<lparr>s_board = b, s_name = ql_subject (parse_line line)\<rparr>) \<in> set (subjects (db s1))"
      and "(cid, \<lparr>c_subject = sid, c_name = ql_chapter (parse_line line)\<rparr>) \<in> set (chapters (db s1))"
      and "questions (db s1) = questions (db s) @
             [(next_rowid (questions (db s)), question_of (Some b) (Some sid) (Some cid) (parse_line line))]"
    by blast
  with addQuickQuestions_one [OF assms(4)] show ?thesis
    by (intro exI [of _ sid] exI [of _ cid] exI [of _ "save s1"]) (simp add: save_def question_of_def)
qed

text \<open>After one line, there is exactly one subject of its name under the board if there
  was none, and as many as before otherwise.\<close>

lemma addQuickQuestions_subject_reused:
  assumes "all_tables \<subseteq> schema (db s)" and "wf_db (db s)"
    and "js_or_null (current_board s) = Some b" and "quick_lines text = [line]"
  shows "\<exists>s'. addQuickQuestions text s = Done s' \<and>
     tbl_count (same_subject b (ql_subject (parse_line line))) (subjects (db s')) =
       max 1 (tbl_count (same_subject b (ql_subject (parse_line line))) (subjects (db s)))"
proof -
  from add_line_board [OF assms(1-3), of line] obtain s1 where "add_line line s = Inr s1"
    and "tbl_count (same_subject b (ql_subject (parse_line line))) (subjects (db s1)) =
           max 1 (tbl_count (same_subject b (ql_subject (parse_line line))) (subjects (db s)))"
    by blast
  with addQuickQuestions_one [OF assms(4)] show ?thesis by auto
qed

text \<open>Claim C14. With no board selected, quick-add drops the subject and chapter
  fields of every line: the subject and chapter tables stay as they are and each line
  appends a question row without board, subject or chapter.\<close>

theorem addQuickQuestions_no_board:
  assumes "Questions \<in> schema (db s)" and "js_or_null (current_board s) = None"
  shows "\<exists>s'. addQuickQuestions text s = Done s' \<and> subjects (db s') = subjects (db s) \<and>
           chapters (db s') = chapters (db s) \<and>
           map snd (questions (db s')) =
             map snd (questions (db s)) @ map (\<lambda>x. question_of None None None (parse_line x)) (quick_lines text)"
  using add_lines_no_board [OF assms, of "quick_lines text"]
  by (auto simp: addQuickQuestions_def)

text \<open>Claim C15. When the saved database lacks the questions table, a quick-add line
  under a board first inserts its new subject (and chapter) and then throws: the live
  database keeps the new rows, the slot does not, and reloading the page no longer gives
  what the page shows.\<close>

theorem addQuickQuestions_partial_write:
  assumes "all_tables - {Questions} \<subseteq> schema (db s)" and "Questions \<notin> schema (db s)"
    and "wf_db (db s)" and "js_or_null (current_board s) = Some b"
    and "quick_lines text = line # rest"
    and "tbl_count (same_subject b (ql_subject (parse_line line))) (subjects (db s)) = 0"
    and "durable s"
  shows "\<exists>s'. addQuickQuestions text s = Threw (SqlError (NoSuchTable Questions)) s' \<and>
           saved s' = saved s \<and> \<not> durable s'"
proof -
  let ?l = "parse_line line"
  have b0: "b \<noteq> 0" using assms(4) by simp
  have sch: "Subjects \<in> schema (db s)" "Chapters \<in> schema (db s)"
    using assms(1) unfolding all_tables_def by blast+
  obtain sid s1 where r1: "resolve_subject (Some b) (ql_subject ?l) s = Inr (sid, s1)"
    using resolve_subject_ok [OF sch(1), of "Some b" "ql_subject ?l"] by auto
  from resolve_subject_spec [OF r1 b0] assms(3,6) obtain i t1 where i: "sid = Some i"
    and s1: "s1 = s\<lparr>db := (db s)\<lparr>subjects := t1\<rparr>\<rparr>"
    and c1: "tbl_count (same_subject b (ql_subject ?l)) t1 = 1" and i0: "0 < i"
    by (auto simp: wf_db_def)
  have t1: "subjects (db s) \<noteq> t1" using c1 assms(6) by auto
  obtain cid s2 where r2: "resolve_chapter (Some i) (ql_chapter ?l) s1 = Inr (cid, s2)"
    using resolve_chapter_ok [of s1 "Some i" "ql_chapter ?l"] sch s1 by auto
  from resolve_chapter_spec [OF r2] i0 obtain t2 where
    s2: "s2 = s1\<lparr>db := (db s1)\<lparr>chapters := t2\<rparr>\<rparr>" by auto
  have nq: "Questions \<notin> schema (db s2)" using assms(2) s1 s2 by simp
  have "add_line line s = Inl (SqlError (NoSuchTable Questions), s2)"
    using r1 r2 i assms(4) nq by (simp add: add_line_def Let_def stmt_def ins_question_def need_single)
  then have run: "addQuickQuestions text s = Threw (SqlError (NoSuchTable Questions)) s2"
    using assms(5) by (simp add: addQuickQuestions_def)
  have "subjects (db s2) = t1" using s1 s2 by simp
  with t1 have "db s2 \<noteq> db s" by auto
  moreover have "saved s2 = saved s" using s1 s2 by simp
  ultimately show ?thesis using run assms(7) by (auto simp: durable_def)
qed

subsection \<open>Witnesses\<close>

lemma quick_lines_ex_line: "quick_lines ex_line = [ex_line]"
  by (simp add: quick_lines_def trim_def js_ws_def)

lemma ex_board_app:
  "all_tables \<subseteq> schema (db (ex_app\<lparr>current_board := Some 1\<rparr>))"
  "wf_db (db (ex_app\<lparr>current_board := Some 1\<rparr>))"
  "js_or_null (current_board (ex_app\<lparr>current_board := Some 1\<rparr>)) = Some 1"
  by (simp_all add: ex_simps wf_db_def wf_table_def tbl_ids_def)

theorem addQuickQuestions_line_witness:
  "\<exists>sid cid s'. addQuickQuestions ex_line (ex_app\<lparr>current_board := Some 1\<rparr>) = Done s' \<and>
     (sid, \<lparr>s_board = 1, s_name = ''Physics''\<rparr>) \<in> set (subjects (db s')) \<and>
     (cid, \<lparr>c_subject = sid, c_name = ''Motion''\<rparr>) \<in> set (chapters (db s')) \<and>
     questions (db s') = questions (db ex_app) @
       [(3, \<lparr>q_board = Some 1, q_subject = Some sid, q_chapter = Some cid, q_marks = 5,
             q_year = Some 2021, q_text = ''What is velocity?'', q_tags = None\<rparr>)] \<and>
     saved s' = Some (db s')"
proof -
  have n: "next_rowid (questions (db ex_app)) = 3"
    by (simp add: ex_simps next_rowid_def)
  show ?thesis
    using addQuickQuestions_line [OF ex_board_app quick_lines_ex_line] parse_line_spec_example n
    by simp
qed

lemma addQuickQuestions_subject_reused_example:
  "\<exists>s'. addQuickQuestions ex_line (ex_app\<lparr>current_board := Some 1\<rparr>) = Done s' \<and>
     tbl_count (same_subject 1 ''Physics'') (subjects (db s')) = 1"
proof -
  have "tbl_count (same_subject 1 ''Physics'') (subjects (db (ex_app\<lparr>current_board := Some 1\<rparr>))) = 0"
    by (simp add: ex_simps tbl_count_def tbl_select_def)
  then show ?thesis
    using addQuickQuestions_subject_reused [OF ex_board_app quick_lines_ex_line] parse_line_spec_example
    by simp
qed

theorem addQuickQuestions_names_unique_witness:
  "names_unique (db (ex_app\<lparr>current_board := Some 1\<rparr>)) \<and>
   names_unique (db (result (addQuickQuestions (ex_line @ [CHR 0x0A] @ ex_line) (ex_app\<lparr>current_board := Some 1\<rparr>))))"
proof -
  have h: "names_unique (db (ex_app\<lparr>current_board := Some 1\<rparr>))"
    by (simp add: names_unique_def ex_simps tbl_count_def tbl_select_def)
  show ?thesis using addQuickQuestions_names_unique [OF h] h by simp
qed

theorem addQuickQuestions_no_board_witness:
  "\<exists>s'. addQuickQuestions ''abc|  |  | |Just text'' ex_app = Done s' \<and>
     subjects (db s') = subjects (db ex_app) \<and> chapters (db s') = chapters (db ex_app) \<and>
     map snd (questions (db s')) = map snd (questions (db ex_app)) @
       [\<lparr>q_board = None, q_subject = None, q_chapter = None, q_marks = 3, q_year = None,
         q_text = ''Just text'', q_tags = None\<rparr>]"
proof -
  have "Questions \<in> schema (db ex_app)" and "js_or_null (current_board ex_app) = None"
    by (simp_all add: ex_simps)
  moreover have "quick_lines ''abc|  |  | |Just text'' = [''abc|  |  | |Just text'']"
    by (simp add: quick_lines_def trim_def js_ws_def)
  ultimately show ?thesis
    using addQuickQuestions_no_board [of ex_app "''abc|  |  | |Just text''"] parse_line_fallback
    by (simp add: question_of_def)
qed

theorem addQuickQuestions_partial_write_witness:
  "\<exists>s'. addQuickQuestions ex_line ex_legacy_app = Threw (SqlError (NoSuchTable Questions)) s' \<and>
     saved s' = saved ex_legacy_app \<and> \<not> durable s'"
proof -
  have h: "all_tables - {Questions} \<subseteq> schema (db ex_legacy_app)"
    "Questions \<notin> schema (db ex_legacy_app)" "wf_db (db ex_legacy_app)"
    "js_or_null (current_board ex_legacy_app) = Some 1"
    "tbl_count (same_subject 1 (ql_subject (parse_line ex_line))) (subjects (db ex_legacy_app)) = 0"
    "durable ex_legacy_app"
    by (simp_all add: ex_legacy_app_def ex_legacy_db_def ex_simps wf_db_def wf_table_def tbl_ids_def
                      tbl_count_def tbl_select_def durable_def)
  show ?thesis
    using addQuickQuestions_partial_write [OF h(1-4) quick_lines_ex_line h(5,6)] by simp
qed

text \<open>Every line quick-add stores parses to a question of non-zero marks, a
  year that is not 0, and non-empty subject, chapter and text: the \<^verbatim>\<open>||\<close>
  defaults make zero and empty fields impossible.\<close>

lemma parse_line_type:
  assumes "l \<in> set (quick_lines text)"
  shows "ql_marks (parse_line l) \<noteq> 0 \<and> ql_year (parse_line l) \<noteq> Some 0 \<and>
         ql_subject (parse_line l) \<noteq> [] \<and> ql_chapter (parse_line l) \<noteq> [] \<and> ql_text (parse_line l) \<noteq> []"
proof -
  have "l \<noteq> []" using assms by (simp add: quick_lines_def)
  then show ?thesis
    by (simp add: parse_line_def Let_def js_or_int_nonzero js_or_str_nonempty)
qed

lemma parse_line_type_example:
  "ex_line \<in> set (quick_lines ex_line) \<and> ql_marks (parse_line ex_line) \<noteq> 0 \<and>
   ql_year (parse_line ex_line) \<noteq> Some 0 \<and> ql_subject (parse_line ex_line) \<noteq> [] \<and>
   ql_chapter (parse_line ex_line) \<noteq> [] \<and> ql_text (parse_line ex_line) \<noteq> []"
proof -
  have h: "ex_line \<in> set (quick_lines ex_line)" by (simp add: quick_lines_ex_line)
  show ?thesis using parse_line_type [OF h] h by blast
qed

end
