(* ===== verification/Ingest.thy ===== *)
theory Ingest
  imports App JS_String
begin

text \<open>
  Document ingestion, \<^verbatim>\<open>handlePdfUpload\<close> (\<^verbatim>\<open>src/app/index.js\<close> lines 243--262).
  pdf.js (an external library) yields, per page, the \<^verbatim>\<open>str\<close> of its text items; the
  model starts from these strings. Each page contributes its items joined by a space
  and followed by a blank line; the text is split at every match of the regular
  expression \<^verbatim>\<open>/\n\s*\n/\<close>, the blocks trimmed, the empty ones dropped, and each
  block inserted as a question of 3 marks on the current board (\<^verbatim>\<open>currentBoardId\<close>
  as it is, so a board id of 0 is stored where quick-add would store \<^verbatim>\<open>null\<close>).
\<close>

text \<open>Line 252: a page's text.\<close>

definition page_text :: "string list \<Rightarrow> string" where
  "page_text items = join '' '' items @ [CHR 0x0A, CHR 0x0A]"

text \<open>The length of a match of \<^verbatim>\<open>/\n\s*\n/\<close> at the start of a string: a line feed,
  the greedy run of whitespace after it, backtracked to its last line feed.\<close>

definition blank_match :: "string \<Rightarrow> nat option" where
  "blank_match s =
     (case s of
        [] \<Rightarrow> None
      | c # cs \<Rightarrow>
          (let w = takeWhile js_ws cs in
           if c = CHR 0x0A \<and> CHR 0x0A \<in> set w
           then Some (1 + (length w - length (takeWhile (\<lambda>x. x \<noteq> CHR 0x0A) (rev w))))
           else None))"

text \<open>\<^verbatim>\<open>String.prototype.split\<close> with that regular expression; \<open>acc\<close> is the
  current piece, reversed.\<close>

function split_blank :: "string \<Rightarrow> string \<Rightarrow> string list" where
  "split_blank acc s =
     (case s of
        [] \<Rightarrow> [rev acc]
      | c # cs \<Rightarrow>
          (case blank_match s of
             Some n \<Rightarrow> rev acc # split_blank [] (drop n s)
           | None \<Rightarrow> split_blank (c # acc) cs))"
  by pat_completeness auto
termination
  by (relation "measure (\<lambda>(acc, s). length s)")
     (auto simp: blank_match_def Let_def split: if_splits)

text \<open>Line 255.\<close>

definition pdf_blocks :: "string list list \<Rightarrow> string list" where
  "pdf_blocks pages = filter (\<lambda>b. b \<noteq> []) (map trim (split_blank [] (concat (map page_text pages))))"

fun insert_blocks :: "string list \<Rightarrow> app \<Rightarrow> (js_error \<times> app) + app" where
  "insert_blocks [] s = Inr s"
| "insert_blocks (b # bs) s =
     (case stmt (ins_question \<lparr>q_board = current_board s, q_subject = None, q_chapter = None,
                               q_marks = 3, q_year = None, q_text = b, q_tags = None\<rparr>) s of
        Inl err \<Rightarrow> Inl err
      | Inr (_, s') \<Rightarrow> insert_blocks bs s')"

definition handlePdfUpload :: "string list list \<Rightarrow> app \<Rightarrow> app outcome" where
  "handlePdfUpload pages s = finish (insert_blocks (pdf_blocks pages) s)"

declare split_blank.simps [simp del]

definition block_row :: "int option \<Rightarrow> string \<Rightarrow> question_row" where
  "block_row b x = \<lparr>q_board = b, q_subject = None, q_chapter = None, q_marks = 3, q_year = None,
                     q_text = x, q_tags = None\<rparr>"

lemma pdf_blocks_example:
  "pdf_blocks [[''What is'', ''force?''], [''Define work.'']] = [''What is force?'', ''Define work.'']"
  by (simp add: pdf_blocks_def page_text_def split_blank.simps blank_match_def js_ws_def trim_def)

lemma pdf_blocks_blank_line:
  "pdf_blocks [[''Q1.\<newline>  \<newline>Q2.'']] = [''Q1.'', ''Q2.'']"
  by (simp add: pdf_blocks_def page_text_def split_blank.simps blank_match_def js_ws_def trim_def)

lemma insert_blocks_rows:
  assumes "Questions \<in> schema (db s)"
  shows "\<exists>t. insert_blocks bs s = Inr (s\<lparr>db := (db s)\<lparr>questions := t\<rparr>\<rparr>) \<and>
           map snd t = map snd (questions (db s)) @ map (block_row (current_board s)) bs \<and>
           (wf_table (questions (db s)) \<longrightarrow> wf_table t)"
  using assms
proof (induction bs arbitrary: s)
  case Nil
  then show ?case by (intro exI [of _ "questions (db s)"]) simp
next
  case (Cons b bs)
  let ?s1 = "s\<lparr>db := (db s)\<lparr>questions := questions (db s) @
               [(next_rowid (questions (db s)), block_row (current_board s) b)]\<rparr>\<rparr>"
  have step: "insert_blocks (b # bs) s = insert_blocks bs ?s1"
    using Cons.prems by (simp add: stmt_def ins_question_def need_single tbl_insert_def Let_def block_row_def)
  from Cons.prems have "Questions \<in> schema (db ?s1)" by simp
  from Cons.IH [OF this] obtain t where "insert_blocks bs ?s1 = Inr (?s1\<lparr>db := (db ?s1)\<lparr>questions := t\<rparr>\<rparr>)"
    and "map snd t = map snd (questions (db ?s1)) @ map (block_row (current_board s)) bs"
    and "wf_table (questions (db ?s1)) \<longrightarrow> wf_table t"
    by auto
  with step wf_table_snoc_next [of "questions (db s)" "block_row (current_board s) b"] show ?case
    by (intro exI [of _ t]) auto
qed

lemma insert_blocks_keeps_disj:
  "(\<forall>r. stmt_keeps P (ins_question r)) \<Longrightarrow> P (db s) \<Longrightarrow>
   insert_blocks bs s = Inl (e, s') \<or> insert_blocks bs s = Inr s' \<Longrightarrow> P (db s')"
proof (induction bs arbitrary: s)
  case Nil
  then show ?case by auto
next
  case (Cons b bs)
  let ?q = "\<lparr>q_board = current_board s, q_subject = None, q_chapter = None,
             q_marks = 3, q_year = None, q_text = b, q_tags = None\<rparr>"
  have k: "stmt_keeps P (ins_question ?q)" using Cons.prems(1) by blast
  show ?case
  proof (cases "stmt (ins_question ?q) s")
    case (Inl a)
    then obtain e1 t where r: "stmt (ins_question ?q) s = Inl (e1, t)" by (cases a) auto
    with Cons.prems keeps_stmt(1) [OF k Cons.prems(2) r] show ?thesis by auto
  next
    case (Inr a)
    then obtain x t where r: "stmt (ins_question ?q) s = Inr (x, t)" by (cases a) auto
    with Cons.prems Cons.IH [OF Cons.prems(1) keeps_stmt(2) [OF k Cons.prems(2) r]] show ?thesis by auto
  qed
qed

lemma insert_blocks_keeps:
  "(\<forall>r. stmt_keeps P (ins_question r)) \<Longrightarrow> P (db s) \<Longrightarrow> insert_blocks bs s = Inl (e, s') \<Longrightarrow> P (db s')"
  "(\<forall>r. stmt_keeps P (ins_question r)) \<Longrightarrow> P (db s) \<Longrightarrow> insert_blocks bs s = Inr s' \<Longrightarrow> P (db s')"
  using insert_blocks_keeps_disj by blast+

lemma handlePdfUpload_wf: "wf_app s \<Longrightarrow> wf_app (result (handlePdfUpload pages s))"
proof -
  have k: "\<forall>r. stmt_keeps wf_db (ins_question r)" by (auto simp: stmt_keeps_def intro: wf_db_ins(6))
  show "wf_app s \<Longrightarrow> wf_app (result (handlePdfUpload pages s))"
    unfolding handlePdfUpload_def
    by (rule wf_result_finish) (auto simp: wf_app_def dest: insert_blocks_keeps [OF k])
qed

subsection \<open>Pages and blocks\<close>

lemma split_blank_no_lf:
  "CHR 0x0A \<notin> set t \<Longrightarrow> split_blank acc (t @ rest) = split_blank (rev t @ acc) rest"
proof (induction t arbitrary: acc)
  case (Cons c t)
  then have "blank_match (c # t @ rest) = None" by (auto simp: blank_match_def Let_def)
  with Cons show ?case by (simp add: split_blank.simps [of acc])
qed simp

lemma blank_match_sep:
  "rest = [] \<or> \<not> js_ws (hd rest) \<Longrightarrow> blank_match (CHR 0x0A # CHR 0x0A # rest) = Some 2"
  by (cases rest) (auto simp: blank_match_def js_ws_def)

lemma split_blank_pages:
  assumes "\<forall>t \<in> set ts. t \<noteq> [] \<and> CHR 0x0A \<notin> set t \<and> \<not> js_ws (hd t)"
  shows "split_blank [] (concat (map (\<lambda>t. t @ [CHR 0x0A, CHR 0x0A]) ts)) = ts @ [[]]"
  using assms
proof (induction ts)
  case Nil
  then show ?case by (simp add: split_blank.simps)
next
  case (Cons t ts)
  let ?rest = "concat (map (\<lambda>t. t @ [CHR 0x0A, CHR 0x0A]) ts)"
  have "?rest = [] \<or> \<not> js_ws (hd ?rest)"
    using Cons.prems by (cases ts) auto
  then have "blank_match (CHR 0x0A # CHR 0x0A # ?rest) = Some 2" by (rule blank_match_sep)
  then have "split_blank (rev t) (CHR 0x0A # CHR 0x0A # ?rest) = t # split_blank [] ?rest"
    by (simp add: split_blank.simps [of "rev t"])
  with Cons show ?case by (simp add: split_blank_no_lf)
qed

text \<open>Claim C9. With the questions table in place, ingesting a document appends one
  question per non-empty block, in order, each of 3 marks, on the current board as it is,
  without subject, chapter or year, and saves; no other table changes.\<close>

theorem handlePdfUpload_rows:
  assumes "Questions \<in> schema (db s)"
  shows "\<exists>t. handlePdfUpload pages s = Done (save (s\<lparr>db := (db s)\<lparr>questions := t\<rparr>\<rparr>)) \<and>
           map snd t = map snd (questions (db s)) @ map (block_row (current_board s)) (pdf_blocks pages)"
  using insert_blocks_rows [OF assms, of "pdf_blocks pages"]
  by (auto simp: handlePdfUpload_def)

theorem handlePdfUpload_rows_witness:
  "\<exists>t. handlePdfUpload [[''What is'', ''force?''], [''Define work.'']] ex_app =
         Done (save (ex_app\<lparr>db := (db ex_app)\<lparr>questions := t\<rparr>\<rparr>)) \<and>
       map snd t = map snd (questions (db ex_app)) @
         [block_row None ''What is force?'', block_row None ''Define work.'']"
proof -
  have "Questions \<in> schema (db ex_app)" by (simp add: ex_simps)
  from handlePdfUpload_rows [OF this, of "[[''What is'', ''force?''], [''Define work.'']]"]
  show ?thesis by (simp add: pdf_blocks_example ex_simps)
qed

text \<open>Claim C22. When pdf.js returns text items without line feeds (it reports line
  ends separately) and a page's text has no surrounding whitespace, the split at blank
  lines cuts only at the separators the code appends to each page: every page becomes
  exactly one question, however many questions it holds.\<close>

theorem pdf_page_per_question:
  assumes "\<forall>items \<in> set pages. join '' '' items \<noteq> [] \<and> CHR 0x0A \<notin> set (join '' '' items) \<and>
             trim (join '' '' items) = join '' '' items"
  shows "pdf_blocks pages = map (join '' '') pages"
proof -
  have "\<forall>t \<in> set (map (join '' '') pages). t \<noteq> [] \<and> CHR 0x0A \<notin> set t \<and> \<not> js_ws (hd t)"
    using assms trim_hd by auto
  moreover have "map page_text pages = map (\<lambda>t. t @ [CHR 0x0A, CHR 0x0A]) (map (join '' '') pages)"
    by (simp add: page_text_def)
  ultimately have
    "split_blank [] (concat (map page_text pages)) = map (join '' '') pages @ [[]]"
    using split_blank_pages by metis
  moreover have "filter (\<lambda>b. b \<noteq> []) (map trim (map (join '' '') pages)) = map (join '' '') pages"
    using assms by (induction pages) auto
  ultimately show ?thesis by (simp add: pdf_blocks_def trim_def)
qed

theorem pdf_page_per_question_witness:
  "pdf_blocks [[''Q1. Define force.'', ''Q2. Define work.''], [''Q3. State Ohm law.'']] =
     [''Q1. Define force. Q2. Define work.'', ''Q3. State Ohm law.'']"
proof -
  have h: "\<forall>items \<in> set [[''Q1. Define force.'', ''Q2. Define work.''], [''Q3. State Ohm law.'']].
      join '' '' items \<noteq> [] \<and> CHR 0x0A \<notin> set (join '' '' items) \<and> trim (join '' '' items) = join '' '' items"
    by (simp add: trim_def js_ws_def)
  show ?thesis using pdf_page_per_question [OF h] by simp
qed

end
