(* ===== verification/Page.thy ===== *)
theory Page
  imports Sampler QuickAdd Ingest
begin

text \<open>
  The page as a state machine: the events the user can cause (the buttons wired at
  \<^verbatim>\<open>src/app/index.js\<close> lines 407--417 and those the render functions create),
  one \<open>step\<close> per event running its handler, runs of events that complete normally,
  and the states reachable from boot. The lemmas show that one step keeps the slot in
  sync with the live database when it completes, keeps every table well-formed, and
  keeps every question filed under a subject of its board and a chapter of its subject.
\<close>

subsection \<open>The page's events\<close>

text \<open>Every way the user reaches a handler (the wiring of lines 407--417 and the
  buttons the render functions create). \<open>GenerateClick\<close> carries the random source of
  that click and the raw values of the count and marks inputs.\<close>

datatype event =
    CreateBoardClick string
  | OpenBoard int
  | AddQuickClick string
  | PdfUpload "string list list"
  | CreatePlaylistClick string
  | DeletePlaylistClick bool int
  | PickPlaylist int int
  | RemoveClick int int
  | GenerateClick "nat \<Rightarrow> nat" string string
  | ImportFile db

text \<open>Line 410: the trimmed name, and nothing when it is empty.\<close>

definition on_create_board :: "string \<Rightarrow> app \<Rightarrow> app outcome" where
  "on_create_board raw s = (let v = trim raw in if v \<noteq> [] then createBoard v s else Done s)"

text \<open>Line 413.\<close>

definition on_create_playlist :: "string \<Rightarrow> app \<Rightarrow> app outcome" where
  "on_create_playlist raw s = (let v = trim raw in if v \<noteq> [] then createPlaylist v s else Done s)"

text \<open>Line 414: \<^verbatim>\<open>parseInt(genCount) || 10\<close> and the comma-separated marks, trimmed,
  empty ones dropped.\<close>

definition on_generate :: "(nat \<Rightarrow> nat) \<Rightarrow> string \<Rightarrow> string \<Rightarrow> app \<Rightarrow> app outcome" where
  "on_generate rnd count_in marks_in s =
     generateMTP rnd (js_or_int (parse_int count_in) 10)
       (filter (\<lambda>x. x \<noteq> []) (map trim (split_on CHR '','' marks_in))) s"

fun step :: "app \<Rightarrow> event \<Rightarrow> app outcome" where
  "step s (CreateBoardClick v) = on_create_board v s"
| "step s (OpenBoard b) = renderBoardPage b s"
| "step s (AddQuickClick t) = addQuickQuestions t s"
| "step s (PdfUpload pages) = handlePdfUpload pages s"
| "step s (CreatePlaylistClick v) = on_create_playlist v s"
| "step s (DeletePlaylistClick ok p) = deletePlaylist ok p s"
| "step s (PickPlaylist p q) = addToPlaylist p q s"
| "step s (RemoveClick p q) = removeFromPlaylist p q s"
| "step s (GenerateClick rnd c m) = on_generate rnd c m s"
| "step s (ImportFile d) = importDb d s"

text \<open>Runs in which every event completes normally.\<close>

inductive completes :: "app \<Rightarrow> event list \<Rightarrow> app \<Rightarrow> bool" where
  stop: "completes s [] s"
| next_event: "step s e = Done s1 \<Longrightarrow> completes s1 es s' \<Longrightarrow> completes s (e # es) s'"

text \<open>The states the page can be in: booted from its slot, then any events, each one
  ending normally or with an exception (the page keeps running after an uncaught
  exception in a handler). An imported file or a saved slot is a database the app
  itself wrote, so its tables are well-formed and its questions are filed under
  subjects of their board and chapters of their subject.\<close>

fun slot_ok :: "db option \<Rightarrow> bool" where
  "slot_ok None = True"
| "slot_ok (Some d) = (wf_db d \<and> questions_linked d)"

fun event_ok :: "event \<Rightarrow> bool" where
  "event_ok (ImportFile d) = (wf_db d \<and> questions_linked d)"
| "event_ok _ = True"

inductive reachable :: "app \<Rightarrow> bool" where
  boot: "slot_ok slot \<Longrightarrow> reachable (init_app slot)"
| event: "reachable s \<Longrightarrow> event_ok e \<Longrightarrow> reachable (result (step s e))"

subsection \<open>One step\<close>

lemma generateMTP_durable: "durable s \<Longrightarrow> generateMTP rnd c prefs s = Done s' \<Longrightarrow> durable s'"
  by (auto simp: generateMTP_def Let_def durable_def split: if_splits sum.splits)

lemma step_durable: "durable s \<Longrightarrow> step s e = Done s' \<Longrightarrow> durable s'"
proof (cases e)
  case (CreateBoardClick v)
  then show "durable s \<Longrightarrow> step s e = Done s' \<Longrightarrow> durable s'"
    by (auto simp: on_create_board_def createBoard_def Let_def split: if_splits
             dest: finish_Done_durable)
next
  case (OpenBoard b)
  then show "durable s \<Longrightarrow> step s e = Done s' \<Longrightarrow> durable s'"
    by (auto simp: renderBoardPage_def durable_def)
next
  case (AddQuickClick t)
  then show "durable s \<Longrightarrow> step s e = Done s' \<Longrightarrow> durable s'"
    by (auto simp: addQuickQuestions_def dest: finish_Done_durable)
next
  case (PdfUpload pages)
  then show "durable s \<Longrightarrow> step s e = Done s' \<Longrightarrow> durable s'"
    by (auto simp: handlePdfUpload_def dest: finish_Done_durable)
next
  case (CreatePlaylistClick v)
  then show "durable s \<Longrightarrow> step s e = Done s' \<Longrightarrow> durable s'"
    by (auto simp: on_create_playlist_def createPlaylist_def Let_def split: if_splits
             dest: finish_Done_durable)
next
  case (DeletePlaylistClick ok p)
  then show "durable s \<Longrightarrow> step s e = Done s' \<Longrightarrow> durable s'"
    by (auto simp: deletePlaylist_def split: if_splits dest: finish_Done_durable)
next
  case (PickPlaylist p q)
  then show "durable s \<Longrightarrow> step s e = Done s' \<Longrightarrow> durable s'"
    by (auto simp: addToPlaylist_def dest: finish_Done_durable)
next
  case (RemoveClick p q)
  then show "durable s \<Longrightarrow> step s e = Done s' \<Longrightarrow> durable s'"
    by (auto simp: removeFromPlaylist_def dest: finish_Done_durable)
next
  case (GenerateClick rnd c m)
  then show "durable s \<Longrightarrow> step s e = Done s' \<Longrightarrow> durable s'"
    by (auto simp: on_generate_def dest: generateMTP_durable)
next
  case (ImportFile d)
  then show "durable s \<Longrightarrow> step s e = Done s' \<Longrightarrow> durable s'"
    by (auto simp: importDb_def)
qed

lemma step_wf: "wf_app s \<Longrightarrow> event_ok e \<Longrightarrow> wf_app (result (step s e))"
proof (cases e)
  case (CreateBoardClick v)
  then show "wf_app s \<Longrightarrow> event_ok e \<Longrightarrow> wf_app (result (step s e))"
    by (auto simp: on_create_board_def Let_def intro: wf_app_handlers)
next
  case (CreatePlaylistClick v)
  then show "wf_app s \<Longrightarrow> event_ok e \<Longrightarrow> wf_app (result (step s e))"
    by (auto simp: on_create_playlist_def Let_def intro: wf_app_handlers)
next
  case (GenerateClick rnd c m)
  then show "wf_app s \<Longrightarrow> event_ok e \<Longrightarrow> wf_app (result (step s e))"
    by (simp add: on_generate_def wf_app_def generateMTP_db)
qed (auto intro: wf_app_handlers addQuickQuestions_wf handlePdfUpload_wf)

subsection \<open>The catalogue\<close>

lemma questions_linked_same:
  "questions_linked d \<Longrightarrow> subjects d' = subjects d \<Longrightarrow> chapters d' = chapters d \<Longrightarrow>
   questions d' = questions d \<Longrightarrow> questions_linked d'"
  by (rule questions_linked_mono) simp_all

lemma insert_blocks_linked:
  "questions_linked (db s) \<Longrightarrow> insert_blocks bs s = Inl (e, s') \<or> insert_blocks bs s = Inr s' \<Longrightarrow>
   questions_linked (db s')"
proof (induction bs arbitrary: s)
  case Nil
  then show ?case by auto
next
  case (Cons b bs)
  let ?q = "\<lparr>q_board = current_board s, q_subject = None, q_chapter = None,
             q_marks = 3, q_year = None, q_text = b, q_tags = None\<rparr>"
  show ?case
  proof (cases "stmt (ins_question ?q) s")
    case (Inl a)
    with Cons.prems show ?thesis by (cases a) (auto simp: stmt_Inl)
  next
    case (Inr a)
    then obtain x t where r: "stmt (ins_question ?q) s = Inr (x, t)" by (cases a) auto
    have "questions_linked (db t)"
      using ins_question_Inr [OF r] Cons.prems(1) by (simp add: questions_linked_snoc row_linked_def)
    with Cons.prems(2) Cons.IH [of t] r show ?thesis by auto
  qed
qed

lemma handlePdfUpload_linked:
  "questions_linked (db s) \<Longrightarrow> questions_linked (db (result (handlePdfUpload pages s)))"
  by (cases "insert_blocks (pdf_blocks pages) s")
     (auto simp: handlePdfUpload_def result_finish_db dest: insert_blocks_linked)

text \<open>Every step keeps the links between questions, subjects and chapters, also when it
  throws: only quick-add and ingestion add questions, and only quick-add adds subjects and
  chapters.\<close>

lemma step_linked: "questions_linked (db s) \<Longrightarrow> event_ok e \<Longrightarrow> questions_linked (db (result (step s e)))"
proof (cases e)
  case (CreateBoardClick v)
  then show "questions_linked (db s) \<Longrightarrow> event_ok e \<Longrightarrow> questions_linked (db (result (step s e)))"
    by (auto simp: on_create_board_def createBoard_def Let_def stmt_def ins_board_def need_single tbl_insert_def
                   save_def intro: questions_linked_same split: if_splits sum.splits)
next
  case (CreatePlaylistClick v)
  then show "questions_linked (db s) \<Longrightarrow> event_ok e \<Longrightarrow> questions_linked (db (result (step s e)))"
    by (auto simp: on_create_playlist_def createPlaylist_def Let_def stmt_def ins_playlist_def need_single tbl_insert_def
                   save_def intro: questions_linked_same split: if_splits sum.splits)
next
  case (DeletePlaylistClick ok p)
  then show "questions_linked (db s) \<Longrightarrow> event_ok e \<Longrightarrow> questions_linked (db (result (step s e)))"
    by (auto simp: deletePlaylist_def stmt_u_def del_items_of_def del_playlist_def need_single
                   save_def intro: questions_linked_same split: if_splits sum.splits)
next
  case (PickPlaylist p q)
  then show "questions_linked (db s) \<Longrightarrow> event_ok e \<Longrightarrow> questions_linked (db (result (step s e)))"
    by (auto simp: addToPlaylist_def stmt_def ins_item_def need_single save_def tbl_insert_def Let_def
             intro: questions_linked_same split: if_splits sum.splits)
next
  case (RemoveClick p q)
  then show "questions_linked (db s) \<Longrightarrow> event_ok e \<Longrightarrow> questions_linked (db (result (step s e)))"
    by (auto simp: removeFromPlaylist_def stmt_u_def del_item_pair_def need_single save_def
             intro: questions_linked_same split: if_splits sum.splits)
next
  case (GenerateClick rnd c m)
  then show "questions_linked (db s) \<Longrightarrow> event_ok e \<Longrightarrow> questions_linked (db (result (step s e)))"
    by (simp add: on_generate_def generateMTP_db)
next
  case (ImportFile d)
  then show "questions_linked (db s) \<Longrightarrow> event_ok e \<Longrightarrow> questions_linked (db (result (step s e)))"
    by (simp add: importDb_def save_def)
qed (auto simp: renderBoardPage_def intro: addQuickQuestions_linked handlePdfUpload_linked)

end
