(* ===== verification/Render.thy ===== *)
theory Render
  imports App
begin

text \<open>
  What the render functions of \<^verbatim>\<open>src/app/index.js\<close> put on the page beyond the rows
  of \<open>App\<close>: \<^verbatim>\<open>escapeHtml\<close> (line 186), the 200-character text preview of a
  playlist entry (line 339), the dashboard (\<^verbatim>\<open>renderDashboard\<close>, lines 79--126) and
  the options of the playlist picker (\<^verbatim>\<open>showPlaylistPicker\<close>, lines 188--204).
  The browser's reading of escaped text is \<open>html_decode\<close>: an entity
  \<^verbatim>\<open>&amp;\<close>, \<^verbatim>\<open>&lt;\<close> or \<^verbatim>\<open>&gt;\<close> becomes its character (the only entities an
  escaped string contains), every other character stands for itself.
\<close>

text \<open>\<^verbatim>\<open>s.replace(/c/g, r)\<close>.\<close>

fun replace_all :: "char \<Rightarrow> string \<Rightarrow> string \<Rightarrow> string" where
  "replace_all c r [] = []"
| "replace_all c r (x # xs) = (if x = c then r @ replace_all c r xs else x # replace_all c r xs)"

text \<open>Line 186: ampersands first, then the angle brackets.\<close>

definition escapeHtml :: "string \<Rightarrow> string" where
  "escapeHtml s = replace_all CHR ''>'' ''&gt;'' (replace_all CHR ''<'' ''&lt;'' (replace_all CHR ''&'' ''&amp;'' s))"

fun html_decode :: "string \<Rightarrow> string" where
  "html_decode [] = []"
| "html_decode (x # xs) =
     (if x = CHR ''&'' \<and> take 4 xs = ''amp;'' then CHR ''&'' # html_decode (drop 4 xs)
      else if x = CHR ''&'' \<and> take 3 xs = ''lt;'' then CHR ''<'' # html_decode (drop 3 xs)
      else if x = CHR ''&'' \<and> take 3 xs = ''gt;'' then CHR ''>'' # html_decode (drop 3 xs)
      else x # html_decode xs)"

text \<open>Line 339: the entry's text, escaped, then cut to 200 characters.\<close>

definition preview :: "string \<Rightarrow> string" where
  "preview text = take 200 (escapeHtml text)"

text \<open>Line 103: \<^verbatim>\<open>SELECT id,name FROM playlists ORDER BY id DESC LIMIT 8\<close>.\<close>

definition sel_recent_playlists :: "db \<Rightarrow> sql_error + (rowid \<times> string) list" where
  "sel_recent_playlists d = need [Playlists] d (\<lambda>d. take 8 (rev (playlists d)))"

text \<open>\<^verbatim>\<open>renderDashboard\<close>: the board cards (line 86) and the featured playlists
  (line 103), each newest first; an empty result shows a placeholder text.\<close>

definition dashboard :: "app \<Rightarrow> (rowid \<times> string) list \<times> (rowid \<times> string) list" where
  "dashboard s = (run_query (sel_boards (db s)), run_query (sel_recent_playlists (db s)))"

text \<open>\<^verbatim>\<open>showPlaylistPicker\<close>, line 192: one button per playlist, newest first,
  fixed when the popup opens.\<close>

definition picker_options :: "app \<Rightarrow> (rowid \<times> string) list" where
  "picker_options s = run_query (sel_playlists (db s))"

subsection \<open>Escaping\<close>

lemma replace_all_append: "replace_all c r (xs @ ys) = replace_all c r xs @ replace_all c r ys"
  by (induction xs) auto

lemma set_replace_all: "set (replace_all c r xs) = (set xs - {c}) \<union> (if c \<in> set xs then set r else {})"
  by (induction xs) auto

lemma escapeHtml_Cons:
  "escapeHtml (x # xs) =
     (if x = CHR ''&'' then ''&amp;'' else if x = CHR ''<'' then ''&lt;'' else if x = CHR ''>'' then ''&gt;''
      else [x]) @ escapeHtml xs"
  by (simp add: escapeHtml_def)

lemma html_decode_escape_Cons:
  "html_decode (escapeHtml (x # xs)) = x # html_decode (escapeHtml xs)"
proof -
  consider "x = CHR ''&''" | "x = CHR ''<''" | "x = CHR ''>''"
    | "x \<noteq> CHR ''&''" "x \<noteq> CHR ''<''" "x \<noteq> CHR ''>''" by blast
  then show ?thesis
  proof cases
    case 4
    then show ?thesis by (simp add: escapeHtml_Cons)
  qed (simp_all add: escapeHtml_Cons)
qed

lemma escapeHtml_Nil [simp]: "escapeHtml [] = []"
  by (simp add: escapeHtml_def)

lemma escapeHtml_plain:
  "CHR ''&'' \<notin> set u \<Longrightarrow> CHR ''<'' \<notin> set u \<Longrightarrow> CHR ''>'' \<notin> set u \<Longrightarrow> escapeHtml (u @ w) = u @ escapeHtml w"
  by (induction u) (auto simp: escapeHtml_Cons)

lemma html_decode_plain:
  "CHR ''&'' \<notin> set u \<Longrightarrow> html_decode (u @ w) = u @ html_decode w"
  by (induction u) auto

text \<open>Claim C30. Escaping is safe and loses nothing: the escaped text has no angle
  bracket, so it cannot open a tag, and the browser shows exactly the original text.\<close>

theorem escapeHtml_safe_roundtrip:
  "html_decode (escapeHtml s) = s \<and> CHR ''<'' \<notin> set (escapeHtml s) \<and> CHR ''>'' \<notin> set (escapeHtml s)"
proof -
  have "html_decode (escapeHtml s) = s" by (induction s) (simp_all add: html_decode_escape_Cons)
  moreover have "CHR ''<'' \<notin> set (escapeHtml s) \<and> CHR ''>'' \<notin> set (escapeHtml s)"
    by (simp add: escapeHtml_def set_replace_all)
  ultimately show ?thesis by blast
qed

text \<open>Claim C31. The preview cuts the escaped text, not the text: when the 200-character
  limit falls inside an entity, the entry shows the entity's first characters instead of
  the character. A text of 198 plain characters followed by \<^verbatim>\<open><b>\<close> is shown as
  those characters followed by \<^verbatim>\<open>&l\<close>.\<close>

theorem preview_cuts_entity:
  assumes "length u = 198" and "CHR ''&'' \<notin> set u" "CHR ''<'' \<notin> set u" "CHR ''>'' \<notin> set u"
  shows "html_decode (preview (u @ ''<b>'')) = u @ ''&l''"
proof -
  have "preview (u @ ''<b>'') = u @ ''&l''"
    using assms by (simp add: preview_def escapeHtml_plain escapeHtml_Cons)
  then show ?thesis using assms(2) by (simp add: html_decode_plain)
qed

theorem preview_cuts_entity_witness:
  "html_decode (preview (replicate 198 CHR ''a'' @ ''<b>'')) = replicate 198 CHR ''a'' @ ''&l''"
proof -
  have "length (replicate 198 CHR ''a'') = 198" "CHR ''&'' \<notin> set (replicate 198 CHR ''a'')"
    "CHR ''<'' \<notin> set (replicate 198 CHR ''a'')" "CHR ''>'' \<notin> set (replicate 198 CHR ''a'')"
    by simp_all
  from preview_cuts_entity [OF this] show ?thesis .
qed

text \<open>The dashboard shows the same boards as the sidebar, and as featured
  playlists the eight newest of the playlists the picker offers, newest first.\<close>

lemma dashboard_views:
  "fst (dashboard s) = board_list s \<and> snd (dashboard s) = take 8 (picker_options s) \<and>
   length (snd (dashboard s)) \<le> 8"
  by (simp add: dashboard_def board_list_def picker_options_def sel_recent_playlists_def
        sel_playlists_def need_single)

end
