(* ===== verification/Playlists.thy ===== *)
theory Playlists
  imports Page Render
begin

text \<open>
  What the playlist part of the page promises, as an abstract specification: every
  playlist id names a playlist with a name and a multiset of question ids (a question
  may be added twice). The detailed model keeps two tables, \<^verbatim>\<open>playlists\<close> and
  \<^verbatim>\<open>playlist_items\<close>; \<open>abs_pl\<close> reads the specification off them. The refinement
  lemma shows that every completed step acts on the specification as \<open>spec_step\<close>
  says: create adds an empty playlist under a fresh id, the picker adds one copy, remove
  drops every copy, delete drops the playlist, the other events leave it alone. It needs
  the invariant \<open>pl_inv\<close> that every item row belongs to an existing playlist; every
  step keeps it when the picker's playlist still exists. The theory \<open>Screen\<close> shows
  when the user's clicks guarantee that, and the trace where they do not.
\<close>

type_synonym pl_spec = "rowid \<Rightarrow> (string \<times> int multiset) option"

definition pl_items :: "int \<Rightarrow> db \<Rightarrow> int multiset" where
  "pl_items p d = mset (map (\<lambda>(_, it). pi_question it) (tbl_select (\<lambda>_ it. pi_playlist it = p) (playlist_items d)))"

definition abs_pl :: "db \<Rightarrow> pl_spec" where
  "abs_pl d p = map_option (\<lambda>n. (n, pl_items p d)) (tbl_lookup (playlists d) p)"

text \<open>No item row refers to a playlist that does not exist.\<close>

definition pl_inv :: "db \<Rightarrow> bool" where
  "pl_inv d \<longleftrightarrow> (\<forall>(i, it) \<in> set (playlist_items d). pi_playlist it \<in> tbl_ids (playlists d))"

subsection \<open>The specification\<close>

definition spec_add :: "int \<Rightarrow> int \<Rightarrow> pl_spec \<Rightarrow> pl_spec" where
  "spec_add p q P = (case P p of None \<Rightarrow> P | Some (n, qs) \<Rightarrow> P(p \<mapsto> (n, add_mset q qs)))"

definition spec_remove :: "int \<Rightarrow> int \<Rightarrow> pl_spec \<Rightarrow> pl_spec" where
  "spec_remove p q P = (case P p of None \<Rightarrow> P | Some (n, qs) \<Rightarrow> P(p \<mapsto> (n, filter_mset (\<lambda>x. x \<noteq> q) qs)))"

text \<open>One event on the specification; \<open>i\<close> is the id a new playlist gets.\<close>

fun spec_step :: "rowid \<Rightarrow> event \<Rightarrow> pl_spec \<Rightarrow> pl_spec" where
  "spec_step i (CreatePlaylistClick v) P = (if trim v = [] then P else P(i \<mapsto> (trim v, {#})))"
| "spec_step i (PickPlaylist p q) P = spec_add p q P"
| "spec_step i (RemoveClick p q) P = spec_remove p q P"
| "spec_step i (DeletePlaylistClick ok p) P = (if ok then P(p := None) else P)"
| "spec_step i (ImportFile d) P = abs_pl d"
| "spec_step i _ P = P"

text \<open>The events the invariant needs: the picker's playlist still exists, an imported
  file has no orphan rows.\<close>

fun pl_event_ok :: "app \<Rightarrow> event \<Rightarrow> bool" where
  "pl_event_ok s (PickPlaylist p q) = (p \<in> tbl_ids (playlists (db s)))"
| "pl_event_ok s (ImportFile d) = pl_inv d"
| "pl_event_ok s _ = True"

subsection \<open>Reading the specification\<close>

lemma abs_pl_frame:
  "playlists d' = playlists d \<Longrightarrow> playlist_items d' = playlist_items d \<Longrightarrow> abs_pl d' = abs_pl d"
  by (simp add: abs_pl_def pl_items_def fun_eq_iff)

lemma pl_inv_frame:
  "pl_inv d \<Longrightarrow> playlists d' = playlists d \<Longrightarrow> playlist_items d' = playlist_items d \<Longrightarrow> pl_inv d'"
  by (simp add: pl_inv_def)

lemma pl_items_orphan: "pl_inv d \<Longrightarrow> p \<notin> tbl_ids (playlists d) \<Longrightarrow> pl_items p d = {#}"
  unfolding pl_inv_def pl_items_def tbl_select_def by (auto simp: filter_empty_conv)

lemma abs_pl_dom: "dom (abs_pl d) = tbl_ids (playlists d)"
proof -
  have "dom (abs_pl d) = dom (map_of (playlists d))" by (auto simp: abs_pl_def tbl_lookup_def)
  then show ?thesis by (simp add: dom_map_of_conv_image_fst tbl_ids_def)
qed

subsection \<open>The handlers on the two tables\<close>

lemma createPlaylist_db:
  "db (result (createPlaylist n s)) = db s \<or>
   db (result (createPlaylist n s)) = (db s)\<lparr>playlists := playlists (db s) @ [(next_rowid (playlists (db s)), n)]\<rparr>"
  "createPlaylist n s = Done s' \<Longrightarrow>
   db s' = (db s)\<lparr>playlists := playlists (db s) @ [(next_rowid (playlists (db s)), n)]\<rparr>"
  by (auto simp: createPlaylist_def stmt_def ins_playlist_def need_single tbl_insert_def Let_def save_def split: if_splits)

lemma addToPlaylist_db:
  "db (result (addToPlaylist p q s)) = db s \<or>
   db (result (addToPlaylist p q s)) = (db s)\<lparr>playlist_items := playlist_items (db s) @
      [(next_rowid (playlist_items (db s)), \<lparr>pi_playlist = p, pi_question = q\<rparr>)]\<rparr>"
  "addToPlaylist p q s = Done s' \<Longrightarrow>
   db s' = (db s)\<lparr>playlist_items := playlist_items (db s) @
      [(next_rowid (playlist_items (db s)), \<lparr>pi_playlist = p, pi_question = q\<rparr>)]\<rparr>"
  by (auto simp: addToPlaylist_def stmt_def ins_item_def need_single tbl_insert_def Let_def save_def split: if_splits)

lemma createPlaylist_Done:
  "Playlists \<in> schema (db s) \<Longrightarrow>
   createPlaylist n s = Done (save (s\<lparr>db := (db s)\<lparr>playlists := playlists (db s) @ [(next_rowid (playlists (db s)), n)]\<rparr>\<rparr>))"
  by (simp add: createPlaylist_def stmt_def ins_playlist_def tbl_insert_def Let_def)

lemma addToPlaylist_Done:
  "PlaylistItems \<in> schema (db s) \<Longrightarrow>
   addToPlaylist p q s = Done (save (s\<lparr>db := (db s)\<lparr>playlist_items := playlist_items (db s) @
      [(next_rowid (playlist_items (db s)), \<lparr>pi_playlist = p, pi_question = q\<rparr>)]\<rparr>\<rparr>))"
  by (simp add: addToPlaylist_def stmt_def ins_item_def tbl_insert_def Let_def)

lemma removeFromPlaylist_db:
  "db (result (removeFromPlaylist p q s)) = db s \<or>
   db (result (removeFromPlaylist p q s)) = (db s)\<lparr>playlist_items := tbl_delete (pair_items p q) (playlist_items (db s))\<rparr>"
  "removeFromPlaylist p q s = Done s' \<Longrightarrow>
   db s' = (db s)\<lparr>playlist_items := tbl_delete (pair_items p q) (playlist_items (db s))\<rparr>"
  by (auto simp: removeFromPlaylist_def stmt_u_def del_item_pair_def need_single save_def split: if_splits)

lemma deletePlaylist_db:
  "db (result (deletePlaylist True p s)) = db s \<or>
   db (result (deletePlaylist True p s)) = (db s)\<lparr>playlist_items := tbl_delete (items_of p) (playlist_items (db s))\<rparr> \<or>
   db (result (deletePlaylist True p s)) = (db s)\<lparr>playlist_items := tbl_delete (items_of p) (playlist_items (db s)),
      playlists := tbl_delete (\<lambda>i _. i = p) (playlists (db s))\<rparr>"
  by (auto simp: deletePlaylist_def stmt_u_def del_items_of_def del_playlist_def need_single save_def)

lemma quick_keeps_pl: "quick_keeps (\<lambda>d. playlists d = P \<and> playlist_items d = I)"
  by (auto simp: quick_keeps_def stmt_keeps_def ins_subject_def ins_chapter_def ins_question_def
        need_single tbl_insert_def Let_def)

lemma addQuickQuestions_pl:
  "playlists (db (result (addQuickQuestions t s))) = playlists (db s) \<and>
   playlist_items (db (result (addQuickQuestions t s))) = playlist_items (db s)"
proof (cases "add_lines (quick_lines t) s")
  case (Inl a)
  then obtain e s' where r: "add_lines (quick_lines t) s = Inl (e, s')" by (cases a) auto
  from add_lines_keeps(1) [OF quick_keeps_pl conjI [OF refl refl] r] show ?thesis
    by (simp add: addQuickQuestions_def r)
next
  case (Inr s')
  from add_lines_keeps(2) [OF quick_keeps_pl conjI [OF refl refl] Inr] show ?thesis
    by (simp add: addQuickQuestions_def Inr)
qed

lemma handlePdfUpload_pl:
  "playlists (db (result (handlePdfUpload pages s))) = playlists (db s) \<and>
   playlist_items (db (result (handlePdfUpload pages s))) = playlist_items (db s)"
proof -
  have k: "\<forall>r. stmt_keeps (\<lambda>d. playlists d = playlists (db s) \<and> playlist_items d = playlist_items (db s))
      (ins_question r)"
    using quick_keeps_pl by (simp add: quick_keeps_def)
  show ?thesis
  proof (cases "insert_blocks (pdf_blocks pages) s")
    case (Inl a)
    then obtain e s' where r: "insert_blocks (pdf_blocks pages) s = Inl (e, s')" by (cases a) auto
    from insert_blocks_keeps(1) [OF k conjI [OF refl refl] r] show ?thesis
      by (simp add: handlePdfUpload_def r)
  next
    case (Inr s')
    from insert_blocks_keeps(2) [OF k conjI [OF refl refl] Inr] show ?thesis
      by (simp add: handlePdfUpload_def Inr)
  qed
qed

lemma createBoard_pl:
  "playlists (db (result (createBoard n s))) = playlists (db s) \<and>
   playlist_items (db (result (createBoard n s))) = playlist_items (db s)"
  by (auto simp: createBoard_def stmt_def ins_board_def need_single tbl_insert_def Let_def save_def split: if_splits)

subsection \<open>The effects on the specification\<close>

lemma tbl_lookup_snoc_fresh:
  "i \<notin> tbl_ids t \<Longrightarrow> tbl_lookup (t @ [(i, r)]) p = (if p = i then Some r else tbl_lookup t p)"
  by (induction t) (auto simp: tbl_lookup_def tbl_ids_def)

lemma tbl_lookup_delete_key:
  "tbl_lookup (tbl_delete (\<lambda>i _. i = p) t) p' = (if p' = p then None else tbl_lookup t p')"
  by (induction t) (auto simp: tbl_lookup_def tbl_delete_def)

lemma pl_items_items:
  "pl_items p (d\<lparr>playlists := t\<rparr>) = pl_items p d"
  "pl_items p (d\<lparr>playlist_items := playlist_items d @ [(j, \<lparr>pi_playlist = p', pi_question = q\<rparr>)]\<rparr>) =
     (if p = p' then add_mset q (pl_items p d) else pl_items p d)"
  by (simp_all add: pl_items_def tbl_select_def)

lemma questions_delete_pair:
  "map (\<lambda>(_, it). pi_question it) (filter (\<lambda>(_, it). pi_playlist it = p)
      (filter (\<lambda>(i, r). \<not> (pi_playlist r = p \<and> pi_question r = q)) xs)) =
   filter (\<lambda>x. x \<noteq> q) (map (\<lambda>(_, it). pi_question it) (filter (\<lambda>(_, it). pi_playlist it = p) xs))"
  by (induction xs) (auto split: prod.splits)

lemma filter_other_playlist:
  "(\<And>i r. pi_playlist r = p \<Longrightarrow> \<not> P i r) \<Longrightarrow>
   filter (\<lambda>(_, it). pi_playlist it = p) (filter (\<lambda>(i, r). \<not> P i r) xs) =
   filter (\<lambda>(_, it). pi_playlist it = p) xs"
  by (induction xs) (auto split: prod.splits)

lemma pl_items_delete:
  "pl_items p (d\<lparr>playlist_items := tbl_delete (pair_items p' q) (playlist_items d)\<rparr>) =
     (if p = p' then filter_mset (\<lambda>x. x \<noteq> q) (pl_items p d) else pl_items p d)"
  "p \<noteq> p' \<Longrightarrow> pl_items p (d\<lparr>playlist_items := tbl_delete (items_of p') (playlist_items d)\<rparr>) = pl_items p d"
proof -
  show "pl_items p (d\<lparr>playlist_items := tbl_delete (pair_items p' q) (playlist_items d)\<rparr>) =
     (if p = p' then filter_mset (\<lambda>x. x \<noteq> q) (pl_items p d) else pl_items p d)"
  proof (cases "p = p'")
    case True
    have "mset (map (\<lambda>(_, it). pi_question it) (filter (\<lambda>(_, it). pi_playlist it = p)
        (filter (\<lambda>(i, r). \<not> (pi_playlist r = p \<and> pi_question r = q)) (playlist_items d)))) =
      filter_mset (\<lambda>x. x \<noteq> q) (mset (map (\<lambda>(_, it). pi_question it)
        (filter (\<lambda>(_, it). pi_playlist it = p) (playlist_items d))))"
      by (simp only: questions_delete_pair mset_filter)
    with True show ?thesis
      by (simp add: pl_items_def tbl_select_def tbl_delete_def)
  next
    case False
    then have "filter (\<lambda>(_, it). pi_playlist it = p)
        (filter (\<lambda>(i, r). \<not> (pi_playlist r = p' \<and> pi_question r = q)) (playlist_items d)) =
      filter (\<lambda>(_, it). pi_playlist it = p) (playlist_items d)"
      by (intro filter_other_playlist) auto
    with False show ?thesis
      by (simp add: pl_items_def tbl_select_def tbl_delete_def)
  qed
  assume "p \<noteq> p'"
  then have "filter (\<lambda>(_, it). pi_playlist it = p)
      (filter (\<lambda>(i, r). \<not> pi_playlist r = p') (playlist_items d)) =
    filter (\<lambda>(_, it). pi_playlist it = p) (playlist_items d)"
    by (intro filter_other_playlist) auto
  then show "pl_items p (d\<lparr>playlist_items := tbl_delete (items_of p') (playlist_items d)\<rparr>) = pl_items p d"
    by (simp add: pl_items_def tbl_select_def tbl_delete_def)
qed

lemma abs_create:
  assumes "pl_inv d"
  shows "abs_pl (d\<lparr>playlists := playlists d @ [(next_rowid (playlists d), n)]\<rparr>) =
           (abs_pl d)(next_rowid (playlists d) \<mapsto> (n, {#}))"
  using assms pl_items_orphan [OF assms next_rowid_notin]
  by (auto simp: abs_pl_def fun_eq_iff tbl_lookup_snoc_fresh pl_items_items)

lemma abs_add:
  "abs_pl (d\<lparr>playlist_items := playlist_items d @ [(j, \<lparr>pi_playlist = p, pi_question = q\<rparr>)]\<rparr>) =
     spec_add p q (abs_pl d)"
  by (auto simp: abs_pl_def spec_add_def fun_eq_iff pl_items_items split: option.splits)

lemma abs_remove:
  "abs_pl (d\<lparr>playlist_items := tbl_delete (pair_items p q) (playlist_items d)\<rparr>) = spec_remove p q (abs_pl d)"
  by (auto simp: abs_pl_def spec_remove_def fun_eq_iff pl_items_delete(1) split: option.splits)

lemma abs_delete:
  "abs_pl (d\<lparr>playlist_items := tbl_delete (items_of p) (playlist_items d),
            playlists := tbl_delete (\<lambda>i _. i = p) (playlists d)\<rparr>) = (abs_pl d)(p := None)"
proof (rule ext)
  fix p'
  have "pl_items p' (d\<lparr>playlist_items := tbl_delete (items_of p) (playlist_items d),
            playlists := tbl_delete (\<lambda>i _. i = p) (playlists d)\<rparr>) =
        pl_items p' (d\<lparr>playlist_items := tbl_delete (items_of p) (playlist_items d)\<rparr>)"
    by (simp add: pl_items_def)
  then show "abs_pl (d\<lparr>playlist_items := tbl_delete (items_of p) (playlist_items d),
            playlists := tbl_delete (\<lambda>i _. i = p) (playlists d)\<rparr>) p' = ((abs_pl d)(p := None)) p'"
    by (auto simp: abs_pl_def tbl_lookup_delete_key pl_items_delete(2))
qed

subsection \<open>The invariant on the two tables\<close>

lemma pl_inv_create: "pl_inv d \<Longrightarrow> pl_inv (d\<lparr>playlists := playlists d @ [x]\<rparr>)"
  by (auto simp: pl_inv_def tbl_ids_def)

lemma pl_inv_add:
  "pl_inv d \<Longrightarrow> p \<in> tbl_ids (playlists d) \<Longrightarrow>
   pl_inv (d\<lparr>playlist_items := playlist_items d @ [(j, \<lparr>pi_playlist = p, pi_question = q\<rparr>)]\<rparr>)"
  by (auto simp: pl_inv_def)

lemma pl_inv_delete_items: "pl_inv d \<Longrightarrow> pl_inv (d\<lparr>playlist_items := tbl_delete P (playlist_items d)\<rparr>)"
  by (auto simp: pl_inv_def tbl_delete_def)

lemma pl_inv_delete_playlist:
  "pl_inv d \<Longrightarrow> pl_inv (d\<lparr>playlist_items := tbl_delete (items_of p) (playlist_items d),
                           playlists := tbl_delete (\<lambda>i _. i = p) (playlists d)\<rparr>)"
  by (fastforce simp: pl_inv_def tbl_delete_def tbl_ids_def)

subsection \<open>Refinement\<close>

lemma Done_result: "step s e = Done s' \<Longrightarrow> s' = result (step s e)"
  by simp

text \<open>Claim C26. Every step that completes acts on the playlists as the specification
  says, the new playlist's id being fresh: create adds an empty playlist, the picker adds
  one copy of the question, remove drops every copy, a confirmed delete drops the
  playlist, an import replaces everything, and no other event changes the playlists.
  This holds whenever no item row is orphaned.\<close>

theorem step_refines_spec:
  assumes inv: "pl_inv (db s)" and fin: "step s e = Done s'"
  shows "next_rowid (playlists (db s)) \<notin> dom (abs_pl (db s)) \<and>
         abs_pl (db s') = spec_step (next_rowid (playlists (db s))) e (abs_pl (db s))"
proof
  show "next_rowid (playlists (db s)) \<notin> dom (abs_pl (db s))" by (simp add: abs_pl_dom)
  show "abs_pl (db s') = spec_step (next_rowid (playlists (db s))) e (abs_pl (db s))"
  proof (cases e)
    case (CreateBoardClick v)
    with fin createBoard_pl [of "trim v" s] show ?thesis
      by (auto simp: on_create_board_def Let_def split: if_splits intro: abs_pl_frame)
  next
    case (OpenBoard b)
    with fin show ?thesis by (auto simp: renderBoardPage_def)
  next
    case (AddQuickClick t)
    with Done_result [OF fin] addQuickQuestions_pl [of t s] show ?thesis by (auto intro: abs_pl_frame)
  next
    case (PdfUpload pages)
    with Done_result [OF fin] handlePdfUpload_pl [of pages s] show ?thesis by (auto intro: abs_pl_frame)
  next
    case (CreatePlaylistClick v)
    with fin createPlaylist_db(2) [of "trim v" s s'] abs_create [OF inv] show ?thesis
      by (auto simp: on_create_playlist_def Let_def split: if_splits)
  next
    case (DeletePlaylistClick ok p)
    with fin deletePlaylist_cases [of p s s'] abs_delete [of p "db s"] show ?thesis
      by (cases ok) (auto simp: deletePlaylist_def)
  next
    case (PickPlaylist p q)
    with fin addToPlaylist_db(2) [of p q s s'] show ?thesis by (simp add: abs_add)
  next
    case (RemoveClick p q)
    with fin removeFromPlaylist_db(2) [of p q s s'] show ?thesis by (simp add: abs_remove)
  next
    case (GenerateClick rnd c m)
    with Done_result [OF fin] generateMTP_db show ?thesis by (simp add: on_generate_def)
  next
    case (ImportFile d)
    with fin show ?thesis by (auto simp: importDb_def save_def)
  qed
qed

lemma step_pl_inv:
  assumes inv: "pl_inv (db s)" and ok: "pl_event_ok s e"
  shows "pl_inv (db (result (step s e)))"
proof (cases e)
  case (CreateBoardClick v)
  with inv createBoard_pl [of "trim v" s] show ?thesis
    by (auto simp: on_create_board_def Let_def intro: pl_inv_frame)
next
  case (OpenBoard b)
  with inv show ?thesis by (simp add: renderBoardPage_def)
next
  case (AddQuickClick t)
  with inv addQuickQuestions_pl [of t s] show ?thesis by (auto intro: pl_inv_frame)
next
  case (PdfUpload pages)
  with inv handlePdfUpload_pl [of pages s] show ?thesis by (auto intro: pl_inv_frame)
next
  case (CreatePlaylistClick v)
  with inv createPlaylist_db(1) [of "trim v" s] show ?thesis
    by (auto simp: on_create_playlist_def Let_def intro: pl_inv_create)
next
  case (DeletePlaylistClick c p)
  with inv deletePlaylist_db [of p s] show ?thesis
    by (cases c) (auto simp: deletePlaylist_def intro: pl_inv_delete_items pl_inv_delete_playlist)
next
  case (PickPlaylist p q)
  with inv ok addToPlaylist_db(1) [of p q s] show ?thesis by (auto intro: pl_inv_add)
next
  case (RemoveClick p q)
  with inv removeFromPlaylist_db(1) [of p q s] show ?thesis by (auto intro: pl_inv_delete_items)
next
  case (GenerateClick rnd c m)
  with inv generateMTP_db show ?thesis by (simp add: on_generate_def)
next
  case (ImportFile d)
  with ok show ?thesis by (simp add: importDb_def save_def)
qed

lemma picker_options_live: "fst ` set (picker_options s) \<subseteq> tbl_ids (playlists (db s))"
  by (auto simp: picker_options_def sel_playlists_def need_single tbl_ids_def split: if_splits)

text \<open>Claim C27. No step orphans an item row, also when it throws, as long as the
  picker's playlist still exists and an imported file has no orphan rows.\<close>

theorem step_keeps_pl_inv:
  assumes inv: "pl_inv (db s)" and ok: "pl_event_ok s e"
  shows "pl_inv (db (result (step s e)))"
  using step_pl_inv [OF inv ok] .

subsection \<open>Examples\<close>

lemma ex_pl_inv: "pl_inv (db ex_app)"
  by (simp add: pl_inv_def ex_simps tbl_ids_def)

theorem step_refines_spec_witness:
  "pl_inv (db ex_app) \<and>
   step ex_app (PickPlaylist 1 2) = Done (result (step ex_app (PickPlaylist 1 2))) \<and>
   abs_pl (db (result (step ex_app (PickPlaylist 1 2)))) = spec_add 1 2 (abs_pl (db ex_app))"
proof -
  have d: "step ex_app (PickPlaylist 1 2) = Done (result (step ex_app (PickPlaylist 1 2)))"
    by (simp add: addToPlaylist_def stmt_def ins_item_def need_single ex_simps tbl_insert_def Let_def)
  show ?thesis using step_refines_spec [OF ex_pl_inv d] ex_pl_inv d by simp
qed

theorem step_keeps_pl_inv_witness:
  "pl_inv (db ex_app) \<and> pl_event_ok ex_app (DeletePlaylistClick True 1) \<and>
   pl_inv (db (result (step ex_app (DeletePlaylistClick True 1))))"
  using step_keeps_pl_inv [OF ex_pl_inv, of "DeletePlaylistClick True 1"] ex_pl_inv by simp

text \<open>A picker opened now offers only existing playlists: picking any of its
  options is an event that keeps the invariant. Only a picker left open while the
  playlists change (C28) breaks it.\<close>

lemma picker_options_ok:
  assumes "p \<in> fst ` set (picker_options s)"
  shows "pl_event_ok s (PickPlaylist p q)"
  using assms
  by (auto simp: picker_options_def sel_playlists_def need_single tbl_ids_def split: if_splits)

lemma picker_options_ok_example:
  "1 \<in> fst ` set (picker_options ex_app) \<and> pl_event_ok ex_app (PickPlaylist 1 2)"
proof -
  have h: "1 \<in> fst ` set (picker_options ex_app)"
    by (simp add: picker_options_def sel_playlists_def need_single ex_simps)
  show ?thesis using picker_options_ok [OF h] h by blast
qed

end
