(* ===== verification/Screen.thy ===== *)
theory Screen
  imports Playlists
begin

text \<open>
  The page as the user sees and clicks it. Besides the state of \<open>App\<close>, the screen
  holds the playlist cards of \<^verbatim>\<open>#playlists\<close> (built by \<^verbatim>\<open>renderPlaylists\<close>,
  \<^verbatim>\<open>src/app/index.js\<close> lines 270--325, each with its View/Hide toggle and the entries
  \<^verbatim>\<open>showPlaylistContents\<close> put into it), the picker popups appended to the body by
  \<^verbatim>\<open>showPlaylistPicker\<close> (lines 188--211) and the files \<^verbatim>\<open>exportDb\<close> (lines
  387--394) has downloaded. A \<open>ui_event\<close> is one click on a control, or the
  completion of one of the two asynchronous handlers: the parsed PDF
  (\<^verbatim>\<open>handlePdfUpload\<close> after its \<^verbatim>\<open>await\<close>s) and the file read by
  \<^verbatim>\<open>FileReader\<close> (\<^verbatim>\<open>reader.onload\<close> of \<^verbatim>\<open>importDbFile\<close>).

  A click first runs the control's handler and then bubbles to the document, where the
  listener of every popup armed before the click (line 209, armed 10 ms after the popup
  opened) removes its popup unless the click was inside it. So every click closes an
  open picker except a click on one of its options, and the picker a click opens stays.
  The completions are not clicks and close nothing: a file import that finishes while a
  picker is open leaves the picker offering the playlists of the replaced database.
\<close>

subsection \<open>Cards, pickers and the screen\<close>

text \<open>A playlist card (lines 283--313): the name and count in its header, the View
  button's label, whether the entries container has the class \<^verbatim>\<open>hidden\<close>, and the
  entries \<^verbatim>\<open>showPlaylistContents\<close> last put into it (\<open>None\<close>: never opened).\<close>

record card =
  card_id :: rowid
  card_name :: string
  card_count :: nat
  card_hidden :: bool
  card_label :: string
  card_items :: "mtp_row list option"

text \<open>A picker popup: the question of the card it was opened from and its options,
  fixed when it opened (lines 192--201).\<close>

record picker =
  pk_question :: int
  pk_options :: "(rowid \<times> string) list"

record screen =
  page :: app
  cards :: "card list"
  popups :: "picker list"
  downloads :: "(string \<times> db) list"

text \<open>One new card (lines 283--307): entries hidden, the button reads View.\<close>

definition new_card :: "rowid \<times> string \<times> nat \<Rightarrow> card" where
  "new_card c = (case c of (p, n, k) \<Rightarrow>
     \<lparr>card_id = p, card_name = n, card_count = k, card_hidden = True, card_label = ''View'',
      card_items = None\<rparr>)"

text \<open>\<^verbatim>\<open>renderPlaylists\<close> (lines 270--276): the container is emptied and one new card
  is built per playlist, newest first.\<close>

definition render_cards :: "app \<Rightarrow> card list" where
  "render_cards s = map new_card (playlist_cards s)"

text \<open>The View button (lines 309--313): an open card is hidden again, keeping its
  entries; a hidden one is shown and filled with the playlist's current entries.\<close>

definition toggle_card :: "app \<Rightarrow> card \<Rightarrow> card" where
  "toggle_card s c =
     (if \<not> card_hidden c then c\<lparr>card_hidden := True, card_label := ''View''\<rparr>
      else c\<lparr>card_hidden := False, card_label := ''Hide'',
             card_items := Some (playlist_contents (card_id c) s)\<rparr>)"

text \<open>\<^verbatim>\<open>showPlaylistPicker(questionId, anchor)\<close> (lines 188--205).\<close>

definition open_picker :: "int \<Rightarrow> app \<Rightarrow> picker" where
  "open_picker q s = \<lparr>pk_question = q, pk_options = picker_options s\<rparr>"

text \<open>\<^verbatim>\<open>exportDb\<close> (lines 387--394): a download of \<^verbatim>\<open>db.export()\<close> named
  \<^verbatim>\<open>studyme-db.sqlite\<close>; the bytes are the live database, as the slot's are.\<close>

definition exportDb :: "app \<Rightarrow> string \<times> db" where
  "exportDb s = (''studyme-db.sqlite'', db s)"

text \<open>The handlers that end by calling \<^verbatim>\<open>renderPlaylists\<close>: \<^verbatim>\<open>createPlaylist\<close> (line
  267, called for a non-empty name), the confirmed delete (line 320), the remove button
  (line 345) and the import (line 402).\<close>

fun renders_playlists :: "event \<Rightarrow> bool" where
  "renders_playlists (CreatePlaylistClick v) = (trim v \<noteq> [])"
| "renders_playlists (DeletePlaylistClick ok p) = ok"
| "renders_playlists (RemoveClick p q) = True"
| "renders_playlists (ImportFile d) = True"
| "renders_playlists _ = False"

text \<open>Running a page handler: the cards are rebuilt only when the handler reaches its
  \<^verbatim>\<open>renderPlaylists\<close> call, which an exception skips.\<close>

definition run_handler :: "event \<Rightarrow> screen \<Rightarrow> screen" where
  "run_handler e sc =
     (case step (page sc) e of
        Done s' \<Rightarrow> sc\<lparr>page := s', cards := (if renders_playlists e then render_cards s' else cards sc)\<rparr>
      | Threw _ s' \<Rightarrow> sc\<lparr>page := s'\<rparr>)"

text \<open>The document listeners of the open popups (line 209) on a click outside them.\<close>

definition dismiss :: "screen \<Rightarrow> screen" where
  "dismiss sc = sc\<lparr>popups := []\<rparr>"

text \<open>The entry \<open>j\<close> shown in card \<open>i\<close>, as the pair its Remove button deletes (line 345).\<close>

definition card_entry :: "card list \<Rightarrow> nat \<Rightarrow> nat \<Rightarrow> (int \<times> int) option" where
  "card_entry cs i j =
     (if i < length cs \<and> \<not> card_hidden (cs ! i) then
        (case card_items (cs ! i) of
           Some rows \<Rightarrow> if j < length rows then Some (card_id (cs ! i), fst (rows ! j)) else None
         | None \<Rightarrow> None)
      else None)"

text \<open>The option \<open>j\<close> of popup \<open>i\<close>: the popup and the playlist id of its button.\<close>

definition pick_target :: "picker list \<Rightarrow> nat \<Rightarrow> nat \<Rightarrow> (picker \<times> int) option" where
  "pick_target ps i j =
     (if i < length ps \<and> j < length (pk_options (ps ! i))
      then Some (ps ! i, fst (pk_options (ps ! i) ! j)) else None)"

text \<open>An option's button (line 199): the insert and the save, then the popup removes
  itself. When the insert throws, the popup stays (the click was inside it); the other
  popups close either way.\<close>

definition pick :: "screen \<Rightarrow> picker \<Rightarrow> int \<Rightarrow> screen" where
  "pick sc pk p =
     (case step (page sc) (PickPlaylist p (pk_question pk)) of
        Done s' \<Rightarrow> sc\<lparr>page := s', popups := []\<rparr>
      | Threw _ s' \<Rightarrow> sc\<lparr>page := s', popups := [pk]\<rparr>)"

subsection \<open>The user's actions\<close>

text \<open>Clicks on the controls: the buttons of lines 410--416, a board button or card, a
  card's View, Delete (with the answer to \<^verbatim>\<open>confirm\<close>) and Remove buttons, the
  question cards' Add-to-playlist button (line 182), a picker option, and a click
  anywhere else (the import button and the file input among them). Then the two
  completions.\<close>

datatype ui_event =
    CreateBoardBtn string
  | BoardBtn int
  | AddQuickBtn string
  | CreatePlaylistBtn string
  | GenerateBtn "nat \<Rightarrow> nat" string string
  | ViewBtn nat
  | DeleteBtn nat bool
  | RemoveBtn nat nat
  | AddBtn int
  | OptionBtn nat nat
  | ExportBtn
  | OtherClick
  | PdfParsed "string list list"
  | FileLoaded db

fun ui_step :: "screen \<Rightarrow> ui_event \<Rightarrow> screen" where
  "ui_step sc (CreateBoardBtn v) = dismiss (run_handler (CreateBoardClick v) sc)"
| "ui_step sc (BoardBtn b) = dismiss (run_handler (OpenBoard b) sc)"
| "ui_step sc (AddQuickBtn t) = dismiss (run_handler (AddQuickClick t) sc)"
| "ui_step sc (CreatePlaylistBtn v) = dismiss (run_handler (CreatePlaylistClick v) sc)"
| "ui_step sc (GenerateBtn rnd c m) = dismiss (run_handler (GenerateClick rnd c m) sc)"
| "ui_step sc (ViewBtn i) =
     dismiss (if i < length (cards sc)
              then sc\<lparr>cards := (cards sc)[i := toggle_card (page sc) (cards sc ! i)]\<rparr> else sc)"
| "ui_step sc (DeleteBtn i ok) =
     dismiss (if i < length (cards sc)
              then run_handler (DeletePlaylistClick ok (card_id (cards sc ! i))) sc else sc)"
| "ui_step sc (RemoveBtn i j) =
     dismiss (case card_entry (cards sc) i j of
                Some (p, q) \<Rightarrow> run_handler (RemoveClick p q) sc
              | None \<Rightarrow> sc)"
| "ui_step sc (AddBtn q) = sc\<lparr>popups := [open_picker q (page sc)]\<rparr>"
| "ui_step sc (OptionBtn i j) =
     (case pick_target (popups sc) i j of
        Some (pk, p) \<Rightarrow> pick sc pk p
      | None \<Rightarrow> dismiss sc)"
| "ui_step sc ExportBtn = dismiss (sc\<lparr>downloads := downloads sc @ [exportDb (page sc)]\<rparr>)"
| "ui_step sc OtherClick = dismiss sc"
| "ui_step sc (PdfParsed pages) = run_handler (PdfUpload pages) sc"
| "ui_step sc (FileLoaded d) = run_handler (ImportFile d) sc"

definition ui_run :: "screen \<Rightarrow> ui_event list \<Rightarrow> screen" where
  "ui_run sc es = foldl ui_step sc es"

text \<open>\<^verbatim>\<open>initDB\<close> (lines 4--17) renders the playlists of the booted database.\<close>

definition boot_screen :: "db option \<Rightarrow> screen" where
  "boot_screen slot =
     \<lparr>page = init_app slot, cards = render_cards (init_app slot), popups = [], downloads = []\<rparr>"

inductive ui_reachable :: "screen \<Rightarrow> bool" where
  boot: "ui_reachable (boot_screen slot)"
| event: "ui_reachable sc \<Longrightarrow> ui_reachable (ui_step sc e)"

text \<open>The screens reached from a slot without orphan rows when every imported file has
  no orphan rows and no import finishes while a picker is open.\<close>

fun ui_ok :: "screen \<Rightarrow> ui_event \<Rightarrow> bool" where
  "ui_ok sc (FileLoaded d) = (pl_inv d \<and> popups sc = [])"
| "ui_ok sc _ = True"

inductive ui_safe :: "screen \<Rightarrow> bool" where
  boot: "pl_inv (boot slot) \<Longrightarrow> ui_safe (boot_screen slot)"
| event: "ui_safe sc \<Longrightarrow> ui_ok sc e \<Longrightarrow> ui_safe (ui_step sc e)"

text \<open>What the screen invariant keeps: every picker offers only existing playlists.\<close>

definition pickers_live :: "screen \<Rightarrow> bool" where
  "pickers_live sc \<longleftrightarrow>
     (\<forall>pk \<in> set (popups sc). fst ` set (pk_options pk) \<subseteq> tbl_ids (playlists (db (page sc))))"

text \<open>Every card's button names what it does next: Hide while the entries are shown,
  View while they are hidden, and a shown card has been filled.\<close>

definition cards_labelled :: "screen \<Rightarrow> bool" where
  "cards_labelled sc \<longleftrightarrow>
     (\<forall>c \<in> set (cards sc). card_label c = (if card_hidden c then ''View'' else ''Hide'') \<and>
                           (card_hidden c \<or> card_items c \<noteq> None))"

subsection \<open>Example\<close>

text \<open>A file exported before the example's playlist was created: the same questions,
  no playlists.\<close>

definition ex_old_file :: db where
  "ex_old_file = ex_db\<lparr>playlists := [], playlist_items := []\<rparr>"

subsection \<open>Handlers on the screen\<close>

lemma run_handler_simps [simp]:
  "page (run_handler e sc) = result (step (page sc) e)"
  "popups (run_handler e sc) = popups sc"
  "downloads (run_handler e sc) = downloads sc"
  by (simp_all add: run_handler_def split: outcome.split)

lemma dismiss_simps [simp]:
  "page (dismiss sc) = page sc" "cards (dismiss sc) = cards sc"
  "popups (dismiss sc) = []" "downloads (dismiss sc) = downloads sc"
  by (simp_all add: dismiss_def)

lemma pick_simps [simp]:
  "page (pick sc pk p) = result (step (page sc) (PickPlaylist p (pk_question pk)))"
  "downloads (pick sc pk p) = downloads sc"
  "popups (pick sc pk p) = [] \<or> popups (pick sc pk p) = [pk]"
  by (simp_all add: pick_def split: outcome.split)

lemma pick_target_Some:
  "pick_target ps i j = Some (pk, p) \<Longrightarrow> pk \<in> set ps \<and> p \<in> fst ` set (pk_options pk)"
  by (auto simp: pick_target_def split: if_splits)

lemma render_cards_db: "db s = db t \<Longrightarrow> render_cards s = render_cards t"
  by (simp add: render_cards_def playlist_cards_def)

subsection \<open>Downloads\<close>

lemma downloads_ui_step: "\<exists>ys. downloads (ui_step sc e) = downloads sc @ ys"
  by (cases e) (auto split: option.splits prod.splits)

lemma downloads_ui_run: "\<exists>ys. downloads (ui_run sc es) = downloads sc @ ys"
proof (induction es arbitrary: sc)
  case Nil
  show ?case by (simp add: ui_run_def)
next
  case (Cons e es)
  obtain ys where "downloads (ui_step sc e) = downloads sc @ ys" using downloads_ui_step by blast
  moreover obtain zs where "downloads (ui_run (ui_step sc e) es) = downloads (ui_step sc e) @ zs"
    using Cons.IH by blast
  ultimately show ?case by (simp add: ui_run_def)
qed

lemma export_download:
  "downloads (ui_run (ui_step sc ExportBtn) es) ! length (downloads sc) = exportDb (page sc)"
proof -
  obtain ys where "downloads (ui_run (ui_step sc ExportBtn) es) = downloads (ui_step sc ExportBtn) @ ys"
    using downloads_ui_run by blast
  then show ?thesis by (simp add: nth_append)
qed

text \<open>Exporting the database and later importing the downloaded file, after
  any actions in between, gives back exactly the exported database as the live one,
  saved to the slot so that a reload shows it too, and the playlist panel as it was
  rendered for the exported database.\<close>

lemma export_import_roundtrip:
  "let sc1 = ui_run (ui_step sc ExportBtn) es;
       f = downloads sc1 ! length (downloads sc);
       sc2 = ui_step sc1 (FileLoaded (snd f))
   in fst f = ''studyme-db.sqlite'' \<and> db (page sc2) = db (page sc) \<and> durable (page sc2) \<and>
      cards sc2 = render_cards (page sc)"
  using export_download [of sc es]
  by (auto simp: Let_def exportDb_def run_handler_def importDb_def save_def durable_def
           intro: render_cards_db)

subsection \<open>Pickers and orphan rows\<close>

lemma pickers_live_frame:
  "pickers_live sc \<Longrightarrow> popups sc' = popups sc \<Longrightarrow>
   playlists (db (page sc')) = playlists (db (page sc)) \<Longrightarrow> pickers_live sc'"
  by (simp add: pickers_live_def)

lemma pickers_live_none: "popups sc = [] \<Longrightarrow> pickers_live sc"
  by (simp add: pickers_live_def)

lemma run_handler_pl_inv:
  "pl_inv (db (page sc)) \<Longrightarrow> pl_event_ok (page sc) e \<Longrightarrow> pl_inv (db (page (run_handler e sc)))"
  by (simp add: step_pl_inv)

lemma addToPlaylist_playlists: "playlists (db (result (addToPlaylist p q s))) = playlists (db s)"
  using addToPlaylist_db(1) [of p q s] by auto

text \<open>The screen invariant: no orphan rows, and every open picker offers only existing
  playlists.\<close>

lemma ui_safe_inv:
  assumes "ui_safe sc"
  shows "pl_inv (db (page sc)) \<and> pickers_live sc"
  using assms
proof (induction rule: ui_safe.induct)
  case (boot slot)
  then show ?case by (simp add: boot_screen_def init_app_def pickers_live_none)
next
  case (event sc e)
  then have inv: "pl_inv (db (page sc))" and live: "pickers_live sc" by simp_all
  show ?case
  proof (cases e)
    case (AddBtn q)
    have "pickers_live (ui_step sc e)"
      using picker_options_live [of "page sc"] by (simp add: AddBtn pickers_live_def open_picker_def)
    with inv AddBtn show ?thesis by simp
  next
    case (OptionBtn i j)
    show ?thesis
    proof (cases "pick_target (popups sc) i j")
      case None
      with inv OptionBtn show ?thesis by (simp add: pickers_live_none)
    next
      case (Some a)
      then obtain pk p where t: "pick_target (popups sc) i j = Some (pk, p)" by (cases a) auto
      with live have ok: "p \<in> tbl_ids (playlists (db (page sc)))"
        by (auto simp: pickers_live_def dest!: pick_target_Some)
      then have "pl_inv (db (page (pick sc pk p)))"
        using step_pl_inv [OF inv, of "PickPlaylist p (pk_question pk)"] by simp
      moreover have "pickers_live (pick sc pk p)"
      proof (cases "popups (pick sc pk p) = []")
        case True
        then show ?thesis by (rule pickers_live_none)
      next
        case False
        then have "popups (pick sc pk p) = [pk]" using pick_simps(3) [of sc pk p] by blast
        moreover have "pk \<in> set (popups sc)" using pick_target_Some [OF t] by blast
        ultimately show ?thesis using live addToPlaylist_playlists
          by (auto simp: pickers_live_def)
      qed
      ultimately show ?thesis by (simp add: OptionBtn t)
    qed
  next
    case (PdfParsed pages)
    have "pickers_live (ui_step sc e)"
      by (rule pickers_live_frame [OF live]) (simp_all add: PdfParsed handlePdfUpload_pl)
    with inv PdfParsed show ?thesis by (simp add: step_pl_inv del: step.simps)
  next
    case (FileLoaded d)
    with event.hyps(2) have "pl_inv d" "popups sc = []" by simp_all
    with FileLoaded show ?thesis by (simp add: importDb_def save_def pickers_live_none)
  qed (use inv in \<open>auto simp: step_pl_inv pickers_live_none simp del: step.simps
                         split: option.splits\<close>)
qed

text \<open>Claim C33. Through the page's controls no item row is ever orphaned: from a slot
  without orphan rows, whatever the user clicks, every picker option names an existing
  playlist, so long as each imported file has no orphan rows and no import finishes
  while a picker is open (the one way to keep a picker open across a change of the
  playlists, C28).\<close>

theorem ui_no_orphans:
  assumes "ui_safe sc"
  shows "pl_inv (db (page sc))"
  using ui_safe_inv [OF assms] by simp

text \<open>Every screen the page can reach keeps its cards' labels right.\<close>

lemma new_card_labelled: "card_label (new_card c) = ''View'' \<and> card_hidden (new_card c)"
  by (simp add: new_card_def split: prod.split)

lemma render_cards_labelled:
  "c \<in> set (render_cards s) \<Longrightarrow> card_label c = ''View'' \<and> card_hidden c"
  by (auto simp: render_cards_def new_card_labelled)

lemma cards_labelled_render: "cards_labelled (sc\<lparr>cards := render_cards s\<rparr>)"
  by (auto simp: cards_labelled_def dest: render_cards_labelled)

lemma cards_labelled_toggle:
  "cards_labelled sc \<Longrightarrow> i < length (cards sc) \<Longrightarrow>
   cards_labelled (sc\<lparr>cards := (cards sc)[i := toggle_card s (cards sc ! i)]\<rparr>)"
  by (auto simp: cards_labelled_def toggle_card_def dest!: set_update_subset_insert [THEN subsetD])

lemma cards_labelled_run_handler: "cards_labelled sc \<Longrightarrow> cards_labelled (run_handler e sc)"
  by (auto simp: run_handler_def cards_labelled_def simp del: step.simps dest: render_cards_labelled
           split: outcome.split)

lemma cards_labelled_dismiss: "cards_labelled sc \<Longrightarrow> cards_labelled (dismiss sc)"
  by (simp add: cards_labelled_def)

lemma ui_reachable_labelled: "ui_reachable sc \<Longrightarrow> cards_labelled sc"
proof (induction rule: ui_reachable.induct)
  case (boot slot)
  then show ?case using cards_labelled_render [where sc = "boot_screen slot"] by (simp add: boot_screen_def)
next
  case (event sc e)
  then show ?case
    by (cases e)
       (auto simp: cards_labelled_dismiss cards_labelled_run_handler cards_labelled_toggle pick_def
             split: option.splits outcome.splits,
        auto simp: cards_labelled_def)
qed

subsection \<open>What the screen does not refresh\<close>

text \<open>An import replaces the database and rebuilds the lists, but keeps the selected
  board of the replaced database and the paper generated from it (lines 396--405).\<close>

lemma import_keeps_view:
  "db (page (ui_step sc (FileLoaded d))) = d \<and>
   current_board (page (ui_step sc (FileLoaded d))) = current_board (page sc) \<and>
   generated (page (ui_step sc (FileLoaded d))) = generated (page sc)"
  by (simp add: importDb_def save_def)


subsection \<open>Examples\<close>

lemmas screen_ex_simps = dismiss_def boot_screen_def ex_simps render_cards_def playlist_cards_def new_card_def
        sel_playlists_def sel_item_count_def need_def tbl_count_def tbl_select_def toggle_card_def
        playlist_contents_def sel_playlist_contents_def open_picker_def picker_options_def
        pick_target_def pick_def addToPlaylist_def stmt_def ins_item_def tbl_insert_def
        next_rowid_def save_def

theorem ui_no_orphans_witness:
  "ui_safe (ui_step (ui_step (boot_screen (Some ex_db)) (AddBtn 2)) (OptionBtn 0 0)) \<and>
   pl_inv (db (page (ui_step (ui_step (boot_screen (Some ex_db)) (AddBtn 2)) (OptionBtn 0 0))))"
proof -
  have s: "ui_safe (ui_step (ui_step (boot_screen (Some ex_db)) (AddBtn 2)) (OptionBtn 0 0))"
    by (intro ui_safe.intros) (simp_all add: ex_simps pl_inv_def tbl_ids_def)
  show ?thesis using ui_no_orphans [OF s] s by simp
qed

text \<open>Claim C32. The picker's insert (line 199) does not call \<^verbatim>\<open>renderPlaylists\<close>,
  although the views are to be refreshed after an item is added: whichever option of
  whichever open picker is clicked, the item is stored and the picker closes, but every
  playlist card keeps the count and the entries it showed before.\<close>

theorem picker_add_stale_card:
  assumes t: "pick_target (popups sc) i j = Some (pk, p)"
    and s: "PlaylistItems \<in> schema (db (page sc))"
  shows "cards (ui_step sc (OptionBtn i j)) = cards sc \<and> popups (ui_step sc (OptionBtn i j)) = [] \<and>
         pl_items p (db (page (ui_step sc (OptionBtn i j)))) = add_mset (pk_question pk) (pl_items p (db (page sc)))"
  using addToPlaylist_Done [OF s, of p "pk_question pk"] t
  by (simp add: pick_def save_def pl_items_items)

theorem picker_add_stale_card_witness:
  "card_count (cards (ui_step (ui_step (ui_step (boot_screen (Some ex_db)) (ViewBtn 0)) (AddBtn 2)) (OptionBtn 0 0)) ! 0) = 2 \<and>
   size (pl_items 1 (db (page (ui_step (ui_step (ui_step (boot_screen (Some ex_db)) (ViewBtn 0)) (AddBtn 2)) (OptionBtn 0 0))))) = 3"
proof -
  let ?sc = "ui_step (ui_step (boot_screen (Some ex_db)) (ViewBtn 0)) (AddBtn 2)"
  have t: "pick_target (popups ?sc) 0 0 = Some (open_picker 2 (page ?sc), 1)"
    by (simp add: screen_ex_simps)
  have s: "PlaylistItems \<in> schema (db (page ?sc))"
    by (simp add: screen_ex_simps)
  have c: "card_count (cards ?sc ! 0) = 2" and n: "size (pl_items 1 (db (page ?sc))) = 2"
    by (simp_all add: screen_ex_simps pl_items_def)
  show ?thesis using picker_add_stale_card [OF t s] c n by (simp add: open_picker_def)
qed

text \<open>Claim C28. A picker stays open across an import, because the file's
  \<^verbatim>\<open>onload\<close> is not a click: its options name the playlists of the replaced
  database. Picking an option whose playlist the imported database does not have inserts
  an orphan item row, and SQLite gives the next new playlist the next id (one more than
  the largest in use); when that is the picked id, the playlist the user creates next
  starts out holding the question picked before it existed.\<close>

theorem stale_picker_resurrects:
  assumes t: "pick_target (popups sc) i j = Some (pk, p)"
    and s: "Playlists \<in> schema d" "PlaylistItems \<in> schema d"
    and inv: "pl_inv d" and p: "p = next_rowid (playlists d)" and v: "trim v \<noteq> []"
  shows "\<not> pl_inv (db (page (ui_run sc [FileLoaded d, OptionBtn i j]))) \<and>
         abs_pl (db (page (ui_run sc [FileLoaded d, OptionBtn i j, CreatePlaylistBtn v]))) p =
           Some (trim v, {#pk_question pk#})"
proof -
  let ?sc1 = "ui_step sc (FileLoaded d)"
  let ?d2 = "d\<lparr>playlist_items := playlist_items d @
               [(next_rowid (playlist_items d), \<lparr>pi_playlist = p, pi_question = pk_question pk\<rparr>)]\<rparr>"
  have d1: "db (page ?sc1) = d" and t1: "pick_target (popups ?sc1) i j = Some (pk, p)"
    using t by (simp_all add: importDb_def save_def)
  have d2: "db (page (ui_step ?sc1 (OptionBtn i j))) = ?d2"
    using t1 addToPlaylist_Done [of "page ?sc1" p "pk_question pk"] s(2) d1 by (simp add: pick_def save_def)
  have d3: "db (page (ui_step (ui_step ?sc1 (OptionBtn i j)) (CreatePlaylistBtn v))) =
              ?d2\<lparr>playlists := playlists d @ [(p, trim v)]\<rparr>"
    using createPlaylist_Done [of "page (ui_step ?sc1 (OptionBtn i j))" "trim v"] d2 s(1) v p t
    by (simp add: on_create_playlist_def save_def Let_def)
  have e: "pl_items p d = {#}" using pl_items_orphan [OF inv] p by simp
  have "\<not> pl_inv ?d2" using p by (auto simp: pl_inv_def)
  then show ?thesis using d2 d3 e p
    by (simp add: ui_run_def abs_pl_def pl_items_items tbl_lookup_snoc_fresh)
qed

theorem stale_picker_resurrects_witness:
  "ui_reachable (ui_run (ui_step (boot_screen (Some ex_db)) (AddBtn 2))
     [FileLoaded ex_old_file, OptionBtn 0 0, CreatePlaylistBtn ''Exam'']) \<and>
   abs_pl (db (page (ui_run (ui_step (boot_screen (Some ex_db)) (AddBtn 2))
     [FileLoaded ex_old_file, OptionBtn 0 0, CreatePlaylistBtn ''Exam'']))) 1 = Some (''Exam'', {#2#})"
proof -
  let ?sc = "ui_step (boot_screen (Some ex_db)) (AddBtn 2)"
  have t: "pick_target (popups ?sc) 0 0 = Some (open_picker 2 (page ?sc), 1)"
    by (simp add: screen_ex_simps)
  have s: "Playlists \<in> schema ex_old_file" "PlaylistItems \<in> schema ex_old_file"
    by (simp_all add: ex_old_file_def ex_simps)
  have i: "pl_inv ex_old_file" by (simp add: ex_old_file_def pl_inv_def)
  have p: "1 = next_rowid (playlists ex_old_file)" by (simp add: ex_old_file_def)
  have v: "trim ''Exam'' \<noteq> []" by (simp add: trim_def js_ws_def)
  have r: "ui_reachable (ui_run ?sc [FileLoaded ex_old_file, OptionBtn 0 0, CreatePlaylistBtn ''Exam''])"
    unfolding ui_run_def by (simp del: ui_step.simps) (intro ui_reachable.intros)
  show ?thesis using stale_picker_resurrects [OF t s i p v] r by (simp add: open_picker_def trim_def js_ws_def)
qed

text \<open>The PDF's questions go to the board selected when parsing finishes (line 258
  reads \<^verbatim>\<open>currentBoardId\<close> after the \<^verbatim>\<open>await\<close>s), not the one selected when the
  file was chosen: a board button clicked while the document is parsed moves them.\<close>

lemma pdf_board_at_completion:
  assumes "Questions \<in> schema (db (page sc))"
  shows "map snd (questions (db (page (ui_step sc (PdfParsed pages))))) =
         map snd (questions (db (page sc))) @ map (block_row (current_board (page sc))) (pdf_blocks pages)"
  using insert_blocks_rows [OF assms, of "pdf_blocks pages"]
  by (auto simp: handlePdfUpload_def save_def)

end
