(* ===== verification/Markup.thy ===== *)
theory Markup
  imports Render JS_String
begin

text \<open>
  The markup the render functions of \<^verbatim>\<open>src/app/index.js\<close> write: every
  \<^verbatim>\<open>innerHTML\<close> template string as the string it evaluates to, every
  \<^verbatim>\<open>textContent\<close> as the plain text it sets, and each view as its placeholder or its
  list of items. A template literal \<^verbatim>\<open>${x}\<close> is the value's string:
  \<open>string_of_int\<close> for numbers, \<open>escapeHtml\<close> where the code escapes, the raw text
  where it does not. HOL characters are 8-bit; the one character of the templates outside
  Latin-1, the em dash, is written as its character reference \<^verbatim>\<open>&mdash;\<close>, which
  the HTML parser turns into the same character (as the templates' other entities).

  The lemmas count the \<open><\<close> characters of each template's result, the only
  character that opens a tag. In every view the count is the template's own: user text
  never opens a tag. The exception is the question card of \<^verbatim>\<open>renderQuestions\<close>,
  which writes the board name unescaped (line 168).
\<close>

subsection \<open>Template pieces\<close>

definition em_dash :: string where
  "em_dash = ''&mdash;''"

text \<open>The number of characters that can open a tag.\<close>

definition lt_count :: "string \<Rightarrow> nat" where
  "lt_count s = count_list s CHR ''<''"

text \<open>\<^verbatim>\<open>${year || ''}\<close> and \<^verbatim>\<open>if (year) ... textContent = year\<close>: the year when it is
  neither \<^verbatim>\<open>null\<close> nor 0.\<close>

fun year_text :: "int option \<Rightarrow> string" where
  "year_text None = []"
| "year_text (Some y) = (if y = 0 then [] else string_of_int y)"

subsection \<open>The question list\<close>

text \<open>Line 168: the card's header and text. The board name is interpolated as it is.\<close>

definition qcard_html :: "qview \<Rightarrow> string" where
  \<open>qcard_html v =
     ''<div class="flex justify-between"><div class="text-sm font-medium">'' @ js_or_str (v_board v) [] @
     '' '' @ em_dash @ '' '' @ string_of_int (v_marks v) @
     '' marks</div><div class="text-xs text-slate-500">'' @ year_text (v_year v) @
     ''</div></div><div class="mt-2 text-sm">'' @ escapeHtml (v_text v) @ ''</div>''\<close>

text \<open>Lines 171--175: the badges, as the texts their \<^verbatim>\<open>textContent\<close> gets: board,
  subject, chapter and year when truthy, then the occurrence count and the sign
  \<open>\<times>\<close> (Latin-1 \<open>0xD7\<close>).\<close>

definition qcard_badges :: "qview \<Rightarrow> nat \<Rightarrow> string list" where
  "qcard_badges v occ =
     (if js_or_str (v_board v) [] \<noteq> [] then [js_or_str (v_board v) []] else []) @
     (if js_or_str (v_subject v) [] \<noteq> [] then [js_or_str (v_subject v) []] else []) @
     (if js_or_str (v_chapter v) [] \<noteq> [] then [js_or_str (v_chapter v) []] else []) @
     (if year_text (v_year v) \<noteq> [] then [year_text (v_year v)] else []) @
     [digits_of_nat occ @ [CHR 0xD7]]"

text \<open>Line 178: the Add-to-playlist button carrying the question id.\<close>

definition qcard_button :: "qview \<Rightarrow> string" where
  \<open>qcard_button v =
     ''<button class="px-2 py-1 bg-indigo-600 text-white rounded" data-id="'' @ string_of_int (v_id v) @
     ''">Add to playlist</button>''\<close>

text \<open>\<^verbatim>\<open>renderQuestions\<close> (lines 148--184): one card per listed question.\<close>

definition question_list_view :: "app \<Rightarrow> (string \<times> string list \<times> string) list" where
  "question_list_view s =
     map (\<lambda>(v, occ). (qcard_html v, qcard_badges v occ, qcard_button v)) (question_cards s)"

subsection \<open>Placeholders\<close>

text \<open>A view shows either a placeholder (written as markup) or its items.\<close>

datatype 'a shown = Placeholder string | Items "'a list"

definition shown_or :: "string \<Rightarrow> 'a list \<Rightarrow> 'a shown" where
  "shown_or msg xs = (if xs = [] then Placeholder msg else Items xs)"

text \<open>\<^verbatim>\<open>renderBoards\<close> (lines 53--70): one button per board with the name as its
  \<^verbatim>\<open>textContent\<close>, or the placeholder when the query has no rows (sql.js returns no
  result set then).\<close>

definition boards_view :: "app \<Rightarrow> string shown" where
  \<open>boards_view s = shown_or ''<div class="text-sm text-slate-500">No boards yet</div>''
                              (map snd (board_list s))\<close>

subsection \<open>Playlists\<close>

text \<open>Line 288: the count and the plural.\<close>

definition count_label :: "nat \<Rightarrow> string" where
  "count_label c = digits_of_nat c @ '' question'' @ (if c \<noteq> 1 then ''s'' else [])"

text \<open>Lines 286--289: the card header; the template spans four source lines, so its
  text holds their line feeds and indentation.\<close>

definition pl_header_html :: "string \<Rightarrow> nat \<Rightarrow> string" where
  \<open>pl_header_html name c =
     ''<div>'' @ [CHR 0x0A, CHR 0x09, CHR 0x09, CHR 0x09] @
     ''<div class="text-lg font-semibold">'' @ escapeHtml name @ ''</div>'' @
     [CHR 0x0A, CHR 0x09, CHR 0x09, CHR 0x09] @
     ''<div class="playlist-meta">'' @ count_label c @ ''</div>'' @
     [CHR 0x0A, CHR 0x09, CHR 0x09] @ ''</div>''\<close>

text \<open>Line 339: one entry of \<^verbatim>\<open>showPlaylistContents\<close>, with the preview.\<close>

definition entry_html :: "int \<Rightarrow> string \<Rightarrow> string" where
  \<open>entry_html marks text =
     ''<div class="text-sm font-medium">'' @ string_of_int marks @
     '' marks</div><div class="text-sm mt-1 text-slate-700">'' @ preview text @ ''</div>''\<close>

text \<open>\<^verbatim>\<open>showPlaylistContents\<close> (lines 327--351): the placeholder of line 331 or one
  entry per row.\<close>

definition contents_view :: "int \<Rightarrow> app \<Rightarrow> string shown" where
  \<open>contents_view p s =
     shown_or ''<div class="text-sm text-slate-500">No questions in this playlist</div>''
       (map (\<lambda>(q, t, m). entry_html m t) (playlist_contents p s))\<close>

subsection \<open>The generated paper\<close>

text \<open>Lines 378--383: the heading, then one entry per picked question.\<close>

definition paper_heading :: string where
  \<open>paper_heading = ''<h4 class="font-medium">Generated MTP</h4>''\<close>

definition paper_entry_html :: "int \<Rightarrow> string \<Rightarrow> string" where
  \<open>paper_entry_html marks text =
     ''<div class="text-sm font-medium">'' @ string_of_int marks @ '' marks</div><div class="text-sm">'' @
     escapeHtml text @ ''</div>''\<close>

definition paper_view :: "app \<Rightarrow> string \<times> string list" where
  "paper_view s = (paper_heading, map (\<lambda>(i, t, m). paper_entry_html m t) (generated s))"

subsection \<open>The board page's header\<close>

text \<open>\<^verbatim>\<open>SELECT name FROM boards WHERE id=?\<close> (line 135).\<close>

definition sel_board_name :: "int \<Rightarrow> db \<Rightarrow> sql_error + string list" where
  "sel_board_name b d = need [Boards] d (\<lambda>d. case tbl_lookup (boards d) b of None \<Rightarrow> [] | Some n \<Rightarrow> [n])"

text \<open>Line 136: \<^verbatim>\<open>(bres.length && bres[0].values[0][0]) || 'Board'\<close>.\<close>

definition board_title :: "int \<Rightarrow> app \<Rightarrow> string" where
  "board_title b s = (case run_query (sel_board_name b (db s)) of
                        [] \<Rightarrow> ''Board''
                      | n # _ \<Rightarrow> if n = [] then ''Board'' else n)"

text \<open>Line 137.\<close>

definition board_header_html :: "int \<Rightarrow> app \<Rightarrow> string" where
  \<open>board_header_html b s =
     ''<div class="mb-4"><div class="text-2xl font-semibold">'' @ escapeHtml (board_title b s) @
     ''</div><div class="text-sm text-slate-500">Channel page '' @ em_dash @
     '' playlists and questions for '' @ escapeHtml (board_title b s) @ ''</div></div>''\<close>

subsection \<open>The dashboard\<close>

text \<open>Line 92: a board's channel card, its cover image named after the board id.\<close>

definition dash_board_html :: "int \<Rightarrow> string \<Rightarrow> string" where
  \<open>dash_board_html i name =
     ''<div class="channel-cover" style="background-image:linear-gradient(180deg, rgba(99,102,241,0.08), rgba(99,102,241,0.02)), url('https://picsum.photos/seed/board'' @
     string_of_int i @
     ''/800/400')"></div><div class="mt-3"><div class="channel-title">'' @ escapeHtml name @
     ''</div><div class="text-sm text-slate-500">Channel for '' @ escapeHtml name @ '' board</div></div>''\<close>

text \<open>Line 111: a featured playlist's thumbnail style; line 114: its caption.\<close>

definition thumb_style :: "int \<Rightarrow> string" where
  "thumb_style p =
     ''linear-gradient(180deg, rgba(0,0,0,0.04), rgba(0,0,0,0.02)), url(https://picsum.photos/seed/playlist'' @
     string_of_int p @ ''/400/240)''"

definition dash_playlist_html :: "string \<Rightarrow> string" where
  \<open>dash_playlist_html name =
     ''<div class="font-medium">'' @ escapeHtml name @ ''</div><div class="text-sm text-slate-500">Playlist</div>''\<close>

text \<open>\<^verbatim>\<open>renderDashboard\<close> (lines 79--126): the board cards or the placeholder of
  line 97, the featured playlists or that of line 124.\<close>

definition dashboard_view :: "app \<Rightarrow> string shown \<times> (string \<times> string) shown" where
  \<open>dashboard_view s =
     (shown_or (''<div class="text-sm text-slate-500">No boards yet '' @ em_dash @ '' create one.</div>'')
        (map (\<lambda>(i, n). dash_board_html i n) (fst (dashboard s))),
      shown_or ''<div class="text-sm text-slate-500">No playlists yet</div>''
        (map (\<lambda>(p, n). (thumb_style p, dash_playlist_html n)) (snd (dashboard s))))\<close>

subsection \<open>Counting tag openers\<close>

lemma lt_count_simps [simp]:
  "lt_count [] = 0"
  "lt_count (x # xs) = (if x = CHR ''<'' then Suc (lt_count xs) else lt_count xs)"
  "lt_count (xs @ ys) = lt_count xs + lt_count ys"
  by (simp_all add: lt_count_def)

lemma lt_count_none: "CHR ''<'' \<notin> set xs \<Longrightarrow> lt_count xs = 0"
  by (simp add: lt_count_def)

lemma lt_count_escapeHtml [simp]: "lt_count (escapeHtml s) = 0"
  by (rule lt_count_none) (simp add: escapeHtml_def set_replace_all)

lemma lt_count_preview [simp]: "lt_count (preview s) = 0"
proof (rule lt_count_none)
  have "CHR ''<'' \<notin> set (escapeHtml s)"
    using lt_count_escapeHtml [of s] by (simp add: lt_count_def count_list_0_iff)
  then show "CHR ''<'' \<notin> set (preview s)"
    using set_take_subset [of 200 "escapeHtml s"] by (auto simp: preview_def)
qed

lemma lt_count_digits [simp]: "lt_count (digits_of_nat n) = 0"
proof (rule lt_count_none)
  have "c \<noteq> CHR ''<''" if c: "c \<in> set (digits_of_nat n)" for c
  proof -
    obtain d where "d < 10" "c = ''0123456789'' ! d" using digits_of_nat_digits [OF c] by blast
    moreover have "length ''0123456789'' = 10" by simp
    ultimately have "c \<in> set ''0123456789''" by (metis nth_mem)
    then show ?thesis by auto
  qed
  then show "CHR ''<'' \<notin> set (digits_of_nat n)" by blast
qed

lemma lt_count_string_of_int [simp]: "lt_count (string_of_int i) = 0"
  by (simp add: string_of_int_def)

lemma lt_count_year_text [simp]: "lt_count (year_text y) = 0"
  by (cases y) simp_all

lemma lt_count_count_label [simp]: "lt_count (count_label c) = 0"
  by (simp add: count_label_def)

lemma lt_count_em_dash [simp]: "lt_count em_dash = 0"
  by (simp add: em_dash_def)

text \<open>Claim C12. In the markup of every view, each character that opens a tag comes
  from the template: names, question texts and numbers never add one. The one exception
  is the question card's header, which writes the board name unescaped (line 168), so
  every \<open><\<close> in a board name opens a tag there.\<close>

theorem markup_escapes_user_text:
  "lt_count (qcard_html v) = 8 + lt_count (js_or_str (v_board v) []) \<and>
   lt_count (qcard_button v) = 2 \<and>
   lt_count (pl_header_html name c) = 6 \<and>
   lt_count (entry_html m text) = 4 \<and>
   lt_count (paper_entry_html m text) = 4 \<and>
   lt_count (board_header_html b s) = 6 \<and>
   lt_count (dash_board_html i name) = 8 \<and>
   lt_count (dash_playlist_html name) = 4"
  by (simp add: qcard_html_def qcard_button_def pl_header_html_def entry_html_def
        paper_entry_html_def board_header_html_def dash_board_html_def dash_playlist_html_def)

end
