(* ===== verification/Persist.thy ===== *)
theory Persist
  imports Prelude
begin

text \<open>
  The durable slot's encoding. \<^verbatim>\<open>saveDBToLocalStorage\<close> (\<^verbatim>\<open>src/app/index.js\<close>
  lines 31--35) turns the bytes of \<^verbatim>\<open>db.export()\<close> into a string of char codes
  0--255 (\<^verbatim>\<open>String.fromCharCode\<close>) and stores its base64 encoding
  (\<^verbatim>\<open>btoa\<close>); \<^verbatim>\<open>initDB\<close> (lines 6--13) decodes a non-empty slot with
  \<^verbatim>\<open>atob\<close> and reads the char codes back into a \<^verbatim>\<open>Uint8Array\<close>. A byte is an
  \<open>8 word\<close>; the three bytes of a base64 group become four 6-bit values by shifts and
  masks, as RFC 4648 specifies \<^verbatim>\<open>btoa\<close>; \<^verbatim>\<open>atob\<close> is the forgiving-base64 decode
  of the HTML standard (ASCII whitespace dropped, up to two \<^verbatim>\<open>=\<close> removed when the
  length is a multiple of 4, failure on length 1 mod 4 or a character outside the
  alphabet, leftover bits discarded). A HOL character has 8 bits, so the
  \<^verbatim>\<open>InvalidCharacterError\<close> of \<^verbatim>\<open>btoa\<close> on a code above 255 has no counterpart:
  \<^verbatim>\<open>String.fromCharCode\<close> of bytes never produces one.
\<close>

unbundle bit_operations_syntax

type_synonym byte = "8 word"

subsection \<open>Characters and bytes\<close>

text \<open>\<^verbatim>\<open>String.fromCharCode(b)\<close> for a byte, and \<^verbatim>\<open>c.charCodeAt(0)\<close> stored into a
  \<^verbatim>\<open>Uint8Array\<close> (reduced mod 256).\<close>

definition char_of_byte :: "byte \<Rightarrow> char" where
  "char_of_byte b = char_of (unat b)"

definition byte_of_char :: "char \<Rightarrow> byte" where
  "byte_of_char c = of_nat (of_char c)"

subsection \<open>Base64\<close>

definition b64_alphabet :: string where
  "b64_alphabet = ''ABCDEFGHIJKLMNOPQRSTUVWXYZabcdefghijklmnopqrstuvwxyz0123456789+/''"

definition b64_char :: "byte \<Rightarrow> char" where
  "b64_char v = b64_alphabet ! unat v"

fun pos_of :: "char \<Rightarrow> string \<Rightarrow> nat" where
  "pos_of c [] = 0"
| "pos_of c (x # xs) = (if x = c then 0 else Suc (pos_of c xs))"

definition b64_value :: "char \<Rightarrow> byte option" where
  "b64_value c = (let i = pos_of c b64_alphabet in if i < 64 then Some (of_nat i) else None)"

text \<open>The four 6-bit values of the bytes \<open>a b c\<close>, and the bytes of four 6-bit values.\<close>

definition sx1 :: "byte \<Rightarrow> byte" where "sx1 a = drop_bit 2 a"
definition sx2 :: "byte \<Rightarrow> byte \<Rightarrow> byte" where "sx2 a b = push_bit 4 (a AND 3) OR drop_bit 4 b"
definition sx3 :: "byte \<Rightarrow> byte \<Rightarrow> byte" where "sx3 b c = push_bit 2 (b AND 15) OR drop_bit 6 c"
definition sx4 :: "byte \<Rightarrow> byte" where "sx4 c = c AND 63"

definition dc1 :: "byte \<Rightarrow> byte \<Rightarrow> byte" where "dc1 w x = push_bit 2 w OR drop_bit 4 x"
definition dc2 :: "byte \<Rightarrow> byte \<Rightarrow> byte" where "dc2 x y = push_bit 4 x OR drop_bit 2 y"
definition dc3 :: "byte \<Rightarrow> byte \<Rightarrow> byte" where "dc3 y z = push_bit 6 y OR z"

text \<open>A last group of one or two bytes is completed with zero bits.\<close>

fun b64_sextets :: "byte list \<Rightarrow> byte list" where
  "b64_sextets (a # b # c # rest) = [sx1 a, sx2 a b, sx3 b c, sx4 c] @ b64_sextets rest"
| "b64_sextets [a, b] = [sx1 a, sx2 a b, sx3 b 0]"
| "b64_sextets [a] = [sx1 a, sx2 a 0]"
| "b64_sextets [] = []"

definition b64_pad :: "nat \<Rightarrow> string" where
  "b64_pad n = replicate ((3 - n mod 3) mod 3) (CHR ''='')"

text \<open>\<^verbatim>\<open>btoa\<close>.\<close>

definition btoa :: "string \<Rightarrow> string" where
  "btoa s = (let bs = map byte_of_char s in map b64_char (b64_sextets bs) @ b64_pad (length bs))"

fun b64_ungroup :: "byte list \<Rightarrow> byte list" where
  "b64_ungroup (w # x # y # z # rest) = [dc1 w x, dc2 x y, dc3 y z] @ b64_ungroup rest"
| "b64_ungroup [w, x, y] = [dc1 w x, dc2 x y]"
| "b64_ungroup [w, x] = [dc1 w x]"
| "b64_ungroup _ = []"

definition ascii_ws :: "char \<Rightarrow> bool" where
  "ascii_ws c \<longleftrightarrow> of_char c \<in> {9, 10, 12, 13, 32 :: nat}"

definition strip_pad :: "string \<Rightarrow> string" where
  "strip_pad s =
     (if length s mod 4 = 0 \<and> drop (length s - 2) s = ''=='' then take (length s - 2) s
      else if length s mod 4 = 0 \<and> drop (length s - 1) s = ''='' then take (length s - 1) s
      else s)"

text \<open>\<^verbatim>\<open>atob\<close>; \<open>None\<close> is the \<^verbatim>\<open>InvalidCharacterError\<close> it throws.\<close>

definition atob :: "string \<Rightarrow> string option" where
  "atob s =
     (let d = strip_pad (filter (\<lambda>c. \<not> ascii_ws c) s) in
      if length d mod 4 = 1 then None
      else map_option (\<lambda>vs. map char_of_byte (b64_ungroup vs)) (those (map b64_value d)))"

subsection \<open>The slot\<close>

text \<open>Line 33: the slot written for the exported bytes.\<close>

definition slot_of_bytes :: "byte list \<Rightarrow> string" where
  "slot_of_bytes data = btoa (map char_of_byte data)"

text \<open>Lines 6--13: an absent or empty slot gives a fresh database with the schema; a
  non-empty one is decoded (an \<^verbatim>\<open>atob\<close> failure rejects \<^verbatim>\<open>initDB\<close> before anything
  is rendered).\<close>

datatype boot_src = Fresh | Loaded "byte list" | BootFails

definition boot_bytes :: "string option \<Rightarrow> boot_src" where
  "boot_bytes slot =
     (case slot of
        None \<Rightarrow> Fresh
      | Some saved \<Rightarrow>
          if saved = [] then Fresh
          else (case atob saved of
                  None \<Rightarrow> BootFails
                | Some str \<Rightarrow> Loaded (map byte_of_char str)))"

subsection \<open>Bytes and characters\<close>

lemma byte_of_char_of_byte [simp]: "byte_of_char (char_of_byte b) = b"
proof -
  have "unat b < 256" using unsigned_less [of b] by simp
  then show ?thesis by (simp add: byte_of_char_def char_of_byte_def)
qed

lemma byte_of_char_comp [simp]: "byte_of_char \<circ> char_of_byte = id"
  by (simp add: fun_eq_iff)

subsection \<open>Bit groups\<close>

lemma less_8_cases:
  "n < LENGTH(8) \<Longrightarrow> n = 0 \<or> n = 1 \<or> n = 2 \<or> n = 3 \<or> n = 4 \<or> n = 5 \<or> n = 6 \<or> n = 7"
  by simp arith

lemmas byte_bit_simps = bit_simps numeral_2_eq_2 [symmetric]

lemma dc_sx:
  "dc1 (sx1 a) (sx2 a b) = a" "dc2 (sx2 a b) (sx3 b c) = b" "dc3 (sx3 b c) (sx4 c) = c"
  unfolding dc1_def dc2_def dc3_def sx1_def sx2_def sx3_def sx4_def
  by (rule bit_word_eqI, drule less_8_cases, auto simp: byte_bit_simps)+

lemma sx_small:
  "drop_bit 6 (sx1 a) = 0" "drop_bit 6 (sx2 a b) = 0" "drop_bit 6 (sx3 b c) = 0" "drop_bit 6 (sx4 c) = 0"
  unfolding sx1_def sx2_def sx3_def sx4_def
  by (rule bit_word_eqI, drule less_8_cases, auto simp: byte_bit_simps)+

lemma small_unat: "drop_bit 6 (v :: byte) = 0 \<Longrightarrow> unat v < 64"
proof -
  assume "drop_bit 6 v = 0"
  then have "drop_bit 6 (unat v) = 0" using unat_drop_bit_eq [of 6 v] by simp
  then show ?thesis by (simp add: drop_bit_eq_div)
qed

lemma b64_sextets_small: "v \<in> set (b64_sextets bs) \<Longrightarrow> unat v < 64"
  by (induction bs rule: b64_sextets.induct) (auto intro: small_unat simp: sx_small)

lemma length_b64_sextets: "length (b64_sextets bs) = (4 * length bs + 2) div 3"
  by (induction bs rule: b64_sextets.induct) simp_all

lemma b64_ungroup_sextets: "b64_ungroup (b64_sextets bs) = bs"
  by (induction bs rule: b64_sextets.induct) (simp_all add: dc_sx)

subsection \<open>The alphabet\<close>

lemma b64_alphabet_facts:
  "length b64_alphabet = 64" "distinct b64_alphabet" "CHR ''='' \<notin> set b64_alphabet"
  "\<forall>c \<in> set b64_alphabet. \<not> ascii_ws c"
  by (simp_all add: b64_alphabet_def ascii_ws_def)

lemma pos_of_nth: "distinct xs \<Longrightarrow> i < length xs \<Longrightarrow> pos_of (xs ! i) xs = i"
proof (induction xs arbitrary: i)
  case (Cons x xs)
  then show ?case by (cases i) (auto simp: nth_mem)
qed simp

lemma b64_char_in: "unat v < 64 \<Longrightarrow> b64_char v \<in> set b64_alphabet"
  by (simp add: b64_char_def b64_alphabet_facts(1))

lemma b64_value_char: "unat v < 64 \<Longrightarrow> b64_value (b64_char v) = Some v"
  by (simp add: b64_value_def b64_char_def pos_of_nth b64_alphabet_facts(1,2))

lemma those_b64_values:
  "\<forall>v \<in> set vs. unat v < 64 \<Longrightarrow> those (map (b64_value \<circ> b64_char) vs) = Some vs"
  by (induction vs) (simp_all add: b64_value_char)

subsection \<open>Padding\<close>

lemma div3_decomp: "(4 * n + 2) div 3 = 4 * (n div 3) + (4 * (n mod 3) + 2) div (3::nat)"
proof -
  have "4 * n + 2 = (4 * (n mod 3) + 2) + 3 * (4 * (n div 3))"
    using div_mult_mod_eq [of n 3] by linarith
  then show ?thesis by simp
qed

lemma div3_decomp2: "(n + 2) div 3 = n div 3 + (n mod 3 + 2) div (3::nat)"
proof -
  have "n + 2 = (n mod 3 + 2) + 3 * (n div 3)"
    using div_mult_mod_eq [of n 3] by linarith
  then show ?thesis by (simp only:)
qed

lemma mod3_cases: "n mod 3 = 0 \<or> n mod 3 = 1 \<or> n mod (3::nat) = 2"
  by arith

lemma length_b64_arith: "(4 * n + 2) div 3 + (3 - n mod 3) mod 3 = 4 * ((n + 2) div 3)" for n :: nat
proof -
  have "(4 * n + 2) div 3 = 4 * (n div 3) + (4 * (n mod 3) + 2) div 3" by (rule div3_decomp)
  moreover have "(n + 2) div 3 = n div 3 + (n mod 3 + 2) div 3" by (rule div3_decomp2)
  ultimately show ?thesis using mod3_cases [of n] by auto
qed

lemma length_b64_mod4: "(4 * n + 2) div 3 mod 4 \<noteq> (1::nat)"
proof -
  have "(4 * n + 2) div 3 = 4 * (n div 3) + (4 * (n mod 3) + 2) div 3" by (rule div3_decomp)
  then show ?thesis using mod3_cases [of n] by auto
qed

lemma drop_no_eq: "CHR ''='' \<notin> set cs \<Longrightarrow> drop j cs \<noteq> CHR ''='' # xs"
  by (metis in_set_dropD list.set_intros(1))

lemma strip_pad_no_eq: "CHR ''='' \<notin> set cs \<Longrightarrow> strip_pad cs = cs"
  by (simp add: strip_pad_def drop_no_eq)

lemma strip_pad_encoded:
  assumes eq: "CHR ''='' \<notin> set cs" and len: "length cs = (4 * n + 2) div 3"
  shows "strip_pad (cs @ b64_pad n) = cs"
proof -
  consider "n mod 3 = 0" | "n mod 3 = 1" | "n mod 3 = 2" by arith
  then show ?thesis
  proof cases
    case 1
    then show ?thesis by (simp add: b64_pad_def strip_pad_no_eq eq)
  next
    case 2
    then have pad: "b64_pad n = ''==''" by (simp add: b64_pad_def numeral_2_eq_2)
    from 2 len have "(length cs + 2) mod 4 = 0" by presburger
    then show ?thesis by (simp add: pad strip_pad_def)
  next
    case 3
    then have pad: "b64_pad n = ''=''" by (simp add: b64_pad_def)
    from 3 len have m: "(length cs + 1) mod 4 = 0" by presburger
    from 3 len have "0 < length cs" by presburger
    then have ne: "cs \<noteq> []" by auto
    have "drop (length cs - 1) cs \<noteq> ''=''" using drop_no_eq [OF eq] by simp
    then have "drop (length cs - 1) cs @ ''='' \<noteq> ''==''" by auto
    moreover have "drop (length cs + 1 - 2) (cs @ ''='') = drop (length cs - 1) cs @ ''=''"
      using ne by (cases cs rule: rev_cases) auto
    ultimately show ?thesis using m by (simp add: pad strip_pad_def)
  qed
qed

lemma length_b64_pad: "length (b64_pad n) = (3 - n mod 3) mod 3"
  by (simp add: b64_pad_def)

lemma b64_pad_chars: "set (b64_pad n) \<subseteq> {CHR ''=''}"
  by (auto simp: b64_pad_def)

subsection \<open>The encoded slot\<close>

lemma slot_of_bytes_parts:
  "slot_of_bytes data = map b64_char (b64_sextets data) @ b64_pad (length data)"
  by (simp add: slot_of_bytes_def btoa_def)

lemma slot_chars: "c \<in> set (slot_of_bytes data) \<Longrightarrow> c \<in> set b64_alphabet \<or> c = CHR ''=''"
  using b64_pad_chars by (auto simp: slot_of_bytes_parts intro: b64_char_in b64_sextets_small)

lemma slot_no_ws: "filter (\<lambda>c. \<not> ascii_ws c) (slot_of_bytes data) = slot_of_bytes data"
proof -
  have "\<not> ascii_ws CHR ''=''" by (simp add: ascii_ws_def)
  then show ?thesis
    using slot_chars [of _ data] b64_alphabet_facts(4) by (auto simp: filter_id_conv)
qed

lemma length_slot: "length (slot_of_bytes data) = 4 * ((length data + 2) div 3)"
  using length_b64_arith [of "length data"]
  by (simp add: slot_of_bytes_parts length_b64_sextets length_b64_pad)

lemma strip_pad_slot: "strip_pad (slot_of_bytes data) = map b64_char (b64_sextets data)"
proof -
  have "CHR ''='' \<notin> set (map b64_char (b64_sextets data))"
    using b64_alphabet_facts(3) b64_char_in b64_sextets_small by auto
  then show ?thesis
    by (simp add: slot_of_bytes_parts strip_pad_encoded length_b64_sextets)
qed

lemma atob_slot: "atob (slot_of_bytes data) = Some (map char_of_byte data)"
proof -
  have "length (b64_sextets data) mod 4 \<noteq> 1"
    using length_b64_mod4 [of "length data"] by (simp add: length_b64_sextets)
  moreover have "those (map (b64_value \<circ> b64_char) (b64_sextets data)) = Some (b64_sextets data)"
    using b64_sextets_small those_b64_values by blast
  ultimately show ?thesis
    by (simp add: atob_def slot_no_ws strip_pad_slot Let_def b64_ungroup_sextets)
qed

lemma slot_of_bytes_examples:
  "slot_of_bytes [0x48, 0x69] = ''SGk=''" "slot_of_bytes [0x4D, 0x61, 0x6E] = ''TWFu''"
  by (simp_all add: slot_of_bytes_parts b64_pad_def b64_char_def b64_alphabet_def
        sx1_def sx2_def sx3_def sx4_def)

subsection \<open>Decoding failures\<close>

lemma pos_of_notin: "c \<notin> set xs \<Longrightarrow> pos_of c xs = length xs"
  by (induction xs) auto

lemma b64_value_notin: "c \<notin> set b64_alphabet \<Longrightarrow> b64_value c = None"
  by (simp add: b64_value_def pos_of_notin b64_alphabet_facts(1))

lemma those_map_None: "x \<in> set xs \<Longrightarrow> f x = None \<Longrightarrow> those (map f xs) = None"
  by (induction xs) (auto split: option.splits)

lemma strip_pad_keeps: "c \<in> set s \<Longrightarrow> c \<noteq> CHR ''='' \<Longrightarrow> c \<in> set (strip_pad s)"
proof -
  assume c: "c \<in> set s" "c \<noteq> CHR ''=''"
  have "c \<in> set (take j s)" if "set (drop j s) \<subseteq> {CHR ''=''}" for j
    using c that append_take_drop_id [of j s] by (metis Un_iff set_append singletonD subsetD)
  then show ?thesis using c by (auto simp: strip_pad_def)
qed

text \<open>Claim C17. Saving and reloading gives back the exported bytes: the slot written
  for any byte string boots as that byte string, and an empty export boots as a fresh
  database.\<close>

theorem boot_bytes_slot:
  "boot_bytes (Some (slot_of_bytes data)) = (if data = [] then Fresh else Loaded data)"
proof -
  have "slot_of_bytes data = [] \<longleftrightarrow> data = []"
    using length_slot [of data] by (cases data) auto
  then show ?thesis by (simp add: boot_bytes_def atob_slot)
qed

text \<open>The slot is four base64 characters per started group of three bytes,
  all from the base64 alphabet or the padding character.\<close>

lemma slot_shape:
  "length (slot_of_bytes data) = 4 * ((length data + 2) div 3) \<and>
   set (slot_of_bytes data) \<subseteq> insert (CHR ''='') (set b64_alphabet)"
  using length_slot slot_chars by blast

text \<open>Claim C18. A slot holding a character that is neither whitespace, nor base64, nor
  padding makes \<^verbatim>\<open>atob\<close> throw: the page never finishes booting.\<close>

theorem corrupt_slot_fails:
  assumes "c \<in> set saved" and "\<not> ascii_ws c" and "c \<notin> set b64_alphabet" and "c \<noteq> CHR ''=''"
  shows "boot_bytes (Some saved) = BootFails"
proof -
  let ?d = "strip_pad (filter (\<lambda>c. \<not> ascii_ws c) saved)"
  have "c \<in> set ?d" using assms(1,2,4) by (auto intro: strip_pad_keeps)
  then have "those (map b64_value ?d) = None" using assms(3) by (auto intro: those_map_None b64_value_notin)
  moreover have "saved \<noteq> []" using assms(1) by auto
  ultimately show ?thesis by (simp add: boot_bytes_def atob_def Let_def)
qed

theorem corrupt_slot_fails_witness:
  "CHR ''%'' \<in> set ''QUJD%'' \<and> \<not> ascii_ws CHR ''%'' \<and> CHR ''%'' \<notin> set b64_alphabet \<and>
   CHR ''%'' \<noteq> CHR ''='' \<and> boot_bytes (Some ''QUJD%'') = BootFails"
proof -
  have h: "CHR ''%'' \<in> set ''QUJD%''" "\<not> ascii_ws CHR ''%''" "CHR ''%'' \<notin> set b64_alphabet"
    "CHR ''%'' \<noteq> CHR ''=''"
    by (simp_all add: ascii_ws_def b64_alphabet_def)
  show ?thesis using h corrupt_slot_fails [OF h] by simp
qed

end
