(* ===== verification/Spec2Isabelle.thy ===== *)
theory Spec2Isabelle
  imports Screen Markup Persist
begin

text \<open>
  \<^bold>\<open>A verification development of study.me.\<close>
  study.me (\<^verbatim>\<open>src/app/index.js\<close>) is a single-page question bank: boards,
  subjects, chapters and questions, playlists of questions, a mock-test-paper (MTP)
  generator, quick-add of questions from text, and ingestion of questions from a PDF.
  Its state is an in-browser SQLite database (sql.js) that every handler saves, as
  one base64 string, in the \<^verbatim>\<open>localStorage\<close> slot \<^verbatim>\<open>studyme_db\<close>, plus the
  selected board \<^verbatim>\<open>currentBoardId\<close> and the DOM. Handlers are the button
  callbacks wired at lines 407--417 and created by the render functions; each runs
  to completion, so a session is a sequence of handler runs.

  \<^bold>\<open>Theories.\<close>
  \<^item> \<open>Prelude\<close>: JavaScript truthiness and the \<open>x || d\<close> defaults the handlers
    use for ids, numbers and strings; lemmas on strictly increasing key lists; the
    rule collections \<open>table_simps\<close>, \<open>db_simps\<close>, \<open>handler_simps\<close>.
  \<^item> \<open>Table\<close>: an SQLite table with an \<^verbatim>\<open>INTEGER PRIMARY KEY\<close> as its rows in
    rowid order; insert takes \<open>max + 1\<close> (or 1), delete/select/count filter. Its
    invariant \<open>wf_table\<close> (positive, strictly increasing rowids) is kept by every
    operation.
  \<^item> \<open>Store\<close>: the six tables of \<^verbatim>\<open>createSchema\<close> (lines 19--29) as the record
    \<open>db\<close>, with the set of tables that exist (a database loaded from the slot or a
    file may lack some); every SQL statement of the code as one definition
    (\<open>ins_*\<close>, \<open>del_*\<close>, \<open>sel_*\<close>) returning \<open>NoSuchTable\<close> on a missing table;
    \<^verbatim>\<open>runQuery\<close> (lines 37--45) turning that error into no rows.
  \<^item> \<open>App\<close>: the page state \<open>app\<close> (live database, \<^verbatim>\<open>currentBoardId\<close>, the
    slot, the rows of \<^verbatim>\<open>#generated\<close>); boot (\<^verbatim>\<open>initDB\<close>, lines 4--17); the
    save (lines 31--35); a handler's result \<open>Done\<close> or \<open>Threw\<close>, an uncaught
    exception that keeps the writes made so far in memory and skips the save; the
    handlers \<^verbatim>\<open>createBoard\<close>, \<^verbatim>\<open>createPlaylist\<close>, \<^verbatim>\<open>renderBoardPage\<close>, the
    playlist picker's click (line 199), the playlist delete (lines 315--321) and
    remove (line 345) buttons, \<^verbatim>\<open>importDbFile\<close>; the data each render function
    shows (\<open>board_list\<close>, \<open>playlist_cards\<close>, \<open>question_cards\<close>,
    \<open>playlist_contents\<close>).
  \<^item> \<open>JS_String\<close>: the string built-ins the code calls: \<^verbatim>\<open>trim\<close>,
    \<^verbatim>\<open>split\<close> on a character, \<^verbatim>\<open>join\<close>, \<^verbatim>\<open>parseInt\<close> (whitespace, sign,
    \<^verbatim>\<open>0x\<close>, \<open>NaN\<close> as \<open>None\<close>) and \<^verbatim>\<open>String\<close> of an integer, with the round
    trip \<open>parse_int (string_of_int n) = Some n\<close>.
  \<^item> \<open>QuickAdd\<close>: \<^verbatim>\<open>addQuickQuestions\<close> (lines 213--241): line splitting, the field
    parser with its fallbacks, find-or-create of subject and chapter, the insert,
    and the save after the last line; the catalogue invariants it keeps
    (\<open>names_unique\<close>: one subject of a name per board, one chapter of a name per
    subject; \<open>questions_linked\<close>: a question's subject is of its board and its
    chapter of its subject).
  \<^item> \<open>Sampler\<close>: \<^verbatim>\<open>generateMTP\<close> (lines 353--385): the pool, the boost of
    preferred marks, and the sampling loop as a terminating \<open>function\<close> on the
    length of the available list.
  \<^item> \<open>Ingest\<close>: \<^verbatim>\<open>handlePdfUpload\<close> (lines 243--262) from the pages' text items
    on: page texts, the split at \<^verbatim>\<open>/\n\s*\n/\<close>, one question per block.
  \<^item> \<open>Persist\<close>: the slot's string (lines 6--13 and 31--35): the bytes of the
    export as char codes, \<^verbatim>\<open>btoa\<close> (RFC 4648 base64 on \<open>8 word\<close> bytes with
    shifts and masks) and \<^verbatim>\<open>atob\<close> (the forgiving-base64 decode of the HTML
    standard), and the choice \<^verbatim>\<open>initDB\<close> makes between a fresh database, the
    decoded bytes and a failed boot.
  \<^item> \<open>Render\<close>: \<^verbatim>\<open>escapeHtml\<close> (line 186) and the browser's decoding of its
    output, the 200-character preview of a playlist entry (line 339), the dashboard
    (\<^verbatim>\<open>renderDashboard\<close>, lines 79--126) and the options of the playlist picker
    (lines 188--204).
  \<^item> \<open>Page\<close>: the page's events and the wiring of lines 407--417 (\<open>step\<close>), runs
    of events that complete (\<open>completes\<close>), the reachable states (\<open>reachable\<close>),
    and the one-step lemmas for durability and well-formedness.
  \<^item> \<open>Playlists\<close>: an abstract specification of the playlists (per id a name and a
    multiset of question ids), the abstraction \<open>abs_pl\<close> from the two tables, the
    specification's step \<open>spec_step\<close>, the invariant \<open>pl_inv\<close> (no orphan item
    rows), and the refinement of \<open>spec_step\<close> by \<open>step\<close>.
  \<^item> \<open>Screen\<close>: the page as the user clicks it (\<open>ui_step\<close> over \<open>ui_event\<close>).
    The record \<open>screen\<close> adds to \<open>app\<close> the playlist cards of
    \<^verbatim>\<open>renderPlaylists\<close> (lines 270--325) with their View/Hide toggle, the open picker
    popups of \<^verbatim>\<open>showPlaylistPicker\<close> (lines 188--211) and the files of
    \<^verbatim>\<open>exportDb\<close> (lines 387--394). A click runs its control's handler
    (\<open>run_handler\<close>: the page \<open>step\<close>, then the cards are rebuilt if the handler
    reaches \<^verbatim>\<open>renderPlaylists\<close>), then the popups' document listeners close every
    picker it did not hit (\<open>dismiss\<close>). The completions of the asynchronous PDF
    parse and file read are separate events, and they close nothing.
  \<^item> \<open>Markup\<close>: the markup of every view. Each \<^verbatim>\<open>innerHTML\<close> template is
    the string it evaluates to, and each \<^verbatim>\<open>textContent\<close> is its text. A view
    shows either its placeholder or its items (\<open>shown\<close>). The views covered are the
    question cards with their badges and button, the board list, the playlist card
    header with its plural, the playlist entries, the generated paper, the board page
    header and the dashboard cards. The lemmas count the tag-opening \<open><\<close> of each
    template.
  \<^item> This theory: the properties over whole sessions.

  The preservation lemmas share one pattern: \<open>stmt_keeps P f\<close> says a statement
  keeps a database property \<open>P\<close>; \<open>quick_keeps\<close> and \<open>insert_blocks_keeps\<close>
  lift it through quick-add and ingestion, and both well-formedness and the
  playlist frame are instances.

  \<^bold>\<open>What is shown.\<close>
  In every state the page reaches, each question's subject belongs to the question's
  board and its chapter to its subject, also after a handler threw (C1, rule
  induction over \<open>reachable\<close> with one preservation lemma per handler:
  quick-add's find-or-create files each line consistently, ingestion files
  questions under neither); the same induction keeps every table well-formed
  (\<open>reachable_wf\<close>). Along a run where every handler ends normally, reloading
  gives back the live database (C2). The generator returns a paper of distinct pool
  questions of the requested size or the whole pool (C3), always terminates without
  a TypeError for draws of \<^verbatim>\<open>Math.random\<close> below 1 (C4), boosts preferred marks
  threefold (C10, C11), and keeps a stale paper when the pool is empty (C16); every
  pool question can be drawn (C29). Deleting a playlist cascades to its items (C5);
  removing an entry removes every copy of it (C13). In every view's markup, user text
  opens no tag, except the board name on the question card (C12). Quick-add stores
  one row per line with find-or-create subjects and chapters (C6), never files a
  second subject or chapter of the same name under one parent, whatever the text and
  also when it throws part-way (C7), drops the lines with no board (C14), and leaves
  memory and slot apart when a table is missing (C15). The occurrence badge counts
  equal texts (C8); PDF ingestion stores one row per block (C9) and each page
  becomes one question (C22). The slot string decodes to exactly the exported bytes
  (C17), and a corrupted slot stops the boot (C18). A new board is listed first
  (C19); a missing table makes create throw with nothing written (C20) and delete
  leave a partial write (C21). The count input 0 asks for 10 (C23); the question
  list is the board's questions newest first (C24) and each playlist card counts its
  rows (C25). The playlist handlers refine the abstract specification (C26) under the
  no-orphan invariant, which every step keeps as long as the picker's playlist exists
  (C27). On the screen, no click can leave a picker open while the playlists change,
  so no orphan row ever appears (C33). The exception is an import that finishes while
  a picker is open: picking one of its options orphans a row, and when the picked id
  is the next rowid the next new playlist starts out holding the question (C28). A
  picker insert leaves every playlist card as it was (C32). Escaping is safe and
  decodes back (C30), and the preview can cut an entity (C31). Supporting lemmas
  show that the slot string has the base64 length and alphabet
  (\<open>Persist.slot_shape\<close>), that rowids follow SQLite's max + 1 rule
  (\<open>Table.next_rowid_max\<close>), that exporting and importing a file restores the
  exported database (\<open>Screen.export_import_roundtrip\<close>), that every reachable
  screen's cards read Hide exactly when their entries are shown
  (\<open>ui_reachable_labelled\<close>), and that an import keeps the replaced database's
  selected board and paper (\<open>import_keeps_view\<close>).

  \<^bold>\<open>Modelling choices.\<close>
  \<^verbatim>\<open>Math.random()\<close> is \<open>rnd c / 2^53\<close> for a source \<open>rnd\<close> and a call counter
  \<open>c\<close>: the 53 random bits of a double; the hypothesis \<open>rnd i < 2^53\<close> is exactly
  \<open>Math.random() < 1\<close>, and the index is the exact floor of the product (the
  double product can differ by rounding but stays in range). Integers are
  unbounded \<open>int\<close>: rowids stay far below 2^53 in any session. The event
  \<open>ImportFile\<close> carries the database the file holds; reachability assumes that
  file and the slot hold databases the app wrote (well-formed tables, questions
  linked to their board's subjects and chapters). In \<open>App\<close>
  the slot holds the database value: \<open>Persist\<close> shows the string layer returns
  the exported bytes unchanged, and sql.js's \<^verbatim>\<open>export\<close> and
  \<^verbatim>\<open>new SQL.Database(bytes)\<close> are taken to be inverse (the library's contract,
  not modelled). The pool of C29 is bounded by 2^53 entries, the number of values a
  draw can take; a real pool is far smaller. A popup's listener is armed 10 ms after
  it opens (line 210); the screen treats it as armed at the next click, since a
  human click cannot come sooner. Clicks on a popup's background and the popup's
  position are not events. A download carries the database value, as the slot does.
  Cards and popups are addressed by their position, as each button's closure is
  fixed to its own card or popup.
  Strings are lists of 8-bit characters (Latin-1 code units). In the markup
  templates, the em dash is written as the reference \<^verbatim>\<open>&mdash;\<close>, which
  parses to the same character.

  \<^bold>\<open>Not modelled.\<close>
  The CSS class names and the element nesting the render functions build with
  \<^verbatim>\<open>createElement\<close> (layout only; every text and markup string is modelled). The
  header of \<^verbatim>\<open>renderBoardPage\<close> is a view function of the board id, not part of
  the screen's state. Also not modelled: the picker's placement and its
  \<^verbatim>\<open>textContent\<close> placeholder (which holds an em dash, not a Latin-1
  character), the Blob and object URL of \<^verbatim>\<open>exportDb\<close>, the byte format of sql.js
  exports, the argument limit that \<^verbatim>\<open>String.fromCharCode(...data)\<close> hits on a large
  export, pdf.js text extraction, and the \<^verbatim>\<open>TypeError\<close> detail when a random index
  falls out of range (which C4 shows never happens). \<^verbatim>\<open>renderDashboard\<close> and
  \<^verbatim>\<open>selectBoard\<close> are never called: \<open>Render\<close> models the dashboard's data, but no
  event reaches it (\<open>Markup\<close> adds its markup), and \<open>selectBoard\<close>, which only sets the board before
  \<^verbatim>\<open>renderBoardPage\<close> does the same, is covered by \<open>renderBoardPage\<close>.
\<close>

subsection \<open>The generate button\<close>

text \<open>Claim C23. The count input \<^verbatim>\<open>0\<close> asks for a paper of 10 questions:
  \<^verbatim>\<open>parseInt(genCount) || 10\<close> treats 0 like an empty or non-numeric input.\<close>

theorem on_generate_count_zero:
  "on_generate rnd ''0'' marks s = on_generate rnd ''10'' marks s"
proof -
  have "parse_int ''0'' = Some 0" "parse_int ''10'' = Some 10"
    by (simp_all add: parse_int_def parse_sign_def parse_radix_def trim_def js_ws_def dec_digit_def
          digits_value_def)
  then show ?thesis by (simp add: on_generate_def)
qed

subsection \<open>Durability\<close>

text \<open>Claim C2. After the page boots from its slot, as long as every event
  completes normally, the slot holds exactly the live database: a reload shows the
  same data.\<close>

theorem completes_durable:
  assumes "completes (init_app slot) es s'"
  shows "durable s'"
proof -
  have "completes s es s' \<Longrightarrow> durable s \<Longrightarrow> durable s'" for s
    by (induction s es s' rule: completes.induct) (auto dest: step_durable)
  with assms durable_init show ?thesis by blast
qed

theorem completes_durable_witness:
  "completes (init_app (Some ex_db)) [OpenBoard 1, PickPlaylist 1 2, CreatePlaylistClick '' Exam '']
     (result (step (result (step (result (step (init_app (Some ex_db)) (OpenBoard 1))) (PickPlaylist 1 2)))
        (CreatePlaylistClick '' Exam ''))) \<and>
   durable (result (step (result (step (result (step (init_app (Some ex_db)) (OpenBoard 1))) (PickPlaylist 1 2)))
        (CreatePlaylistClick '' Exam '')))"
proof -
  define s1 where "s1 = result (step (init_app (Some ex_db)) (OpenBoard 1))"
  define s2 where "s2 = result (step s1 (PickPlaylist 1 2))"
  have 1: "step (init_app (Some ex_db)) (OpenBoard 1) = Done s1"
    by (simp add: s1_def handler_simps)
  have 2: "step s1 (PickPlaylist 1 2) = Done s2"
    by (simp add: s2_def s1_def handler_simps stmt_def ex_simps ins_item_def need_single
          tbl_insert_def Let_def)
  have 3: "step s2 (CreatePlaylistClick '' Exam '') =
      Done (result (step s2 (CreatePlaylistClick '' Exam '')))"
    by (simp add: s2_def s1_def handler_simps stmt_def ex_simps ins_item_def ins_playlist_def
          need_single tbl_insert_def Let_def on_create_playlist_def trim_def js_ws_def)
  have "completes (init_app (Some ex_db)) [OpenBoard 1, PickPlaylist 1 2, CreatePlaylistClick '' Exam '']
      (result (step s2 (CreatePlaylistClick '' Exam '')))"
    by (intro completes.next_event [OF 1] completes.next_event [OF 2] completes.next_event [OF 3]
          completes.stop)
  then show ?thesis using completes_durable unfolding s2_def s1_def by blast
qed

subsection \<open>Well-formedness\<close>

text \<open>In every state the page can reach, every table keeps positive rowids in strictly
  increasing order, also after handlers that ended with an exception.\<close>

lemma reachable_wf:
  assumes "reachable s"
  shows "wf_db (db s)"
proof -
  from assms have "wf_app s"
  proof (induction rule: reachable.induct)
    case (boot slot)
    then show ?case
      by (cases slot) (auto simp: init_app_def wf_app_def wf_init_db)
  next
    case (event s e)
    then show ?case by (blast intro: step_wf)
  qed
  then show ?thesis by (simp add: wf_app_def)
qed

subsection \<open>The catalogue\<close>

text \<open>Claim C1. In every state the page can reach, each question's subject is a subject
  of the question's board and its chapter a chapter of that subject, also after handlers
  that ended with an exception: quick-add files every line under the subject it finds or
  creates for the selected board and the chapter it finds or creates for that subject,
  ingestion files questions without either, and no other handler touches them. The slot
  and imported files are databases the app wrote, so they are linked too.\<close>

theorem reachable_linked:
  assumes "reachable s"
  shows "questions_linked (db s)"
  using assms
proof (induction rule: reachable.induct)
  case (boot slot)
  then show ?case
    by (cases slot) (auto simp: init_app_def init_db_def create_schema_def empty_db_def questions_linked_def)
next
  case (event s e)
  then show ?case by (blast intro: step_linked)
qed

theorem reachable_linked_witness:
  "reachable (result (step (result (step (init_app (Some ex_db)) (OpenBoard 1))) (AddQuickClick ex_line))) \<and>
   questions_linked (db (result (step (result (step (init_app (Some ex_db)) (OpenBoard 1))) (AddQuickClick ex_line))))"
proof -
  have "questions_linked ex_db"
    by (simp add: questions_linked_def row_linked_def ex_simps)
  then have "slot_ok (Some ex_db)"
    using ex_db_wf by simp
  then have r: "reachable (result (step (result (step (init_app (Some ex_db)) (OpenBoard 1))) (AddQuickClick ex_line)))"
    by (intro reachable.event reachable.boot) simp_all
  show ?thesis using reachable_linked [OF r] r by simp
qed

end
